theory Spec2Isabelle
  imports Complex_Main "HOL-Library.Char_ord" "HOL-Library.List_Lexorder"
    "HOL-Library.Product_Lexorder" "HOL-Library.Log_Nat" "HOL-Library.Monad_Syntax"
begin

section \<open>The train booking engine of \<^verbatim>\<open>trainbooking.py\<close>\<close>

text \<open>
  The development embeds the pricing, seat-inventory and booking-lifecycle code of
  \<^verbatim>\<open>src/trainbooking.py\<close> (class \<^verbatim>\<open>BookingSystem\<close>).

  Conventions of the embedding.
  \<^item> Python dictionaries with a fixed set of keys (a train, a pricing breakdown, a booking)
    are records; \<^verbatim>\<open>self.trains_db\<close>, whose keys are route keys, is a map.
  \<^item> Python \<^verbatim>\<open>int\<close> is \<open>int\<close>. The amounts of money are embedded twice. In the
    embedding of the booking lifecycle (ledger and inventory) they are exact rationals
    \<open>rat\<close>, with the rates \<^verbatim>\<open>0.50\<close>, \<^verbatim>\<open>1.00\<close>, \<^verbatim>\<open>0.30\<close>, \<^verbatim>\<open>0.10\<close> as \<open>1/2\<close>,
    \<open>1\<close>, \<open>3/10\<close>, \<open>1/10\<close>: what is proved there about the ledger and the inventory does
    not depend on how an amount is rounded. The fare calculator and the refund computation
    are embedded a second time with the numbers of Python, unbounded ints and IEEE 754
    doubles, in the functions whose names end in \<open>_ieee\<close>; what is proved about the
    computed amounts is proved there.
  \<^item> The methods read the terminal with \<^verbatim>\<open>input\<close>. The lines read are parameters of the
    model, already stripped, collected in a request record. One call of a model function is one
    pass through the method's \<^verbatim>\<open>while True\<close> loop; an outcome that the source answers with
    \<^verbatim>\<open>continue\<close> (a new prompt) is returned with the state as it was.
  \<^item> \<^verbatim>\<open>datetime.strptime(s, "%Y-%m-%d").date()\<close> is a library call; it is the parameter
    \<open>strptime\<close>, with \<open>None\<close> for \<^verbatim>\<open>ValueError\<close>.
  \<^item> \<^verbatim>\<open>_save_data\<close> writes a JSON file and changes nothing in memory; it is not part of
    the state.
\<close>

subsection \<open>Data\<close>

text \<open>A train of a route bucket: keys \<^verbatim>\<open>id, name, departure, arrival, price, seats\<close>.\<close>

record train =
  id_train :: string
  name_train :: string
  departure :: string
  arrival :: string
  price :: rat
  seats :: int

text \<open>The value of \<^verbatim>\<open>datetime.date\<close> that the fare calculator inspects.\<close>

record date =
  year :: int
  month :: int
  day :: int

text \<open>The nested dictionary \<^verbatim>\<open>"breakdown"\<close> of a pricing result.\<close>

record savings =
  infant_savings :: rat
  child_savings :: rat
  senior_savings :: rat
  season_savings :: rat

text \<open>The dictionary returned by \<^verbatim>\<open>_calculate_discounted_price\<close>.\<close>

record pricing =
  final_price :: rat
  base_price_per_ticket :: rat
  adults_tickets :: int
  infant_tickets :: int
  children_tickets :: int
  seniors_tickets :: int
  subtotal :: rat
  total_discount :: rat
  breakdown :: savings

text \<open>The dictionary \<^verbatim>\<open>{"from": ..., "to": ...}\<close> of a booking.\<close>

record route =
  from_route :: string
  to_route :: string

text \<open>A booking record, as \<^verbatim>\<open>confirm_and_create_booking\<close> builds it.\<close>

record booking =
  booking_id :: string
  username :: string
  booking_time :: string
  train_details :: train
  route :: route
  travel_date :: string
  num_tickets :: int
  pricing :: pricing
  total_price :: rat

text \<open>
  The in-memory state of \<^verbatim>\<open>BookingSystem\<close> that the engine reads and writes:
  \<^verbatim>\<open>self.trains_db\<close> (route key to list of trains) and \<^verbatim>\<open>self.bookings\<close>.
\<close>

record system =
  trains_db :: "string \<rightharpoonup> train list"
  bookings :: "booking list"

subsection \<open>Fare calculator, in exact arithmetic\<close>

text \<open>The class attribute \<^verbatim>\<open>DISCOUNT_RATES\<close>, a dictionary with four fixed keys.\<close>

datatype rate_key = CHILD | INFANT | SENIOR_CITIZEN | OFF_PEAK_SEASON

fun DISCOUNT_RATES :: "rate_key \<Rightarrow> rat" where
  "DISCOUNT_RATES CHILD = 1 / 2"
| "DISCOUNT_RATES INFANT = 1"
| "DISCOUNT_RATES SENIOR_CITIZEN = 3 / 10"
| "DISCOUNT_RATES OFF_PEAK_SEASON = 1 / 10"

text \<open>
  \<^verbatim>\<open>_calculate_discounted_price\<close> (lines 223 to 268). The \<^verbatim>\<open>try\<close> around the date
  parse leaves \<^verbatim>\<open>season_savings\<close> at \<^verbatim>\<open>0.0\<close> when \<^verbatim>\<open>strptime\<close> raises.
\<close>

definition calculate_discounted_price ::
  "(string \<Rightarrow> date option) \<Rightarrow> rat \<Rightarrow> string \<Rightarrow> int \<Rightarrow> int \<Rightarrow> int \<Rightarrow> int \<Rightarrow> pricing" where
  "calculate_discounted_price strptime base_price travel_date_str
       num_adults num_infants num_children num_seniors =
    (let price_adults = base_price * of_int num_adults;
         infant_discount_rate = DISCOUNT_RATES INFANT;
         price_infants = base_price * of_int num_infants * (1 - infant_discount_rate);
         infant_savings' = base_price * of_int num_infants * infant_discount_rate;
         child_discount_rate = DISCOUNT_RATES CHILD;
         price_children = base_price * of_int num_children * (1 - child_discount_rate);
         child_savings' = base_price * of_int num_children * child_discount_rate;
         senior_discount_rate = DISCOUNT_RATES SENIOR_CITIZEN;
         price_seniors = base_price * of_int num_seniors * (1 - senior_discount_rate);
         senior_savings' = base_price * of_int num_seniors * senior_discount_rate;
         subtotal' = price_adults + price_infants + price_children + price_seniors;
         total_category_discount = infant_savings' + child_savings' + senior_savings';
         season_savings' =
           (case strptime travel_date_str of
              None \<Rightarrow> 0
            | Some parsed_date \<Rightarrow>
                if month parsed_date \<in> {1, 2}
                then subtotal' * DISCOUNT_RATES OFF_PEAK_SEASON
                else 0);
         final_total_price = subtotal' - season_savings';
         total_discount' = total_category_discount + season_savings'
     in \<lparr> final_price = final_total_price,
          base_price_per_ticket = base_price,
          adults_tickets = num_adults,
          infant_tickets = num_infants,
          children_tickets = num_children,
          seniors_tickets = num_seniors,
          subtotal = subtotal',
          total_discount = total_discount',
          breakdown = \<lparr> infant_savings = infant_savings',
                        child_savings = child_savings',
                        senior_savings = senior_savings',
                        season_savings = season_savings' \<rparr> \<rparr>)"

text \<open>
  A stand-in for the library parser on the two travel dates used as concrete inputs below:
  a day in June and a day in January; every other string is rejected.
\<close>

definition strptime_demo :: "string \<Rightarrow> date option" where
  "strptime_demo s =
    (if s = ''2030-06-15'' then Some \<lparr> year = 2030, month = 6, day = 15 \<rparr>
     else if s = ''2030-01-15'' then Some \<lparr> year = 2030, month = 1, day = 15 \<rparr>
     else None)"

subsection \<open>Seat inventory\<close>

text \<open>
  In \<^verbatim>\<open>search_and_book_trains\<close> the selected train is
  \<^verbatim>\<open>self.trains_db.get(route_key, [])[choice_index]\<close>, the dictionary object inside the
  database itself, and \<^verbatim>\<open>confirm_and_create_booking\<close> mutates that object. A reference
  to a train is therefore a route key and a position in the bucket.

  \<open>reserve_seats\<close> is \<^verbatim>\<open>train['seats'] -= num_tickets\<close> (lines 399 to 401). The
  callers pass a position inside an existing bucket; for any other reference the model leaves
  the database as it is.
\<close>

definition reserve_seats ::
  "(string \<rightharpoonup> train list) \<Rightarrow> string \<Rightarrow> nat \<Rightarrow> int \<Rightarrow> (string \<rightharpoonup> train list)" where
  "reserve_seats db route_key choice_index num_tickets' =
    (case db route_key of
       None \<Rightarrow> db
     | Some results \<Rightarrow>
         if choice_index < length results
         then db(route_key \<mapsto> results[choice_index :=
                (results ! choice_index)\<lparr>seats := seats (results ! choice_index) - num_tickets'\<rparr>])
         else db)"

text \<open>
  The loop of lines 566 to 569: the first train of the bucket whose id is \<open>train_id\<close> gets
  the seats back, and the loop stops (\<^verbatim>\<open>break\<close>); when no train has that id the loop ends
  without having changed anything and without raising.
\<close>

fun restore_first :: "string \<Rightarrow> int \<Rightarrow> train list \<Rightarrow> train list" where
  "restore_first train_id total_cancelled [] = []"
| "restore_first train_id total_cancelled (t # ts) =
    (if id_train t = train_id
     then t\<lparr>seats := seats t + total_cancelled\<rparr> # ts
     else t # restore_first train_id total_cancelled ts)"

datatype py_error = KeyError

text \<open>
  The \<^verbatim>\<open>try\<close> block of lines 565 to 573. \<^verbatim>\<open>self.trains_db[route_key]\<close> raises
  \<^verbatim>\<open>KeyError\<close> for a route key that is not in the database; the \<^verbatim>\<open>except\<close> branch
  prints ``Error: Could not restore seat count'' and goes on.
\<close>

definition restore_seats ::
  "(string \<rightharpoonup> train list) \<Rightarrow> string \<Rightarrow> string \<Rightarrow> int \<Rightarrow> py_error + (string \<rightharpoonup> train list)" where
  "restore_seats db route_key train_id total_cancelled =
    (case db route_key of
       None \<Rightarrow> Inl KeyError
     | Some trains \<Rightarrow> Inr (db(route_key \<mapsto> restore_first train_id total_cancelled trains)))"

text \<open>
  The position of the train that the loop of \<open>restore_first\<close> updates: the first one with
  the given id, if there is one.
\<close>

fun release_target :: "string \<Rightarrow> train list \<Rightarrow> nat option" where
  "release_target train_id [] = None"
| "release_target train_id (t # ts) =
    (if id_train t = train_id then Some 0
     else map_option Suc (release_target train_id ts))"

subsection \<open>Creating a booking\<close>

text \<open>
  A line typed at a numbered menu: the literal \<^verbatim>\<open>'0'\<close>, a line that \<^verbatim>\<open>int\<close> accepts,
  or a line on which \<^verbatim>\<open>int\<close> raises \<^verbatim>\<open>ValueError\<close>.
\<close>

datatype choice = Zero | Number int | NotANumber

text \<open>
  What one pass of \<^verbatim>\<open>search_and_book_trains\<close> and \<^verbatim>\<open>confirm_and_create_booking\<close>
  reads: the logged-in user (\<^verbatim>\<open>self.current_user['username']\<close>; the user menu runs only
  while a user is logged in), the results of \<^verbatim>\<open>_get_station_choice\<close> and
  \<^verbatim>\<open>_get_validated_date\<close> (\<open>None\<close> when the user cancels), the train number, the four
  counts (\<open>None\<close> when \<^verbatim>\<open>int\<close> raises \<^verbatim>\<open>ValueError\<close>; an empty line is \<open>0\<close>), the
  answer to ``Confirm booking?'' (stripped and lower-cased), and the two values taken from the
  clock and the random generator: the booking id and \<^verbatim>\<open>datetime.now().isoformat()\<close>.
\<close>

record book_request =
  in_user :: string
  in_from_stn :: "string option"
  in_to_stn :: "string option"
  in_date_str :: "string option"
  in_choice :: choice
  in_adults :: "int option"
  in_infants :: "int option"
  in_children :: "int option"
  in_seniors :: "int option"
  in_confirm :: string
  in_booking_id :: string
  in_now :: string

text \<open>
  How a pass ends. \<open>InvalidInput\<close>, \<open>InvalidTrainNumber\<close>, \<open>InvalidCounts\<close>,
  \<open>EmptyBooking\<close> and \<open>InsufficientSeats\<close> print a message and prompt for a train
  again (\<^verbatim>\<open>continue\<close>); the others leave the method.
\<close>

datatype book_outcome =
    SearchCancelled
  | SameStation
  | NoTrainsFound
  | BookingCancelled
  | InvalidInput
  | InvalidTrainNumber
  | InvalidCounts
  | EmptyBooking
  | InsufficientSeats
  | BookingDeclined
  | BookingConfirmed booking

text \<open>Python's \<^verbatim>\<open>not x\<close> on a value that is \<^verbatim>\<open>None\<close> or a string.\<close>

definition truthy :: "string option \<Rightarrow> string option" where
  "truthy x = (case x of Some (c # cs) \<Rightarrow> Some (c # cs) | _ \<Rightarrow> None)"

text \<open>What a pass has chosen when it reaches the confirmation step.\<close>

record selection =
  sel_route_key :: string
  sel_index :: nat
  sel_train :: train
  sel_from :: string
  sel_to :: string
  sel_date :: string
  sel_num_tickets :: int
  sel_pricing :: pricing

text \<open>
  \<^verbatim>\<open>search_and_book_trains\<close> up to the call of \<^verbatim>\<open>confirm_and_create_booking\<close>
  (lines 270 to 339): \<open>Inl\<close> is a pass that ends before, \<open>Inr\<close> carries the arguments of
  the call.
\<close>

definition search_and_select ::
  "(string \<Rightarrow> date option) \<Rightarrow> system \<Rightarrow> book_request \<Rightarrow> book_outcome + selection" where
  "search_and_select strptime s req =
    (case truthy (in_from_stn req) of
       None \<Rightarrow> Inl SearchCancelled
     | Some from_stn \<Rightarrow>
    (case truthy (in_to_stn req) of
       None \<Rightarrow> Inl SearchCancelled
     | Some to_stn \<Rightarrow>
    if from_stn = to_stn then Inl SameStation
    else
    (case truthy (in_date_str req) of
       None \<Rightarrow> Inl SearchCancelled
     | Some date_str \<Rightarrow>
    (let route_key = from_stn @ ''::'' @ to_stn;
         results = (case trains_db s route_key of None \<Rightarrow> [] | Some trains \<Rightarrow> trains)
     in
     if results = [] then Inl NoTrainsFound
     else
     (case in_choice req of
        Zero \<Rightarrow> Inl BookingCancelled
      | NotANumber \<Rightarrow> Inl InvalidInput
      | Number n \<Rightarrow>
          (let choice_index = n - 1 in
           if 0 \<le> choice_index \<and> choice_index < int (length results) then
             (let selected_train = results ! nat choice_index in
              case (in_adults req, in_infants req, in_children req, in_seniors req) of
                (Some num_adults, Some num_infants, Some num_children, Some num_seniors) \<Rightarrow>
                  (let num_tickets' = num_adults + num_infants + num_children + num_seniors in
                   if num_tickets' = 0 then Inl EmptyBooking
                   else if \<not> (1 \<le> num_tickets' \<and> num_tickets' \<le> seats selected_train)
                   then Inl InsufficientSeats
                   else Inr \<lparr> sel_route_key = route_key,
                              sel_index = nat choice_index,
                              sel_train = selected_train,
                              sel_from = from_stn,
                              sel_to = to_stn,
                              sel_date = date_str,
                              sel_num_tickets = num_tickets',
                              sel_pricing = calculate_discounted_price strptime
                                (price selected_train) date_str
                                num_adults num_infants num_children num_seniors \<rparr>)
              | _ \<Rightarrow> Inl InvalidCounts)
           else Inl InvalidTrainNumber))))))"

text \<open>The dictionary \<^verbatim>\<open>booking_record\<close> of lines 384 to 394.\<close>

definition booking_record :: "book_request \<Rightarrow> selection \<Rightarrow> booking" where
  "booking_record req sel =
    \<lparr> booking_id = in_booking_id req,
      username = in_user req,
      booking_time = in_now req,
      train_details = sel_train sel,
      route = \<lparr> from_route = sel_from sel, to_route = sel_to sel \<rparr>,
      travel_date = sel_date sel,
      num_tickets = sel_num_tickets sel,
      pricing = sel_pricing sel,
      total_price = final_price (sel_pricing sel) \<rparr>"

text \<open>
  \<^verbatim>\<open>confirm_and_create_booking\<close> (lines 351 to 409). The result is the outcome and the
  list of the states of the memory after each statement that changes it, in the order of
  execution: line 396 appends the record to \<^verbatim>\<open>self.bookings\<close>, then line 400 takes the
  seats from the train.
\<close>

definition confirm_and_create_booking ::
  "system \<Rightarrow> book_request \<Rightarrow> selection \<Rightarrow> book_outcome \<times> system list" where
  "confirm_and_create_booking s req sel =
    (if in_confirm req = ''y'' then
       (let s1 = s\<lparr>bookings := bookings s @ [booking_record req sel]\<rparr>;
            s2 = s1\<lparr>trains_db := reserve_seats (trains_db s1)
                       (sel_route_key sel) (sel_index sel) (sel_num_tickets sel)\<rparr>
        in (BookingConfirmed (booking_record req sel), [s1, s2]))
     else (BookingDeclined, []))"

definition search_and_book_trains ::
  "(string \<Rightarrow> date option) \<Rightarrow> system \<Rightarrow> book_request \<Rightarrow> book_outcome \<times> system list" where
  "search_and_book_trains strptime s req =
    (case search_and_select strptime s req of
       Inl outcome \<Rightarrow> (outcome, [])
     | Inr sel \<Rightarrow> confirm_and_create_booking s req sel)"

text \<open>The state in which an operation leaves the memory: the last state of its list.\<close>

definition final :: "system \<Rightarrow> system list \<Rightarrow> system" where
  "final s steps = last (s # steps)"

subsection \<open>Viewing bookings\<close>

text \<open>
  The list that \<^verbatim>\<open>view_my_bookings\<close> displays (lines 414 to 420): the bookings of the
  user, sorted by travel date and booking time. \<^verbatim>\<open>list.sort\<close> is stable, and so is
  \<open>sort_key\<close>. The method changes nothing.
\<close>

definition view_my_bookings :: "system \<Rightarrow> string \<Rightarrow> booking list" where
  "view_my_bookings s user =
    sort_key (\<lambda>b. (travel_date b, booking_time b))
      (filter (\<lambda>b. username b = user) (bookings s))"

subsection \<open>Cancelling or modifying a booking\<close>

text \<open>
  The four entries of the list \<^verbatim>\<open>categories\<close> (lines 484 to 489), named by their display
  names; each stands for its key of the pricing dictionary.
\<close>

datatype category = Adult | Infant | Child | Senior

definition categories :: "category list" where
  "categories = [Adult, Infant, Child, Senior]"

text \<open>\<^verbatim>\<open>p.get(key, 0)\<close> and \<^verbatim>\<open>p[key] -= count\<close> on a pricing dictionary.\<close>

fun p_get :: "pricing \<Rightarrow> category \<Rightarrow> int" where
  "p_get p Adult = adults_tickets p"
| "p_get p Infant = infant_tickets p"
| "p_get p Child = children_tickets p"
| "p_get p Senior = seniors_tickets p"

fun p_decrease :: "category \<times> int \<Rightarrow> pricing \<Rightarrow> pricing" where
  "p_decrease (Adult, count) p = p\<lparr>adults_tickets := adults_tickets p - count\<rparr>"
| "p_decrease (Infant, count) p = p\<lparr>infant_tickets := infant_tickets p - count\<rparr>"
| "p_decrease (Child, count) p = p\<lparr>children_tickets := children_tickets p - count\<rparr>"
| "p_decrease (Senior, count) p = p\<lparr>seniors_tickets := seniors_tickets p - count\<rparr>"

text \<open>The \<^verbatim>\<open>if/elif\<close> chain of lines 509 to 516.\<close>

fun ticket_paid_price :: "category \<Rightarrow> rat \<Rightarrow> rat" where
  "ticket_paid_price Adult base_price = base_price * 1"
| "ticket_paid_price Infant base_price = 0"
| "ticket_paid_price Child base_price = base_price * (1 - DISCOUNT_RATES CHILD)"
| "ticket_paid_price Senior base_price = base_price * (1 - DISCOUNT_RATES SENIOR_CITIZEN)"

text \<open>
  The three accumulators of the loop over the categories: the dictionary \<^verbatim>\<open>cancellations\<close>
  (in insertion order), \<^verbatim>\<open>total_cancelled_seats\<close> and \<^verbatim>\<open>total_refund_gross\<close>.
\<close>

record tally =
  cancellations :: "(category \<times> int) list"
  total_cancelled_seats :: int
  total_refund_gross :: rat

text \<open>
  The loop of lines 496 to 525. For a category with tickets left the inner \<^verbatim>\<open>while True\<close>
  prompts until an answer lies between \<open>0\<close> and \<open>remaining\<close>: \<open>answers key\<close> is the list of
  the integers typed at that prompt, and the first one in range is taken. When none is in range
  the method is still at the prompt, which is the result \<open>None\<close>. A category with nothing left
  is not prompted for and is recorded with \<open>0\<close>.
\<close>

fun ask_cancellations ::
  "pricing \<Rightarrow> (category \<Rightarrow> int list) \<Rightarrow> category list \<Rightarrow> tally \<Rightarrow> tally option" where
  "ask_cancellations p answers [] t = Some t"
| "ask_cancellations p answers (key # keys) t =
    (let remaining = p_get p key in
     if remaining > 0 then
       (case find (\<lambda>cancel_count. 0 \<le> cancel_count \<and> cancel_count \<le> remaining) (answers key) of
          None \<Rightarrow> None
        | Some cancel_count \<Rightarrow>
            ask_cancellations p answers keys
              \<lparr> cancellations = cancellations t @ [(key, cancel_count)],
                total_cancelled_seats = total_cancelled_seats t + cancel_count,
                total_refund_gross = total_refund_gross t
                  + of_int cancel_count * ticket_paid_price key (base_price_per_ticket p) \<rparr>)
     else
       ask_cancellations p answers keys (t\<lparr>cancellations := cancellations t @ [(key, 0)]\<rparr>))"

text \<open>
  What one pass of \<^verbatim>\<open>cancel_booking\<close> reads: the logged-in user, the number of the
  booking in the user's list, the integers typed at each category prompt, and the answer to
  ``Are you sure?'' (stripped and lower-cased).
\<close>

record cancel_request =
  by_user :: string
  booking_choice :: choice
  cancel_answers :: "category \<Rightarrow> int list"
  cancel_confirm :: string

text \<open>The two values of \<^verbatim>\<open>status_msg\<close>.\<close>

datatype cancel_status = FullyCancelled | PartiallyCancelled

text \<open>
  What a committed cancellation reports: the booking as it was selected, its position in
  \<^verbatim>\<open>self.bookings\<close>, the status, the accumulators of the category loop, the fee, the net
  refund, and the exception caught while restoring the seats, if any.
\<close>

record cancel_report =
  target :: booking
  target_position :: nat
  status :: cancel_status
  cancelled :: tally
  cancellation_fee :: rat
  net_refund :: rat
  restore_error :: "py_error option"

datatype cancel_outcome =
    NoBookings
  | ModificationAborted
  | InvalidSelection
  | InvalidBookingNumber
  | NoTicketsRemaining
  | AwaitingCount
  | NothingSelected
  | CancellationAborted
  | Processed cancel_report

text \<open>
  The positions in \<^verbatim>\<open>self.bookings\<close> of the entries of \<^verbatim>\<open>user_bookings\<close>: the
  comprehension of line 450 builds a new list of the same dictionary objects, so a change made
  through \<^verbatim>\<open>user_bookings[choice_index]\<close> is a change of the ledger at that position.
\<close>

definition user_positions :: "string \<Rightarrow> booking list \<Rightarrow> nat list" where
  "user_positions user bs = filter (\<lambda>i. username (bs ! i) = user) [0..<length bs]"

text \<open>What a pass has chosen when it reaches the commit of lines 544 to 583.\<close>

record cancel_selection =
  booking_to_modify :: booking
  position :: nat
  chosen :: tally

text \<open>
  \<^verbatim>\<open>cancel_booking\<close> up to the confirmation (lines 447 to 542): \<open>Inl\<close> is a pass that ends
  before the commit.
\<close>

definition cancel_select :: "system \<Rightarrow> cancel_request \<Rightarrow> cancel_outcome + cancel_selection" where
  "cancel_select s req =
    (let user_bookings = filter (\<lambda>b. username b = by_user req) (bookings s) in
     if user_bookings = [] then Inl NoBookings
     else
     (case booking_choice req of
        Zero \<Rightarrow> Inl ModificationAborted
      | NotANumber \<Rightarrow> Inl InvalidSelection
      | Number n \<Rightarrow>
          (let choice_index = n - 1 in
           if 0 \<le> choice_index \<and> choice_index < int (length user_bookings) then
             (let b = user_bookings ! nat choice_index;
                  p = pricing b;
                  current_tickets = num_tickets b
              in
              if current_tickets = 0 then Inl NoTicketsRemaining
              else
              (case ask_cancellations p (cancel_answers req) categories
                      \<lparr> cancellations = [], total_cancelled_seats = 0, total_refund_gross = 0 \<rparr> of
                 None \<Rightarrow> Inl AwaitingCount
               | Some t \<Rightarrow>
                   if total_cancelled_seats t = 0 then Inl NothingSelected
                   else if cancel_confirm req \<noteq> ''y'' then Inl CancellationAborted
                   else Inr \<lparr> booking_to_modify = b,
                              position = user_positions (by_user req) (bookings s) ! nat choice_index,
                              chosen = t \<rparr>))
           else Inl InvalidBookingNumber)))"

text \<open>
  The commit (lines 544 to 583), with the states of the memory after each statement that
  changes it, in the order of execution. First the ledger: \<^verbatim>\<open>self.bookings.remove\<close> deletes
  the first entry equal to the booking; a partial cancellation updates the selected dictionary
  in place. Then the seats go back to the train; when that raises, the memory stays as the
  ledger step left it.
\<close>

definition cancel_commit :: "system \<Rightarrow> cancel_selection \<Rightarrow> cancel_outcome \<times> system list" where
  "cancel_commit s sel =
    (let b = booking_to_modify sel;
         p = pricing b;
         t = chosen sel;
         current_tickets = num_tickets b;
         cancellation_fee_rate = 1 / 10;
         cancellation_fee' = total_refund_gross t * cancellation_fee_rate;
         net_refund' = total_refund_gross t - cancellation_fee';
         new_tickets = current_tickets - total_cancelled_seats t;
         new_total_price = total_price b - net_refund';
         s1 = (if new_tickets = 0
               then s\<lparr>bookings := remove1 b (bookings s)\<rparr>
               else s\<lparr>bookings := (bookings s)[position sel :=
                        b\<lparr> pricing := fold p_decrease (cancellations t) p,
                           num_tickets := new_tickets,
                           total_price := new_total_price \<rparr>]\<rparr>);
         status_msg = (if new_tickets = 0 then FullyCancelled else PartiallyCancelled);
         train_id = id_train (train_details b);
         route_key = from_route (route b) @ ''::'' @ to_route (route b);
         report = \<lparr> target = b, target_position = position sel, status = status_msg,
                    cancelled = t, cancellation_fee = cancellation_fee',
                    net_refund = net_refund', restore_error = None \<rparr>
     in
     case restore_seats (trains_db s1) route_key train_id (total_cancelled_seats t) of
       Inl e \<Rightarrow> (Processed (report\<lparr>restore_error := Some e\<rparr>), [s1])
     | Inr db \<Rightarrow> (Processed report, [s1, s1\<lparr>trains_db := db\<rparr>]))"

definition cancel_booking :: "system \<Rightarrow> cancel_request \<Rightarrow> cancel_outcome \<times> system list" where
  "cancel_booking s req =
    (case cancel_select s req of
       Inl outcome \<Rightarrow> (outcome, [])
     | Inr sel \<Rightarrow> cancel_commit s sel)"

subsection \<open>Sequences of operations\<close>

text \<open>
  The user menu calls the two methods in any order and with any input. \<open>run_states\<close> lists
  every state that the memory passes through, and \<open>run\<close> is the state at the end.
\<close>

datatype operation = Book book_request | Cancel cancel_request

fun op_steps :: "(string \<Rightarrow> date option) \<Rightarrow> system \<Rightarrow> operation \<Rightarrow> system list" where
  "op_steps strptime s (Book req) = snd (search_and_book_trains strptime s req)"
| "op_steps strptime s (Cancel req) = snd (cancel_booking s req)"

fun run_states :: "(string \<Rightarrow> date option) \<Rightarrow> system \<Rightarrow> operation list \<Rightarrow> system list" where
  "run_states strptime s [] = []"
| "run_states strptime s (op # ops) =
    op_steps strptime s op @ run_states strptime (final s (op_steps strptime s op)) ops"

definition run :: "(string \<Rightarrow> date option) \<Rightarrow> system \<Rightarrow> operation list \<Rightarrow> system" where
  "run strptime s ops = final s (run_states strptime s ops)"

subsection \<open>Invariants\<close>

text \<open>Every train of every bucket has a seat count that is not negative.\<close>

definition seats_ok :: "system \<Rightarrow> bool" where
  "seats_ok s = (\<forall>route_key trains. trains_db s route_key = Some trains \<longrightarrow>
                   (\<forall>t \<in> set trains. 0 \<le> seats t))"

text \<open>The ticket total of a booking is the sum of its four category counts.\<close>

definition counts_sum :: "booking \<Rightarrow> bool" where
  "counts_sum b =
    (num_tickets b = adults_tickets (pricing b) + infant_tickets (pricing b)
                     + children_tickets (pricing b) + seniors_tickets (pricing b))"

definition ledger_ok :: "system \<Rightarrow> bool" where
  "ledger_ok s = (\<forall>b \<in> set (bookings s). counts_sum b)"

subsection \<open>Concrete inputs\<close>

text \<open>
  A database with one route and one train, a January booking of two adults, one infant, one
  child and one senior on it, and two cancellations of that booking: of one adult ticket, and
  of all five tickets.
\<close>

definition train_demo :: train where
  "train_demo = \<lparr> id_train = ''MUDE123'', name_train = ''Rajdhani Express'',
                  departure = ''08:15'', arrival = ''20:30'', price = 1000, seats = 50 \<rparr>"

definition s_demo :: system where
  "s_demo = \<lparr> trains_db = [''Mumbai::Delhi'' \<mapsto> [train_demo]], bookings = [] \<rparr>"

definition book_demo :: book_request where
  "book_demo = \<lparr> in_user = ''asha'', in_from_stn = Some ''Mumbai'', in_to_stn = Some ''Delhi'',
                 in_date_str = Some ''2030-01-15'', in_choice = Number 1,
                 in_adults = Some 2, in_infants = Some 1, in_children = Some 1,
                 in_seniors = Some 1, in_confirm = ''y'',
                 in_booking_id = ''BCC1893456000123'', in_now = ''2029-12-01T10:00:00'' \<rparr>"

definition booking_demo :: booking where
  "booking_demo =
    \<lparr> booking_id = ''BCC1893456000123'', username = ''asha'',
      booking_time = ''2029-12-01T10:00:00'', train_details = train_demo,
      route = \<lparr> from_route = ''Mumbai'', to_route = ''Delhi'' \<rparr>,
      travel_date = ''2030-01-15'', num_tickets = 5,
      pricing = \<lparr> final_price = 2880, base_price_per_ticket = 1000, adults_tickets = 2,
                  infant_tickets = 1, children_tickets = 1, seniors_tickets = 1,
                  subtotal = 3200, total_discount = 2120,
                  breakdown = \<lparr> infant_savings = 1000, child_savings = 500,
                                senior_savings = 300, season_savings = 320 \<rparr> \<rparr>,
      total_price = 2880 \<rparr>"

definition s_booked :: system where
  "s_booked = \<lparr> trains_db = [''Mumbai::Delhi'' \<mapsto> [train_demo\<lparr>seats := 45\<rparr>]],
                bookings = [booking_demo] \<rparr>"

definition one_adult :: "category \<Rightarrow> int list" where
  "one_adult key = (if key = Adult then [1] else [0])"

definition cancel_demo :: cancel_request where
  "cancel_demo = \<lparr> by_user = ''asha'', booking_choice = Number 1,
                   cancel_answers = one_adult, cancel_confirm = ''y'' \<rparr>"

definition all_tickets :: "category \<Rightarrow> int list" where
  "all_tickets key = (if key = Adult then [2] else [1])"

definition cancel_all_demo :: cancel_request where
  "cancel_all_demo = \<lparr> by_user = ''asha'', booking_choice = Number 1,
                       cancel_answers = all_tickets, cancel_confirm = ''y'' \<rparr>"

text \<open>Two requests that the ticket check turns down: no ticket at all, and 63 tickets.\<close>

definition book_none :: book_request where
  "book_none = book_demo\<lparr> in_adults := Some 0, in_infants := Some 0,
                            in_children := Some 0, in_seniors := Some 0 \<rparr>"

definition book_many :: book_request where
  "book_many = book_demo\<lparr> in_adults := Some 60 \<rparr>"

text \<open>The state after the cancellation of one adult ticket.\<close>

definition booking_partial :: booking where
  "booking_partial =
    booking_demo\<lparr> pricing := (pricing booking_demo)\<lparr>adults_tickets := 1\<rparr>,
                   num_tickets := 4, total_price := 1980 \<rparr>"

definition s_partial :: system where
  "s_partial = \<lparr> trains_db = [''Mumbai::Delhi'' \<mapsto> [train_demo\<lparr>seats := 46\<rparr>]],
                 bookings = [booking_partial] \<rparr>"

text \<open>
  The state \<open>s_booked\<close> after the train database was generated anew: the route is still
  there, but its train has another id.
\<close>

definition s_regenerated :: system where
  "s_regenerated =
    \<lparr> trains_db = [''Mumbai::Delhi'' \<mapsto> [train_demo\<lparr>id_train := ''MUDE777'', seats := 45\<rparr>]],
      bookings = [booking_demo] \<rparr>"

text \<open>
  A bucket in which two trains carry the same id, as \<^verbatim>\<open>_create_train_database\<close> can
  produce (the id ends in a random number between 100 and 999).
\<close>

definition twins :: "train list" where
  "twins = [train_demo, train_demo\<lparr>name_train := ''Duronto Special'', seats := 20\<rparr>]"

text \<open>
  A database whose only bucket is \<open>twins\<close>, and the request \<open>book_demo\<close> with train
  number 2: five tickets on the second of the two trains.
\<close>

definition s_twins :: system where
  "s_twins = \<lparr> trains_db = [''Mumbai::Delhi'' \<mapsto> twins], bookings = [] \<rparr>"

definition book_second :: book_request where
  "book_second = book_demo\<lparr> in_choice := Number 2 \<rparr>"

subsection \<open>The order of the two steps of an operation\<close>

text \<open>
  An operation works on the ledger first when the first state of its list differs from the
  start in the ledger only and the later states keep that ledger; it works on the inventory
  first when the first state differs from the start in the train database only.
\<close>

definition ledger_first :: "system \<Rightarrow> system list \<Rightarrow> bool" where
  "ledger_first s steps =
    (case steps of
       [] \<Rightarrow> False
     | s1 # rest \<Rightarrow> bookings s1 \<noteq> bookings s \<and> trains_db s1 = trains_db s \<and>
                   list_all (\<lambda>s2. bookings s2 = bookings s1) rest)"

definition inventory_first :: "system \<Rightarrow> system list \<Rightarrow> bool" where
  "inventory_first s steps =
    (case steps of
       [] \<Rightarrow> False
     | s1 # rest \<Rightarrow> trains_db s1 \<noteq> trains_db s \<and> bookings s1 = bookings s)"

subsection \<open>Floating-point numbers\<close>

text \<open>
  A Python \<^verbatim>\<open>float\<close> is an IEEE 754 binary64 number. A finite one is modelled by the
  rational number it denotes; the two zeros are one value, which no computation of the program
  tells apart.
\<close>

datatype double = Finite rat | PInf | NInf | NaN

text \<open>The nearest integer, the even one of the two when both are equally near.\<close>

definition round_even :: "rat \<Rightarrow> int" where
  "round_even q =
    (let f = \<lfloor>q\<rfloor>; r = q - of_int f
     in if r < 1 / 2 then f
        else if 1 / 2 < r then f + 1
        else if even f then f else f + 1)"

text \<open>
  For a positive rational \<open>x\<close>, the exponent \<open>e\<close> with \<open>2 ^ e \<le> x < 2 ^ (e + 1)\<close>, from the
  bit lengths of numerator and denominator.
\<close>

definition ilog2 :: "rat \<Rightarrow> int" where
  "ilog2 x =
    (let (a, b) = quotient_of x; k = bitlen a - bitlen b
     in if 2 powi k \<le> x then k else k - 1)"

text \<open>
  The double that an arithmetic operation or a literal with the exact value \<open>x\<close> yields:
  \<open>x\<close> rounded to the nearest multiple of the unit in the last place of its binade, ties to
  the even multiple. A double has 53 significant bits, so that unit is \<open>2 ^ (e - 52)\<close>; below
  \<open>2 ^ - 1022\<close> the numbers are subnormal and the unit stays \<open>2 ^ - 1074\<close>; a result that
  rounds to \<open>2 ^ 1024\<close> or more is an infinity.
\<close>

definition round_double :: "rat \<Rightarrow> double" where
  "round_double x =
    (if x = 0 then Finite 0
     else
       (let e = max (ilog2 \<bar>x\<bar>) (- 1022);
            ulp = 2 powi (e - 52);
            y = of_int (round_even (x / ulp)) * ulp
        in if 2 powi 1024 \<le> \<bar>y\<bar> then (if 0 < x then PInf else NInf) else Finite y))"

text \<open>
  Addition, subtraction and multiplication of doubles: the exact result, rounded. Python does
  not raise on these operations; an overflow gives an infinity, and \<open>inf - inf\<close> and
  \<open>0 * inf\<close> give \<^verbatim>\<open>nan\<close>.
\<close>

fun fadd :: "double \<Rightarrow> double \<Rightarrow> double" where
  "fadd (Finite x) (Finite y) = round_double (x + y)"
| "fadd NaN b = NaN"
| "fadd a NaN = NaN"
| "fadd PInf NInf = NaN"
| "fadd NInf PInf = NaN"
| "fadd PInf b = PInf"
| "fadd NInf b = NInf"
| "fadd a PInf = PInf"
| "fadd a NInf = NInf"

fun fsub :: "double \<Rightarrow> double \<Rightarrow> double" where
  "fsub (Finite x) (Finite y) = round_double (x - y)"
| "fsub NaN b = NaN"
| "fsub a NaN = NaN"
| "fsub PInf PInf = NaN"
| "fsub NInf NInf = NaN"
| "fsub PInf b = PInf"
| "fsub NInf b = NInf"
| "fsub a PInf = NInf"
| "fsub a NInf = PInf"

fun sign_double :: "double \<Rightarrow> int" where
  "sign_double (Finite x) = (if x = 0 then 0 else if 0 < x then 1 else - 1)"
| "sign_double PInf = 1"
| "sign_double NInf = - 1"
| "sign_double NaN = 0"

fun fmul :: "double \<Rightarrow> double \<Rightarrow> double" where
  "fmul (Finite x) (Finite y) = round_double (x * y)"
| "fmul NaN b = NaN"
| "fmul a NaN = NaN"
| "fmul a b =
    (if sign_double a * sign_double b = 0 then NaN
     else if 0 < sign_double a * sign_double b then PInf else NInf)"

text \<open>
  A Python number is an \<^verbatim>\<open>int\<close> or a \<^verbatim>\<open>float\<close>. An operation on two ints is exact. In
  every other case an int operand is converted to a float first, with the same rounding, and
  the conversion of an int that is too large raises \<^verbatim>\<open>OverflowError\<close>, which nothing in
  the program catches: that is the result \<open>None\<close>.
\<close>

datatype pynum = PyInt int | PyFloat double

definition float_of_int :: "int \<Rightarrow> double option" where
  "float_of_int n = (case round_double (of_int n) of Finite y \<Rightarrow> Some (Finite y) | _ \<Rightarrow> None)"

fun to_float :: "pynum \<Rightarrow> double option" where
  "to_float (PyInt n) = float_of_int n"
| "to_float (PyFloat d) = Some d"

definition py_arith ::
  "(int \<Rightarrow> int \<Rightarrow> int) \<Rightarrow> (double \<Rightarrow> double \<Rightarrow> double) \<Rightarrow> pynum \<Rightarrow> pynum \<Rightarrow> pynum option" where
  "py_arith int_op float_op a b =
    (case (a, b) of
       (PyInt m, PyInt n) \<Rightarrow> Some (PyInt (int_op m n))
     | _ \<Rightarrow> do { x \<leftarrow> to_float a; y \<leftarrow> to_float b; Some (PyFloat (float_op x y)) })"

definition py_add :: "pynum \<Rightarrow> pynum \<Rightarrow> pynum option" where
  "py_add = py_arith (+) fadd"

definition py_sub :: "pynum \<Rightarrow> pynum \<Rightarrow> pynum option" where
  "py_sub = py_arith (-) fsub"

definition py_mul :: "pynum \<Rightarrow> pynum \<Rightarrow> pynum option" where
  "py_mul = py_arith (*) fmul"

text \<open>A float literal of the source is the double nearest to its decimal value.\<close>

definition literal :: "rat \<Rightarrow> pynum" where
  "literal x = PyFloat (round_double x)"

subsection \<open>The fare calculator in floating point\<close>

text \<open>
  The dictionary \<^verbatim>\<open>DISCOUNT_RATES\<close> with its four literals \<^verbatim>\<open>0.50\<close>, \<^verbatim>\<open>1.00\<close>,
  \<^verbatim>\<open>0.30\<close> and \<^verbatim>\<open>0.10\<close> as doubles.
\<close>

fun DISCOUNT_RATES_ieee :: "rate_key \<Rightarrow> pynum" where
  "DISCOUNT_RATES_ieee CHILD = literal (50 / 100)"
| "DISCOUNT_RATES_ieee INFANT = literal (100 / 100)"
| "DISCOUNT_RATES_ieee SENIOR_CITIZEN = literal (30 / 100)"
| "DISCOUNT_RATES_ieee OFF_PEAK_SEASON = literal (10 / 100)"

record savings_ieee =
  infant_savings_ieee :: pynum
  child_savings_ieee :: pynum
  senior_savings_ieee :: pynum
  season_savings_ieee :: pynum

record pricing_ieee =
  final_price_ieee :: pynum
  base_price_per_ticket_ieee :: pynum
  adults_tickets_ieee :: int
  infant_tickets_ieee :: int
  children_tickets_ieee :: int
  seniors_tickets_ieee :: int
  subtotal_ieee :: pynum
  total_discount_ieee :: pynum
  breakdown_ieee :: savings_ieee

text \<open>
  \<^verbatim>\<open>_calculate_discounted_price\<close> (lines 223 to 268) with the arithmetic of Python: the
  base price is an int or a float, the counts are ints, every operation is done in the order
  in which the source writes it (\<^verbatim>\<open>a * b * c\<close> is \<^verbatim>\<open>(a * b) * c\<close>, and
  \<^verbatim>\<open>a + b + c + d\<close> is \<^verbatim>\<open>((a + b) + c) + d\<close>). The result is \<open>None\<close> when
  \<^verbatim>\<open>OverflowError\<close> is raised.
\<close>

definition calculate_discounted_price_ieee ::
  "(string \<Rightarrow> date option) \<Rightarrow> pynum \<Rightarrow> string \<Rightarrow> int \<Rightarrow> int \<Rightarrow> int \<Rightarrow> int
     \<Rightarrow> pricing_ieee option" where
  "calculate_discounted_price_ieee strptime base_price travel_date_str
       num_adults num_infants num_children num_seniors =
    do {
      price_adults \<leftarrow> py_mul base_price (PyInt num_adults);
      let infant_discount_rate = DISCOUNT_RATES_ieee INFANT;
      price_infants \<leftarrow> do {
        x \<leftarrow> py_mul base_price (PyInt num_infants);
        y \<leftarrow> py_sub (PyInt 1) infant_discount_rate;
        py_mul x y };
      infant_savings' \<leftarrow> do {
        x \<leftarrow> py_mul base_price (PyInt num_infants);
        py_mul x infant_discount_rate };
      let child_discount_rate = DISCOUNT_RATES_ieee CHILD;
      price_children \<leftarrow> do {
        x \<leftarrow> py_mul base_price (PyInt num_children);
        y \<leftarrow> py_sub (PyInt 1) child_discount_rate;
        py_mul x y };
      child_savings' \<leftarrow> do {
        x \<leftarrow> py_mul base_price (PyInt num_children);
        py_mul x child_discount_rate };
      let senior_discount_rate = DISCOUNT_RATES_ieee SENIOR_CITIZEN;
      price_seniors \<leftarrow> do {
        x \<leftarrow> py_mul base_price (PyInt num_seniors);
        y \<leftarrow> py_sub (PyInt 1) senior_discount_rate;
        py_mul x y };
      senior_savings' \<leftarrow> do {
        x \<leftarrow> py_mul base_price (PyInt num_seniors);
        py_mul x senior_discount_rate };
      subtotal' \<leftarrow> do {
        x \<leftarrow> py_add price_adults price_infants;
        y \<leftarrow> py_add x price_children;
        py_add y price_seniors };
      total_category_discount \<leftarrow> do {
        x \<leftarrow> py_add infant_savings' child_savings';
        py_add x senior_savings' };
      season_savings' \<leftarrow>
        (case strptime travel_date_str of
           None \<Rightarrow> Some (literal 0)
         | Some parsed_date \<Rightarrow>
             if month parsed_date \<in> {1, 2}
             then py_mul subtotal' (DISCOUNT_RATES_ieee OFF_PEAK_SEASON)
             else Some (literal 0));
      final_total_price \<leftarrow> py_sub subtotal' season_savings';
      total_discount' \<leftarrow> py_add total_category_discount season_savings';
      Some \<lparr> final_price_ieee = final_total_price,
             base_price_per_ticket_ieee = base_price,
             adults_tickets_ieee = num_adults,
             infant_tickets_ieee = num_infants,
             children_tickets_ieee = num_children,
             seniors_tickets_ieee = num_seniors,
             subtotal_ieee = subtotal',
             total_discount_ieee = total_discount',
             breakdown_ieee = \<lparr> infant_savings_ieee = infant_savings',
                                 child_savings_ieee = child_savings',
                                 senior_savings_ieee = senior_savings',
                                 season_savings_ieee = season_savings' \<rparr> \<rparr>
    }"

subsection \<open>The refund in floating point\<close>

text \<open>
  The numbers of a cancellation (lines 491 to 518 and 544 to 546) with the arithmetic of
  Python. \<^verbatim>\<open>p.get(key, 0)\<close> reads a count of the stored pricing dictionary and
  \<^verbatim>\<open>p['base_price_per_ticket']\<close> its base price.
\<close>

fun p_get_ieee :: "pricing_ieee \<Rightarrow> category \<Rightarrow> int" where
  "p_get_ieee p Adult = adults_tickets_ieee p"
| "p_get_ieee p Infant = infant_tickets_ieee p"
| "p_get_ieee p Child = children_tickets_ieee p"
| "p_get_ieee p Senior = seniors_tickets_ieee p"

text \<open>The \<^verbatim>\<open>if/elif\<close> chain of lines 509 to 516.\<close>

fun ticket_paid_price_ieee :: "category \<Rightarrow> pynum \<Rightarrow> pynum option" where
  "ticket_paid_price_ieee Adult base_price = py_mul base_price (literal 1)"
| "ticket_paid_price_ieee Infant base_price = Some (literal 0)"
| "ticket_paid_price_ieee Child base_price =
    do { y \<leftarrow> py_sub (literal 1) (DISCOUNT_RATES_ieee CHILD); py_mul base_price y }"
| "ticket_paid_price_ieee Senior base_price =
    do { y \<leftarrow> py_sub (literal 1) (DISCOUNT_RATES_ieee SENIOR_CITIZEN); py_mul base_price y }"

record tally_ieee =
  cancellations_ieee :: "(category \<times> int) list"
  total_cancelled_seats_ieee :: int
  total_refund_gross_ieee :: pynum

text \<open>
  How the loop over the categories ends: still at a prompt (no answer in range was typed),
  with \<^verbatim>\<open>OverflowError\<close>, or with its three accumulators.
\<close>

datatype asked = StillAsking | Overflow | Finished tally_ieee

text \<open>
  The loop of lines 496 to 525; \<open>answers key\<close> is the list of the integers typed at the
  prompt of a category, and the first one between \<open>0\<close> and \<open>remaining\<close> is taken.
\<close>

fun ask_cancellations_ieee ::
  "pricing_ieee \<Rightarrow> (category \<Rightarrow> int list) \<Rightarrow> category list \<Rightarrow> tally_ieee \<Rightarrow> asked" where
  "ask_cancellations_ieee p answers [] t = Finished t"
| "ask_cancellations_ieee p answers (key # keys) t =
    (let remaining = p_get_ieee p key in
     if remaining > 0 then
       (case find (\<lambda>cancel_count. 0 \<le> cancel_count \<and> cancel_count \<le> remaining) (answers key) of
          None \<Rightarrow> StillAsking
        | Some cancel_count \<Rightarrow>
            (case do { ticket_paid_price \<leftarrow>
                         ticket_paid_price_ieee key (base_price_per_ticket_ieee p);
                       x \<leftarrow> py_mul (PyInt cancel_count) ticket_paid_price;
                       py_add (total_refund_gross_ieee t) x } of
               None \<Rightarrow> Overflow
             | Some gross \<Rightarrow>
                 ask_cancellations_ieee p answers keys
                   \<lparr> cancellations_ieee = cancellations_ieee t @ [(key, cancel_count)],
                     total_cancelled_seats_ieee = total_cancelled_seats_ieee t + cancel_count,
                     total_refund_gross_ieee = gross \<rparr>))
     else
       ask_cancellations_ieee p answers keys
         (t\<lparr>cancellations_ieee := cancellations_ieee t @ [(key, 0)]\<rparr>))"

text \<open>
  The accumulators at the start of the loop (lines 483, 491 and 492), and the fee and the net
  refund of lines 544 to 546.
\<close>

definition tally_start :: tally_ieee where
  "tally_start = \<lparr> cancellations_ieee = [], total_cancelled_seats_ieee = 0,
                    total_refund_gross_ieee = literal 0 \<rparr>"

definition cancellation_fee_ieee :: "pynum \<Rightarrow> pynum option" where
  "cancellation_fee_ieee total_refund_gross' =
    (let cancellation_fee_rate = literal (10 / 100)
     in py_mul total_refund_gross' cancellation_fee_rate)"

definition net_refund_ieee :: "pynum \<Rightarrow> pynum option" where
  "net_refund_ieee total_refund_gross' =
    do { cancellation_fee' \<leftarrow> cancellation_fee_ieee total_refund_gross';
         py_sub total_refund_gross' cancellation_fee' }"

subsection \<open>Accuracy\<close>

text \<open>
  \<open>near k X y\<close>: the number \<open>y\<close> differs from the exact value \<open>X\<close>, which is not negative, by
  at most \<open>k\<close> times \<open>X * 2 ^ - 52\<close>. \<open>approx k X v\<close>: the Python number \<open>v\<close> is the int \<open>X\<close>
  or a finite float near \<open>X\<close>. \<open>ranged l h X\<close>: \<open>X\<close> is \<open>0\<close> or lies between \<open>2 ^ l\<close> and
  \<open>2 ^ h\<close>.
\<close>

definition near :: "nat \<Rightarrow> rat \<Rightarrow> rat \<Rightarrow> bool" where
  "near k X y = (0 \<le> X \<and> \<bar>y - X\<bar> \<le> of_nat k * X / 2 ^ 52)"

fun approx :: "nat \<Rightarrow> rat \<Rightarrow> pynum \<Rightarrow> bool" where
  "approx k X (PyInt n) = (X = of_int n \<and> 0 \<le> n)"
| "approx k X (PyFloat (Finite y)) = near k X y"
| "approx k X (PyFloat d) = False"

definition ranged :: "int \<Rightarrow> int \<Rightarrow> rat \<Rightarrow> bool" where
  "ranged l h X = (X = 0 \<or> (2 powi l \<le> X \<and> X \<le> 2 powi h))"
subsection \<open>Concrete inputs in floating point\<close>

text \<open>
  The stored pricing of two January bookings: one senior ticket at the base price 330, and two
  adults, one infant, one child and one senior at the base price 1000.
\<close>

definition pricing_senior_330 :: pricing_ieee where
  "pricing_senior_330 =
     \<lparr> final_price_ieee = PyFloat (Finite (1828707739317043 / 8796093022208)),
          base_price_per_ticket_ieee = PyInt 330,
          adults_tickets_ieee = 0, infant_tickets_ieee = 0,
          children_tickets_ieee = 0, seniors_tickets_ieee = 1,
          subtotal_ieee = PyFloat (Finite (8127589952520191 / 35184372088832)),
          total_discount_ieee = PyFloat (Finite (4296011832046387 / 35184372088832)),
          breakdown_ieee =
            \<lparr> infant_savings_ieee = PyFloat (Finite 0),
              child_savings_ieee = PyFloat (Finite 0),
              senior_savings_ieee = PyFloat (Finite 99),
              season_savings_ieee = PyFloat (Finite (6502071962016153 / 281474976710656)) \<rparr> \<rparr>"

definition pricing_demo_ieee :: pricing_ieee where
  "pricing_demo_ieee =
     \<lparr> final_price_ieee = PyFloat (Finite 2880),
          base_price_per_ticket_ieee = PyInt 1000,
          adults_tickets_ieee = 2, infant_tickets_ieee = 1,
          children_tickets_ieee = 1, seniors_tickets_ieee = 1,
          subtotal_ieee = PyFloat (Finite 3200),
          total_discount_ieee = PyFloat (Finite 2120),
          breakdown_ieee =
            \<lparr> infant_savings_ieee = PyFloat (Finite 1000),
              child_savings_ieee = PyFloat (Finite 500),
              senior_savings_ieee = PyFloat (Finite 300),
              season_savings_ieee = PyFloat (Finite 320) \<rparr> \<rparr>"

section \<open>Fare formula in exact arithmetic\<close>


text \<open>
  In exact arithmetic, for every base price and all ticket counts, with
  \<open>sub = p*adult + 0*infant + p*0.5*child + p*0.7*senior\<close>: the subtotal is \<open>sub\<close>; when
  the travel date is in January or February the season savings are \<open>sub * 0.10\<close> and the
  final price is \<open>sub\<close> minus these savings; in every other month the season savings are \<open>0\<close>
  and the final price is \<open>sub\<close>.
\<close>

lemma fare_formula_exact:
  assumes "strptime ds = Some d"
  shows "let pr = calculate_discounted_price strptime p ds a i c s;
             sub = p * of_int a + 0 * of_int i + p * (1 / 2) * of_int c + p * (7 / 10) * of_int s
         in subtotal pr = sub \<and>
            (month d \<in> {1, 2} \<longrightarrow>
               season_savings (breakdown pr) = sub * (1 / 10) \<and>
               final_price pr = sub - sub * (1 / 10)) \<and>
            (month d \<notin> {1, 2} \<longrightarrow>
               season_savings (breakdown pr) = 0 \<and> final_price pr = sub)"
  using assms by (simp add: calculate_discounted_price_def Let_def algebra_simps)

section \<open>Facts about the model\<close>

lemma final_cases: "final s steps = s \<or> final s steps \<in> set steps"
  by (cases steps rule: rev_cases) (simp_all add: final_def)

text \<open>
  The entries of \<open>user_positions\<close> are the positions of the user's bookings, in order.
\<close>

lemma user_bookings_positions:
  "map ((!) bs) (user_positions user bs) = filter (\<lambda>b. username b = user) bs"
proof -
  have "filter (\<lambda>b. username b = user) (map ((!) bs) [0..<length bs])
        = map ((!) bs) (filter ((\<lambda>b. username b = user) \<circ> (!) bs) [0..<length bs])"
    by (rule filter_map)
  then show ?thesis
    by (simp add: user_positions_def map_nth comp_def)
qed

lemma user_positions_bound: "i \<in> set (user_positions user bs) \<Longrightarrow> i < length bs"
  by (simp add: user_positions_def)

lemma user_positions_nth:
  assumes "k < length (filter (\<lambda>b. username b = user) bs)"
  shows "user_positions user bs ! k < length bs"
    and "bs ! (user_positions user bs ! k) = filter (\<lambda>b. username b = user) bs ! k"
proof -
  have len: "length (user_positions user bs) = length (filter (\<lambda>b. username b = user) bs)"
    using user_bookings_positions [of bs user] by (metis length_map)
  with assms have k: "k < length (user_positions user bs)" by simp
  then show "user_positions user bs ! k < length bs"
    using user_positions_bound nth_mem by blast
  show "bs ! (user_positions user bs ! k) = filter (\<lambda>b. username b = user) bs ! k"
    using k user_bookings_positions [of bs user] by (metis nth_map)
qed

text \<open>
  What a pass that reaches the confirmation step has established.
\<close>

lemma search_and_select_Inr:
  assumes "search_and_select strptime s req = Inr sel"
  shows "\<exists>results k a i c sn.
           trains_db s (sel_route_key sel) = Some results \<and>
           in_choice req = Number k \<and> sel_index sel = nat (k - 1) \<and>
           sel_index sel < length results \<and>
           sel_train sel = results ! sel_index sel \<and>
           sel_route_key sel = sel_from sel @ ''::'' @ sel_to sel \<and>
           in_adults req = Some a \<and> in_infants req = Some i \<and>
           in_children req = Some c \<and> in_seniors req = Some sn \<and>
           sel_num_tickets sel = a + i + c + sn \<and>
           1 \<le> sel_num_tickets sel \<and> sel_num_tickets sel \<le> seats (sel_train sel) \<and>
           sel_pricing sel = calculate_discounted_price strptime (price (sel_train sel))
                               (sel_date sel) a i c sn"
  using assms
  by (auto simp: search_and_select_def Let_def
      split: option.splits choice.splits if_splits)

lemma search_and_select_not_Confirmed: "search_and_select strptime s req \<noteq> Inl (BookingConfirmed b)"
  by (auto simp: search_and_select_def Let_def split: choice.splits option.splits)

lemma search_and_book_trains_Confirmed:
  assumes "search_and_book_trains strptime s req = (BookingConfirmed b, steps)"
  shows "\<exists>sel. search_and_select strptime s req = Inr sel \<and>
               confirm_and_create_booking s req sel = (BookingConfirmed b, steps)"
  using assms search_and_select_not_Confirmed [of strptime s req b]
  by (auto simp: search_and_book_trains_def split: sum.splits)

lemma confirm_steps:
  assumes "s' \<in> set (snd (confirm_and_create_booking s req sel))"
  shows "bookings s' = bookings s @ [booking_record req sel] \<and>
         (trains_db s' = trains_db s \<or>
          trains_db s' = reserve_seats (trains_db s) (sel_route_key sel) (sel_index sel)
                           (sel_num_tickets sel))"
  using assms by (auto simp: confirm_and_create_booking_def Let_def split: if_splits)

lemma book_steps:
  assumes "s' \<in> set (snd (search_and_book_trains strptime s req))"
  shows "\<exists>sel. search_and_select strptime s req = Inr sel \<and>
           bookings s' = bookings s @ [booking_record req sel] \<and>
           (trains_db s' = trains_db s \<or>
            trains_db s' = reserve_seats (trains_db s) (sel_route_key sel) (sel_index sel)
                             (sel_num_tickets sel))"
  using assms confirm_steps [of s' s req]
  by (auto simp: search_and_book_trains_def split: sum.splits)

text \<open>
  The category loop records one count per category, between \<open>0\<close> and what is left, and
  adds up the seats and the refund.
\<close>

lemma ask_cancellations_Some:
  "ask_cancellations p answers keys t = Some t' \<Longrightarrow>
     \<exists>cs. cancellations t' = cancellations t @ cs \<and> map fst cs = keys \<and>
          (\<forall>(k, c) \<in> set cs. 0 \<le> c \<and> (c \<noteq> 0 \<longrightarrow> c \<le> p_get p k)) \<and>
          total_cancelled_seats t' = total_cancelled_seats t + sum_list (map snd cs) \<and>
          total_refund_gross t' = total_refund_gross t +
            (\<Sum>(k, c) \<leftarrow> cs. of_int c * ticket_paid_price k (base_price_per_ticket p))"
proof (induction keys arbitrary: t)
  case Nil
  then show ?case by simp
next
  case (Cons key keys)
  show ?case
  proof (cases "p_get p key > 0")
    case True
    with Cons.prems obtain c where
      found: "find (\<lambda>c. 0 \<le> c \<and> c \<le> p_get p key) (answers key) = Some c" and
      rest: "ask_cancellations p answers keys
               \<lparr> cancellations = cancellations t @ [(key, c)],
                 total_cancelled_seats = total_cancelled_seats t + c,
                 total_refund_gross = total_refund_gross t
                   + of_int c * ticket_paid_price key (base_price_per_ticket p) \<rparr> = Some t'"
      by (auto simp: Let_def split: option.splits)
    from found have range: "0 \<le> c \<and> c \<le> p_get p key"
      by (auto simp: find_Some_iff)
    from Cons.IH [OF rest] obtain cs where
      cs: "cancellations t' = (cancellations t @ [(key, c)]) @ cs" "map fst cs = keys"
        "\<forall>(k, c) \<in> set cs. 0 \<le> c \<and> (c \<noteq> 0 \<longrightarrow> c \<le> p_get p k)"
        "total_cancelled_seats t' = (total_cancelled_seats t + c) + sum_list (map snd cs)"
        "total_refund_gross t' = (total_refund_gross t
             + of_int c * ticket_paid_price key (base_price_per_ticket p)) +
            (\<Sum>(k, c) \<leftarrow> cs. of_int c * ticket_paid_price k (base_price_per_ticket p))"
      by auto
    show ?thesis
      by (rule exI [of _ "(key, c) # cs"]) (use cs range in auto)
  next
    case False
    with Cons.prems have
      rest: "ask_cancellations p answers keys
               (t\<lparr>cancellations := cancellations t @ [(key, 0)]\<rparr>) = Some t'"
      by (simp add: Let_def)
    from Cons.IH [OF rest] obtain cs where
      cs: "cancellations t' = (cancellations t @ [(key, 0)]) @ cs" "map fst cs = keys"
        "\<forall>(k, c) \<in> set cs. 0 \<le> c \<and> (c \<noteq> 0 \<longrightarrow> c \<le> p_get p k)"
        "total_cancelled_seats t' = total_cancelled_seats t + sum_list (map snd cs)"
        "total_refund_gross t' = total_refund_gross t +
            (\<Sum>(k, c) \<leftarrow> cs. of_int c * ticket_paid_price k (base_price_per_ticket p))"
      by auto
    show ?thesis
      by (rule exI [of _ "(key, 0) # cs"]) (use cs in auto)
  qed
qed

lemma ask_cancellations_categories:
  assumes "ask_cancellations p answers categories
             \<lparr> cancellations = [], total_cancelled_seats = 0, total_refund_gross = 0 \<rparr> = Some t"
  shows "\<exists>ca ci cc cs.
           cancellations t = [(Adult, ca), (Infant, ci), (Child, cc), (Senior, cs)] \<and>
           0 \<le> ca \<and> 0 \<le> ci \<and> 0 \<le> cc \<and> 0 \<le> cs \<and>
           total_cancelled_seats t = ca + ci + cc + cs \<and>
           total_refund_gross t =
             of_int ca * ticket_paid_price Adult (base_price_per_ticket p)
             + of_int ci * ticket_paid_price Infant (base_price_per_ticket p)
             + of_int cc * ticket_paid_price Child (base_price_per_ticket p)
             + of_int cs * ticket_paid_price Senior (base_price_per_ticket p)"
proof -
  from ask_cancellations_Some [OF assms] obtain xs where
    xs: "cancellations t = xs" "map fst xs = categories"
      "\<forall>(k, c) \<in> set xs. 0 \<le> c \<and> (c \<noteq> 0 \<longrightarrow> c \<le> p_get p k)"
      "total_cancelled_seats t = sum_list (map snd xs)"
      "total_refund_gross t =
         (\<Sum>(k, c) \<leftarrow> xs. of_int c * ticket_paid_price k (base_price_per_ticket p))"
    by auto
  from xs(2) obtain ca ci cc cs where
    shape: "xs = [(Adult, ca), (Infant, ci), (Child, cc), (Senior, cs)]"
    by (auto simp: categories_def map_eq_Cons_conv)
  with xs show ?thesis by auto
qed

lemma fold_p_decrease:
  "fold p_decrease [(Adult, ca), (Infant, ci), (Child, cc), (Senior, cs)] p =
     p\<lparr> adults_tickets := adults_tickets p - ca,
        infant_tickets := infant_tickets p - ci,
        children_tickets := children_tickets p - cc,
        seniors_tickets := seniors_tickets p - cs \<rparr>"
  by simp

lemma cancel_select_Inr:
  assumes "cancel_select s req = Inr sel"
  shows "position sel < length (bookings s) \<and>
         bookings s ! position sel = booking_to_modify sel \<and>
         username (booking_to_modify sel) = by_user req \<and>
         num_tickets (booking_to_modify sel) \<noteq> 0 \<and>
         total_cancelled_seats (chosen sel) \<noteq> 0 \<and>
         ask_cancellations (pricing (booking_to_modify sel)) (cancel_answers req) categories
           \<lparr> cancellations = [], total_cancelled_seats = 0, total_refund_gross = 0 \<rparr>
           = Some (chosen sel)"
proof -
  let ?ub = "filter (\<lambda>b. username b = by_user req) (bookings s)"
  from assms obtain n where
    n: "booking_choice req = Number n" "0 \<le> n - 1" "n - 1 < int (length ?ub)"
    by (auto simp: cancel_select_def Let_def split: choice.splits if_splits option.splits)
  then have k: "nat (n - 1) < length ?ub" by simp
  from assms n have sel:
    "booking_to_modify sel = ?ub ! nat (n - 1)"
    "position sel = user_positions (by_user req) (bookings s) ! nat (n - 1)"
    "num_tickets (booking_to_modify sel) \<noteq> 0"
    "total_cancelled_seats (chosen sel) \<noteq> 0"
    "ask_cancellations (pricing (booking_to_modify sel)) (cancel_answers req) categories
       \<lparr> cancellations = [], total_cancelled_seats = 0, total_refund_gross = 0 \<rparr>
       = Some (chosen sel)"
    by (auto simp: cancel_select_def Let_def split: choice.splits if_splits option.splits)
  have "?ub ! nat (n - 1) \<in> set ?ub" using k by (rule nth_mem)
  then have "username (?ub ! nat (n - 1)) = by_user req" by simp
  with sel user_positions_nth [OF k] show ?thesis by simp
qed

lemma cancel_select_not_Processed: "cancel_select s req \<noteq> Inl (Processed r)"
  by (auto simp: cancel_select_def Let_def split: choice.splits option.splits)

lemma cancel_booking_Processed:
  assumes "cancel_booking s req = (Processed r, steps)"
  shows "\<exists>sel. cancel_select s req = Inr sel \<and> cancel_commit s sel = (Processed r, steps)"
  using assms cancel_select_not_Processed [of s req r]
  by (auto simp: cancel_booking_def split: sum.splits)

lemma cancel_commit_report:
  assumes "cancel_commit s sel = (outcome, steps)"
  shows "\<exists>r. outcome = Processed r \<and>
           target r = booking_to_modify sel \<and>
           target_position r = position sel \<and>
           cancelled r = chosen sel \<and>
           cancellation_fee r = total_refund_gross (chosen sel) * (1 / 10) \<and>
           net_refund r = total_refund_gross (chosen sel)
                          - total_refund_gross (chosen sel) * (1 / 10) \<and>
           status r = (if num_tickets (booking_to_modify sel)
                            - total_cancelled_seats (chosen sel) = 0
                       then FullyCancelled else PartiallyCancelled)"
  using assms
  by (auto simp: cancel_commit_def Let_def split: sum.splits)

lemma cancel_commit_steps:
  assumes "s' \<in> set (snd (cancel_commit s sel))"
  shows "(bookings s' = remove1 (booking_to_modify sel) (bookings s) \<or>
          bookings s' = (bookings s)[position sel :=
            (booking_to_modify sel)\<lparr>
               pricing := fold p_decrease (cancellations (chosen sel))
                            (pricing (booking_to_modify sel)),
               num_tickets := num_tickets (booking_to_modify sel)
                              - total_cancelled_seats (chosen sel),
               total_price := total_price (booking_to_modify sel)
                 - (total_refund_gross (chosen sel)
                    - total_refund_gross (chosen sel) * (1 / 10)) \<rparr>]) \<and>
         (trains_db s' = trains_db s \<or>
          restore_seats (trains_db s)
            (from_route (route (booking_to_modify sel)) @ ''::''
               @ to_route (route (booking_to_modify sel)))
            (id_train (train_details (booking_to_modify sel)))
            (total_cancelled_seats (chosen sel)) = Inr (trains_db s'))"
  using assms
  by (auto simp: cancel_commit_def Let_def split: sum.splits if_splits)

lemma cancel_steps:
  assumes "s' \<in> set (snd (cancel_booking s req))"
  shows "\<exists>sel. cancel_select s req = Inr sel \<and> s' \<in> set (snd (cancel_commit s sel))"
  using assms by (auto simp: cancel_booking_def split: sum.splits)

text \<open>
  The states of a commit, in terms of what it reports.
\<close>

lemma cancel_commit_steps_report:
  assumes "cancel_commit s sel = (Processed r, steps)"
  shows "\<exists>s1. trains_db s1 = trains_db s \<and>
           bookings s1 =
             (if status r = FullyCancelled
              then remove1 (target r) (bookings s)
              else (bookings s)[target_position r :=
                (target r)\<lparr>
                   pricing := fold p_decrease (cancellations (cancelled r)) (pricing (target r)),
                   num_tickets := num_tickets (target r) - total_cancelled_seats (cancelled r),
                   total_price := total_price (target r) - net_refund r \<rparr>]) \<and>
           (case restore_seats (trains_db s)
                   (from_route (route (target r)) @ ''::'' @ to_route (route (target r)))
                   (id_train (train_details (target r)))
                   (total_cancelled_seats (cancelled r)) of
              Inl e \<Rightarrow> steps = [s1] \<and> restore_error r = Some e
            | Inr db \<Rightarrow> steps = [s1, s1\<lparr>trains_db := db\<rparr>] \<and> restore_error r = None)"
  using assms
  by (cases "restore_seats (trains_db s)
             (from_route (route (booking_to_modify sel)) @ ''::''
                @ to_route (route (booking_to_modify sel)))
             (id_train (train_details (booking_to_modify sel)))
             (total_cancelled_seats (chosen sel))";
      cases "num_tickets (booking_to_modify sel) - total_cancelled_seats (chosen sel) = 0")
     (auto simp: cancel_commit_def Let_def)

lemma cancel_final_bookings:
  assumes "cancel_commit s sel = (Processed r, steps)"
  shows "bookings (final s steps) =
           (if status r = FullyCancelled
            then remove1 (target r) (bookings s)
            else (bookings s)[target_position r :=
              (target r)\<lparr>
                 pricing := fold p_decrease (cancellations (cancelled r)) (pricing (target r)),
                 num_tickets := num_tickets (target r) - total_cancelled_seats (cancelled r),
                 total_price := total_price (target r) - net_refund r \<rparr>])"
  using cancel_commit_steps_report [OF assms]
  by (cases "restore_seats (trains_db s)
               (from_route (route (target r)) @ ''::'' @ to_route (route (target r)))
               (id_train (train_details (target r)))
               (total_cancelled_seats (cancelled r))")
     (auto simp: final_def)

lemma cancel_ledger_changes:
  assumes sel: "cancel_select s req = Inr sel"
    and commit: "cancel_commit s sel = (Processed r, steps)"
  shows "(if status r = FullyCancelled
          then remove1 (target r) (bookings s)
          else (bookings s)[target_position r :=
            (target r)\<lparr>
               pricing := fold p_decrease (cancellations (cancelled r)) (pricing (target r)),
               num_tickets := num_tickets (target r) - total_cancelled_seats (cancelled r),
               total_price := total_price (target r) - net_refund r \<rparr>]) \<noteq> bookings s"
proof -
  from cancel_commit_report [OF commit] have r:
    "target r = booking_to_modify sel" "cancelled r = chosen sel"
    "target_position r = position sel"
    by auto
  from cancel_select_Inr [OF sel] r have
    pos: "target_position r < length (bookings s)" "bookings s ! target_position r = target r"
    and some: "total_cancelled_seats (cancelled r) \<noteq> 0"
    by simp_all
  show ?thesis
  proof (cases "status r = FullyCancelled")
    case True
    from pos have "target r \<in> set (bookings s)" by (metis nth_mem)
    then have "length (remove1 (target r) (bookings s)) < length (bookings s)"
      using length_pos_if_in_set [of "target r" "bookings s"] by (simp add: length_remove1)
    with True show ?thesis by auto
  next
    case False
    let ?b' = "(target r)\<lparr>
               pricing := fold p_decrease (cancellations (cancelled r)) (pricing (target r)),
               num_tickets := num_tickets (target r) - total_cancelled_seats (cancelled r),
               total_price := total_price (target r) - net_refund r \<rparr>"
    from some have "num_tickets ?b' \<noteq> num_tickets (target r)" by simp
    then have "?b' \<noteq> target r" by metis
    with pos have "(bookings s)[target_position r := ?b'] ! target_position r
                   \<noteq> bookings s ! target_position r"
      by simp
    then have "(bookings s)[target_position r := ?b'] \<noteq> bookings s" by metis
    with False show ?thesis by simp
  qed
qed

lemma set_view_my_bookings:
  "set (view_my_bookings s user) = {b \<in> set (bookings s). username b = user}"
  by (auto simp: view_my_bookings_def)

section \<open>Evaluation of the concrete inputs\<close>

lemmas demo_defs = s_demo_def book_demo_def booking_demo_def s_booked_def train_demo_def
  cancel_demo_def cancel_all_demo_def one_adult_def all_tickets_def strptime_demo_def

lemmas cancel_defs = cancel_booking_def cancel_select_def cancel_commit_def user_positions_def
  categories_def restore_seats_def Let_def

lemmas book_defs = search_and_book_trains_def search_and_select_def
  confirm_and_create_booking_def booking_record_def calculate_discounted_price_def
  reserve_seats_def truthy_def Let_def


lemma demo_book:
  "search_and_book_trains strptime_demo s_demo book_demo =
     (BookingConfirmed booking_demo, [s_demo\<lparr>bookings := [booking_demo]\<rparr>, s_booked])"
  by (simp add: book_defs demo_defs)

lemma demo_cancel_steps:
  "snd (cancel_booking s_booked cancel_demo) =
     [s_booked\<lparr>bookings := [booking_partial]\<rparr>, s_partial]"
  by (simp add: cancel_defs demo_defs booking_partial_def s_partial_def)

lemma demo_run:
  "run_states strptime_demo s_demo [Book book_demo, Cancel cancel_demo] =
     [s_demo\<lparr>bookings := [booking_demo]\<rparr>, s_booked,
      s_booked\<lparr>bookings := [booking_partial]\<rparr>, s_partial]"
proof -
  have book: "snd (search_and_book_trains strptime_demo s_demo book_demo) =
      [s_demo\<lparr>bookings := [booking_demo]\<rparr>, s_booked]"
    by (simp add: demo_book)
  have after: "final s_demo [s_demo\<lparr>bookings := [booking_demo]\<rparr>, s_booked] = s_booked"
    by (simp add: final_def)
  show ?thesis
    by (simp only: run_states.simps op_steps.simps book after demo_cancel_steps append.simps)
qed

lemma demo_run_final: "run strptime_demo s_demo [Book book_demo, Cancel cancel_demo] = s_partial"
  unfolding run_def demo_run by (simp add: final_def)

section \<open>Refund in exact arithmetic\<close>

text \<open>
  In exact arithmetic, for every committed cancellation, the gross refund is the sum over the
  four categories of the cancelled count times the per-ticket price of the category, computed
  from the stored \<open>base_price_per_ticket\<close> alone (adult: base, infant: 0, child: 0.5 * base,
  senior: 0.7 * base); no season discount enters. The fee is 10% of the gross refund and
  the net refund is \<open>gross * 0.90\<close>.
\<close>

lemma refund_exact:
  assumes "cancel_booking s req = (Processed r, steps)"
  shows "\<exists>ca ci cc cs.
           cancellations (cancelled r) = [(Adult, ca), (Infant, ci), (Child, cc), (Senior, cs)] \<and>
           total_refund_gross (cancelled r) =
               of_int ca * base_price_per_ticket (pricing (target r))
             + of_int ci * 0
             + of_int cc * ((1 / 2) * base_price_per_ticket (pricing (target r)))
             + of_int cs * ((7 / 10) * base_price_per_ticket (pricing (target r))) \<and>
           cancellation_fee r = total_refund_gross (cancelled r) * (1 / 10) \<and>
           net_refund r = total_refund_gross (cancelled r) * (9 / 10)"
proof -
  from cancel_booking_Processed [OF assms] obtain sel where
    sel: "cancel_select s req = Inr sel" and commit: "cancel_commit s sel = (Processed r, steps)"
    by blast
  from cancel_commit_report [OF commit] have r:
    "target r = booking_to_modify sel" "cancelled r = chosen sel"
    "cancellation_fee r = total_refund_gross (chosen sel) * (1 / 10)"
    "net_refund r = total_refund_gross (chosen sel) - total_refund_gross (chosen sel) * (1 / 10)"
    by auto
  from cancel_select_Inr [OF sel] have
    "ask_cancellations (pricing (target r)) (cancel_answers req) categories
       \<lparr> cancellations = [], total_cancelled_seats = 0, total_refund_gross = 0 \<rparr>
       = Some (cancelled r)"
    using r by simp
  from ask_cancellations_categories [OF this] obtain ca ci cc cs where
    "cancellations (cancelled r) = [(Adult, ca), (Infant, ci), (Child, cc), (Senior, cs)]"
    "total_refund_gross (cancelled r) =
       of_int ca * ticket_paid_price Adult (base_price_per_ticket (pricing (target r)))
       + of_int ci * ticket_paid_price Infant (base_price_per_ticket (pricing (target r)))
       + of_int cc * ticket_paid_price Child (base_price_per_ticket (pricing (target r)))
       + of_int cs * ticket_paid_price Senior (base_price_per_ticket (pricing (target r)))"
    by blast
  with r have
    "cancellations (cancelled r) = [(Adult, ca), (Infant, ci), (Child, cc), (Senior, cs)] \<and>
     total_refund_gross (cancelled r) =
         of_int ca * base_price_per_ticket (pricing (target r))
       + of_int ci * 0
       + of_int cc * ((1 / 2) * base_price_per_ticket (pricing (target r)))
       + of_int cs * ((7 / 10) * base_price_per_ticket (pricing (target r))) \<and>
     cancellation_fee r = total_refund_gross (cancelled r) * (1 / 10) \<and>
     net_refund r = total_refund_gross (cancelled r) * (9 / 10)"
    by (simp add: algebra_simps)
  then show ?thesis by blast
qed

section \<open>Invariants along a run\<close>

text \<open>
  A property that every step of every operation preserves holds in every state of a run.
\<close>

lemma run_states_invariant:
  assumes step: "\<And>s op s'. P s \<Longrightarrow> s' \<in> set (op_steps strptime s op) \<Longrightarrow> P s'"
    and init: "P s"
  shows "\<forall>s' \<in> set (run_states strptime s ops). P s'"
  using init
proof (induction ops arbitrary: s)
  case Nil
  then show ?case by simp
next
  case (Cons op ops)
  have here: "\<forall>s' \<in> set (op_steps strptime s op). P s'"
    using step Cons.prems by blast
  then have "P (final s (op_steps strptime s op))"
    using final_cases [of s "op_steps strptime s op"] Cons.prems by auto
  from Cons.IH [OF this] here show ?case by auto
qed

lemma run_invariant:
  assumes step: "\<And>s op s'. P s \<Longrightarrow> s' \<in> set (op_steps strptime s op) \<Longrightarrow> P s'"
    and init: "P s"
  shows "P (run strptime s ops)"
proof -
  have "\<forall>s' \<in> set (run_states strptime s ops). P s'"
    by (rule run_states_invariant) (use step init in blast)+
  with init final_cases [of s "run_states strptime s ops"] show ?thesis
    by (auto simp: run_def)
qed

lemma counts_sum_booking_record:
  assumes "search_and_select strptime s req = Inr sel"
  shows "counts_sum (booking_record req sel)"
  using search_and_select_Inr [OF assms]
  by (auto simp: counts_sum_def booking_record_def calculate_discounted_price_def Let_def)

lemma ledger_ok_step:
  assumes ok: "ledger_ok s" and step: "s' \<in> set (op_steps strptime s op)"
  shows "ledger_ok s'"
proof (cases op)
  case (Book req)
  with step have "s' \<in> set (snd (search_and_book_trains strptime s req))" by simp
  from book_steps [OF this] obtain sel where
    sel: "search_and_select strptime s req = Inr sel" and
    ledger: "bookings s' = bookings s @ [booking_record req sel]"
    by blast
  from counts_sum_booking_record [OF sel] ok ledger show ?thesis
    by (auto simp: ledger_ok_def)
next
  case (Cancel req)
  with step have "s' \<in> set (snd (cancel_booking s req))" by simp
  from cancel_steps [OF this] obtain sel where
    sel: "cancel_select s req = Inr sel" and s': "s' \<in> set (snd (cancel_commit s sel))"
    by blast
  let ?b = "booking_to_modify sel"
  let ?b' = "?b\<lparr> pricing := fold p_decrease (cancellations (chosen sel)) (pricing ?b),
                  num_tickets := num_tickets ?b - total_cancelled_seats (chosen sel),
                  total_price := total_price ?b
                    - (total_refund_gross (chosen sel)
                       - total_refund_gross (chosen sel) * (1 / 10)) \<rparr>"
  from cancel_select_Inr [OF sel] have
    pos: "position sel < length (bookings s)" "bookings s ! position sel = ?b" and
    asked: "ask_cancellations (pricing ?b) (cancel_answers req) categories
       \<lparr> cancellations = [], total_cancelled_seats = 0, total_refund_gross = 0 \<rparr>
       = Some (chosen sel)"
    by simp_all
  from pos have "?b \<in> set (bookings s)" by (metis nth_mem)
  with ok have b: "counts_sum ?b" by (simp add: ledger_ok_def)
  from ask_cancellations_categories [OF asked] obtain ca ci cc cs where
    "cancellations (chosen sel) = [(Adult, ca), (Infant, ci), (Child, cc), (Senior, cs)]"
    "total_cancelled_seats (chosen sel) = ca + ci + cc + cs"
    by blast
  with b have b': "counts_sum ?b'"
    by (simp add: counts_sum_def)
  from cancel_commit_steps [OF s'] have
    "bookings s' = remove1 ?b (bookings s) \<or> bookings s' = (bookings s)[position sel := ?b']"
    by blast
  then show ?thesis
  proof
    assume "bookings s' = remove1 ?b (bookings s)"
    with ok show ?thesis
      by (auto simp: ledger_ok_def dest: notin_set_remove1)
  next
    assume "bookings s' = (bookings s)[position sel := ?b']"
    then have "set (bookings s') \<subseteq> insert ?b' (set (bookings s))"
      by (simp add: set_update_subset_insert)
    with ok b' show ?thesis
      by (auto simp: ledger_ok_def)
  qed
qed

text \<open>
  Claim C3. When every booking of the ledger has a ticket total equal to the sum of its four
  category counts, the same holds after every sequence of create and cancel operations, in
  particular after each create and after each partial cancellation.
\<close>

theorem C3_ticket_total:
  assumes "ledger_ok s"
  shows "ledger_ok (run strptime s ops)"
  by (rule run_invariant [where P = ledger_ok]) (use assms ledger_ok_step in blast)+

theorem C3_ticket_total_witness:
  "ledger_ok s_demo \<and>
   bookings (run strptime_demo s_demo [Book book_demo, Cancel cancel_demo]) = [booking_partial] \<and>
   num_tickets booking_partial = 4 \<and>
   ledger_ok (run strptime_demo s_demo [Book book_demo, Cancel cancel_demo])"
proof -
  have start: "ledger_ok s_demo"
    by (simp add: ledger_ok_def s_demo_def)
  from C3_ticket_total [OF start, of strptime_demo "[Book book_demo, Cancel cancel_demo]"] start
  show ?thesis
    by (simp add: demo_run_final s_partial_def booking_partial_def)
qed

lemma reserve_seats_ok:
  assumes ok: "\<forall>rk ts. db rk = Some ts \<longrightarrow> (\<forall>t \<in> set ts. 0 \<le> seats t)"
    and bucket: "db route_key = Some results" "idx < length results"
    and enough: "n \<le> seats (results ! idx)"
    and after: "reserve_seats db route_key idx n rk = Some ts" "t \<in> set ts"
  shows "0 \<le> seats t"
proof (cases "rk = route_key")
  case True
  with after bucket have
    "t \<in> set (results[idx := (results ! idx)\<lparr>seats := seats (results ! idx) - n\<rparr>])"
    by (simp add: reserve_seats_def)
  then have "t = (results ! idx)\<lparr>seats := seats (results ! idx) - n\<rparr> \<or> t \<in> set results"
    using set_update_subset_insert by fastforce
  with ok bucket enough show ?thesis by auto
next
  case False
  with after bucket have "db rk = Some ts" by (simp add: reserve_seats_def)
  with ok after show ?thesis by blast
qed

lemma restore_first_mem:
  "t' \<in> set (restore_first train_id n ts) \<Longrightarrow>
     t' \<in> set ts \<or> (\<exists>t \<in> set ts. t' = t\<lparr>seats := seats t + n\<rparr>)"
  by (induction ts) (auto split: if_splits)

lemma restore_seats_ok:
  assumes ok: "\<forall>rk ts. db rk = Some ts \<longrightarrow> (\<forall>t \<in> set ts. 0 \<le> seats t)"
    and n: "0 \<le> n"
    and restored: "restore_seats db route_key train_id n = Inr db'"
    and after: "db' rk = Some ts" "t \<in> set ts"
  shows "0 \<le> seats t"
proof -
  from restored obtain trains where
    bucket: "db route_key = Some trains" and
    db': "db' = db(route_key \<mapsto> restore_first train_id n trains)"
    by (auto simp: restore_seats_def split: option.splits)
  show ?thesis
  proof (cases "rk = route_key")
    case True
    with after db' have "t \<in> set (restore_first train_id n trains)" by simp
    from restore_first_mem [OF this] ok bucket n show ?thesis by auto
  next
    case False
    with after db' have "db rk = Some ts" by simp
    with ok after show ?thesis by blast
  qed
qed

lemma seats_ok_step:
  assumes ok: "seats_ok s" and step: "s' \<in> set (op_steps strptime s op)"
  shows "seats_ok s'"
proof (cases op)
  case (Book req)
  with step have "s' \<in> set (snd (search_and_book_trains strptime s req))" by simp
  from book_steps [OF this] obtain sel where
    sel: "search_and_select strptime s req = Inr sel" and
    db: "trains_db s' = trains_db s \<or>
         trains_db s' = reserve_seats (trains_db s) (sel_route_key sel) (sel_index sel)
                          (sel_num_tickets sel)"
    by blast
  from search_and_select_Inr [OF sel] obtain results where
    bucket: "trains_db s (sel_route_key sel) = Some results" "sel_index sel < length results"
      "sel_num_tickets sel \<le> seats (results ! sel_index sel)"
    by auto
  from db show ?thesis
  proof
    assume "trains_db s' = trains_db s"
    with ok show ?thesis by (simp add: seats_ok_def)
  next
    assume "trains_db s' = reserve_seats (trains_db s) (sel_route_key sel) (sel_index sel)
                             (sel_num_tickets sel)"
    with ok bucket show ?thesis
      unfolding seats_ok_def
      using reserve_seats_ok [of "trains_db s" "sel_route_key sel" results "sel_index sel"
          "sel_num_tickets sel"]
      by metis
  qed
next
  case (Cancel req)
  with step have "s' \<in> set (snd (cancel_booking s req))" by simp
  from cancel_steps [OF this] obtain sel where
    sel: "cancel_select s req = Inr sel" and s': "s' \<in> set (snd (cancel_commit s sel))"
    by blast
  from cancel_select_Inr [OF sel] have
    "ask_cancellations (pricing (booking_to_modify sel)) (cancel_answers req) categories
       \<lparr> cancellations = [], total_cancelled_seats = 0, total_refund_gross = 0 \<rparr>
       = Some (chosen sel)"
    by simp
  from ask_cancellations_categories [OF this] have n: "0 \<le> total_cancelled_seats (chosen sel)"
    by auto
  from cancel_commit_steps [OF s'] have
    "trains_db s' = trains_db s \<or>
     restore_seats (trains_db s)
       (from_route (route (booking_to_modify sel)) @ ''::''
          @ to_route (route (booking_to_modify sel)))
       (id_train (train_details (booking_to_modify sel)))
       (total_cancelled_seats (chosen sel)) = Inr (trains_db s')"
    by blast
  then show ?thesis
  proof
    assume "trains_db s' = trains_db s"
    with ok show ?thesis by (simp add: seats_ok_def)
  next
    assume "restore_seats (trains_db s)
       (from_route (route (booking_to_modify sel)) @ ''::''
          @ to_route (route (booking_to_modify sel)))
       (id_train (train_details (booking_to_modify sel)))
       (total_cancelled_seats (chosen sel)) = Inr (trains_db s')"
    with ok n show ?thesis
      unfolding seats_ok_def
      using restore_seats_ok [of "trains_db s" "total_cancelled_seats (chosen sel)" _ _
          "trains_db s'"]
      by metis
  qed
qed

text \<open>
  Claim C4. When no train has a negative seat count, no train has one after any sequence of
  bookings and cancellations, nor in any state that the memory passes through on the way.
\<close>

theorem C4_seats_never_negative:
  assumes "seats_ok s"
  shows "seats_ok (run strptime s ops) \<and> (\<forall>s' \<in> set (run_states strptime s ops). seats_ok s')"
proof
  show "seats_ok (run strptime s ops)"
    by (rule run_invariant [where P = seats_ok]) (use assms seats_ok_step in blast)+
  show "\<forall>s' \<in> set (run_states strptime s ops). seats_ok s'"
    by (rule run_states_invariant [where P = seats_ok]) (use assms seats_ok_step in blast)+
qed

theorem C4_seats_never_negative_witness:
  "seats_ok s_demo \<and>
   map (\<lambda>s. map_option (map seats) (trains_db s ''Mumbai::Delhi''))
     (run_states strptime_demo s_demo [Book book_demo, Cancel cancel_demo])
     = [Some [50], Some [45], Some [45], Some [46]] \<and>
   list_all seats_ok (run_states strptime_demo s_demo [Book book_demo, Cancel cancel_demo]) \<and>
   seats_ok (run strptime_demo s_demo [Book book_demo, Cancel cancel_demo])"
proof -
  have start: "seats_ok s_demo"
    by (auto simp: seats_ok_def s_demo_def train_demo_def split: if_splits)
  have seats: "map (\<lambda>s. map_option (map seats) (trains_db s ''Mumbai::Delhi''))
     (run_states strptime_demo s_demo [Book book_demo, Cancel cancel_demo])
     = [Some [50], Some [45], Some [45], Some [46]]"
    unfolding demo_run by (simp add: s_demo_def s_booked_def s_partial_def train_demo_def)
  from C4_seats_never_negative [OF start, of strptime_demo "[Book book_demo, Cancel cancel_demo]"]
    start seats
  show ?thesis
    by (simp add: list_all_iff)
qed

section \<open>Reserve and release\<close>

lemma restore_first_target:
  "release_target train_id ts = Some idx \<Longrightarrow>
     idx < length ts \<and> id_train (ts ! idx) = train_id \<and>
     restore_first train_id n ts = ts[idx := (ts ! idx)\<lparr>seats := seats (ts ! idx) + n\<rparr>]"
proof (induction ts arbitrary: idx)
  case Nil
  then show ?case by simp
next
  case (Cons t ts)
  show ?case
  proof (cases "id_train t = train_id")
    case True
    with Cons.prems show ?thesis by auto
  next
    case False
    with Cons.prems obtain j where j: "release_target train_id ts = Some j" "idx = Suc j"
      by auto
    from Cons.IH [OF j(1)] False j(2) show ?thesis by simp
  qed
qed

lemma restore_first_no_target:
  "release_target train_id ts = None \<Longrightarrow> restore_first train_id n ts = ts"
  by (induction ts) (auto split: if_splits)

lemma release_target_update:
  "release_target train_id (ts[idx := (ts ! idx)\<lparr>seats := v\<rparr>]) = release_target train_id ts"
proof (induction ts arbitrary: idx)
  case Nil
  then show ?case by simp
next
  case (Cons t ts)
  then show ?case by (cases idx) auto
qed

text \<open>
  In a bucket whose train ids are pairwise different every train is the first with its id.
\<close>

lemma unique_ids_release_target:
  assumes "distinct (map id_train ts)" and "idx < length ts"
  shows "release_target (id_train (ts ! idx)) ts = Some idx"
  using assms
proof (induction ts arbitrary: idx)
  case Nil
  then show ?case by simp
next
  case (Cons t ts)
  show ?case
  proof (cases idx)
    case 0
    then show ?thesis by simp
  next
    case (Suc j)
    with Cons.prems have j: "j < length ts" and d: "distinct (map id_train ts)"
      and fresh: "id_train t \<notin> id_train ` set ts"
      by simp_all
    from j have "ts ! j \<in> set ts" by (rule nth_mem)
    with fresh have "id_train t \<noteq> id_train (ts ! j)" by force
    with Cons.IH [OF d j] Suc show ?thesis by simp
  qed
qed

lemma reserve_then_restore:
  assumes bucket: "db route_key = Some results"
    and same: "release_target (id_train (results ! idx)) results = Some idx"
  shows "restore_seats (reserve_seats db route_key idx n) route_key
           (id_train (results ! idx)) n = Inr db"
proof -
  let ?t = "results ! idx"
  let ?reserved = "results[idx := ?t\<lparr>seats := seats ?t - n\<rparr>]"
  from restore_first_target [OF same] have idx: "idx < length results" by simp
  have target: "release_target (id_train ?t) ?reserved = Some idx"
    using same by (simp add: release_target_update)
  from restore_first_target [OF target, of n] idx
  have "restore_first (id_train ?t) n ?reserved = results"
    by (simp add: list_update_same_conv)
  with bucket idx show ?thesis
    by (simp add: restore_seats_def reserve_seats_def map_upd_triv)
qed

text \<open>
  Taking \<open>n\<close> seats from a train and then giving \<open>n\<close> seats back under that train's
  route key and id restores the database exactly when the train is the first of its bucket
  with its id, for every count; in a bucket whose ids are pairwise different this is every
  train.
\<close>

lemma reserve_release_unique_ids:
  assumes "db route_key = Some results" and "distinct (map id_train results)"
    and "idx < length results"
  shows "restore_seats (reserve_seats db route_key idx n) route_key
           (id_train (results ! idx)) n = Inr db"
  using assms(1) unique_ids_release_target [OF assms(2,3)] by (rule reserve_then_restore)

text \<open>
  When two trains of a bucket carry the same id, a booking on the second one takes its seats
  from the second and a cancellation gives them to the first.
\<close>

lemma release_hits_first_of_equal_ids:
  "restore_seats (reserve_seats [''Mumbai::Delhi'' \<mapsto> twins] ''Mumbai::Delhi'' 1 5)
     ''Mumbai::Delhi'' (id_train (twins ! 1)) 5
   = Inr [''Mumbai::Delhi'' \<mapsto>
           [train_demo\<lparr>seats := 55\<rparr>,
            train_demo\<lparr>name_train := ''Duronto Special'', seats := 15\<rparr>]]"
  by (simp add: restore_seats_def reserve_seats_def twins_def train_demo_def)

text \<open>
  The same round trip through the two methods: a confirmed booking, followed at once by a
  committed cancellation of that booking that gives back as many seats as the booking took,
  leaves the train database as it was before the booking, when the train is the first of its
  bucket with its id.
\<close>

lemma book_then_cancel_restores_inventory:
  assumes confirmed: "search_and_book_trains strptime s req = (BookingConfirmed b, steps)"
    and committed: "cancel_booking (final s steps) creq = (Processed r, csteps)"
    and same_booking: "target r = b"
    and same_count: "total_cancelled_seats (cancelled r) = num_tickets b"
    and bucket: "trains_db s (from_route (route b) @ ''::'' @ to_route (route b)) = Some results"
    and chosen: "in_choice req = Number k"
    and same_train: "release_target (id_train (train_details b)) results = Some (nat (k - 1))"
  shows "trains_db (final (final s steps) csteps) = trains_db s"
proof -
  from search_and_book_trains_Confirmed [OF confirmed] obtain sel where
    sel: "search_and_select strptime s req = Inr sel" and
    create: "confirm_and_create_booking s req sel = (BookingConfirmed b, steps)"
    by blast
  let ?s1 = "s\<lparr>bookings := bookings s @ [booking_record req sel]\<rparr>"
  let ?s2 = "?s1\<lparr>trains_db := reserve_seats (trains_db s) (sel_route_key sel) (sel_index sel)
                                (sel_num_tickets sel)\<rparr>"
  from create have shape: "b = booking_record req sel" "steps = [?s1, ?s2]"
    by (auto simp: confirm_and_create_booking_def Let_def split: if_splits)
  then have b: "from_route (route b) @ ''::'' @ to_route (route b)
                  = sel_from sel @ ''::'' @ sel_to sel"
    "train_details b = sel_train sel" "num_tickets b = sel_num_tickets sel"
    by (simp_all add: booking_record_def)
  from search_and_select_Inr [OF sel] chosen bucket b have
    key: "sel_route_key sel = from_route (route b) @ ''::'' @ to_route (route b)" and
    idx: "sel_index sel = nat (k - 1)" and
    train: "sel_train sel = results ! nat (k - 1)"
    by auto
  from shape have after: "trains_db (final s steps)
      = reserve_seats (trains_db s) (sel_route_key sel) (sel_index sel) (sel_num_tickets sel)"
    by (simp add: final_def)
  from bucket key have bucket': "trains_db s (sel_route_key sel) = Some results" by simp
  from same_train b train have
    same: "release_target (id_train (results ! nat (k - 1))) results = Some (nat (k - 1))"
    by simp
  have "restore_seats (trains_db (final s steps))
          (from_route (route (target r)) @ ''::'' @ to_route (route (target r)))
          (id_train (train_details (target r))) (total_cancelled_seats (cancelled r))
        = Inr (trains_db s)"
    using reserve_then_restore [of "trains_db s" "sel_route_key sel" results "nat (k - 1)"
        "sel_num_tickets sel", OF bucket' same]
      after idx key b train same_booking same_count
    by simp
  moreover
  from cancel_booking_Processed [OF committed] obtain csel where
    "cancel_commit (final s steps) csel = (Processed r, csteps)"
    by blast
  note cancel_commit_steps_report [OF this]
  ultimately show ?thesis
    by (auto simp: final_def)
qed

lemma demo_round_trip:
  "run strptime_demo s_demo [Book book_demo, Cancel cancel_all_demo] = s_demo"
proof -
  have book: "snd (search_and_book_trains strptime_demo s_demo book_demo) =
      [s_demo\<lparr>bookings := [booking_demo]\<rparr>, s_booked]"
    by (simp add: demo_book)
  have after: "final s_demo [s_demo\<lparr>bookings := [booking_demo]\<rparr>, s_booked] = s_booked"
    by (simp add: final_def)
  have cancel: "snd (cancel_booking s_booked cancel_all_demo) =
      [s_booked\<lparr>bookings := []\<rparr>, s_demo]"
    by (simp add: cancel_defs demo_defs)
  have "run_states strptime_demo s_demo [Book book_demo, Cancel cancel_all_demo] =
      [s_demo\<lparr>bookings := [booking_demo]\<rparr>, s_booked, s_booked\<lparr>bookings := []\<rparr>, s_demo]"
    by (simp only: run_states.simps op_steps.simps book after cancel append.simps)
  then show ?thesis
    by (simp add: run_def final_def)
qed

text \<open>
  The two operations on the bucket \<open>twins\<close>: the booking takes five seats from the second
  train, the cancellation of all five tickets gives five seats to the first.
\<close>

lemma twins_book:
  "snd (search_and_book_trains strptime_demo s_twins book_second) =
     [s_twins\<lparr>bookings := [booking_demo\<lparr>train_details := twins ! 1\<rparr>]\<rparr>,
      \<lparr> trains_db = [''Mumbai::Delhi'' \<mapsto> [twins ! 0, (twins ! 1)\<lparr>seats := 15\<rparr>]],
        bookings = [booking_demo\<lparr>train_details := twins ! 1\<rparr>] \<rparr>]"
  by (simp add: book_defs demo_defs s_twins_def book_second_def twins_def)

lemma twins_cancel:
  "snd (cancel_booking
      \<lparr> trains_db = [''Mumbai::Delhi'' \<mapsto> [twins ! 0, (twins ! 1)\<lparr>seats := 15\<rparr>]],
        bookings = [booking_demo\<lparr>train_details := twins ! 1\<rparr>] \<rparr> cancel_all_demo) =
     [\<lparr> trains_db = [''Mumbai::Delhi'' \<mapsto> [twins ! 0, (twins ! 1)\<lparr>seats := 15\<rparr>]],
        bookings = [] \<rparr>,
      \<lparr> trains_db = [''Mumbai::Delhi'' \<mapsto> [(twins ! 0)\<lparr>seats := 55\<rparr>, (twins ! 1)\<lparr>seats := 15\<rparr>]],
        bookings = [] \<rparr>]"
  by (simp add: cancel_defs demo_defs twins_def)

lemma twins_run:
  "run_states strptime_demo s_twins [Book book_second, Cancel cancel_all_demo] =
     [s_twins\<lparr>bookings := [booking_demo\<lparr>train_details := twins ! 1\<rparr>]\<rparr>,
      \<lparr> trains_db = [''Mumbai::Delhi'' \<mapsto> [twins ! 0, (twins ! 1)\<lparr>seats := 15\<rparr>]],
        bookings = [booking_demo\<lparr>train_details := twins ! 1\<rparr>] \<rparr>,
      \<lparr> trains_db = [''Mumbai::Delhi'' \<mapsto> [twins ! 0, (twins ! 1)\<lparr>seats := 15\<rparr>]],
        bookings = [] \<rparr>,
      \<lparr> trains_db = [''Mumbai::Delhi'' \<mapsto> [(twins ! 0)\<lparr>seats := 55\<rparr>, (twins ! 1)\<lparr>seats := 15\<rparr>]],
        bookings = [] \<rparr>]"
proof -
  have after: "final s_twins
     [s_twins\<lparr>bookings := [booking_demo\<lparr>train_details := twins ! 1\<rparr>]\<rparr>,
      \<lparr> trains_db = [''Mumbai::Delhi'' \<mapsto> [twins ! 0, (twins ! 1)\<lparr>seats := 15\<rparr>]],
        bookings = [booking_demo\<lparr>train_details := twins ! 1\<rparr>] \<rparr>]
    = \<lparr> trains_db = [''Mumbai::Delhi'' \<mapsto> [twins ! 0, (twins ! 1)\<lparr>seats := 15\<rparr>]],
        bookings = [booking_demo\<lparr>train_details := twins ! 1\<rparr>] \<rparr>"
    by (simp add: final_def)
  show ?thesis
    by (simp only: run_states.simps op_steps.simps twins_book after twins_cancel append.simps)
qed

lemma twins_book_run:
  "run strptime_demo s_twins [Book book_second] =
      \<lparr> trains_db = [''Mumbai::Delhi'' \<mapsto> [twins ! 0, (twins ! 1)\<lparr>seats := 15\<rparr>]],
        bookings = [booking_demo\<lparr>train_details := twins ! 1\<rparr>] \<rparr>"
proof -
  have "run_states strptime_demo s_twins [Book book_second] =
     [s_twins\<lparr>bookings := [booking_demo\<lparr>train_details := twins ! 1\<rparr>]\<rparr>,
      \<lparr> trains_db = [''Mumbai::Delhi'' \<mapsto> [twins ! 0, (twins ! 1)\<lparr>seats := 15\<rparr>]],
        bookings = [booking_demo\<lparr>train_details := twins ! 1\<rparr>] \<rparr>]"
    by (simp only: run_states.simps op_steps.simps twins_book append.simps)
  then show ?thesis unfolding run_def by (simp add: final_def)
qed

text \<open>
  Claim C5 says that a reserve followed at once by a release of the same count on the same
  train restores the seat count of that train, for every train. The release of lines 566 to
  569 looks the train up by its id and stops at the first match, and
  \<^verbatim>\<open>_create_train_database\<close> (line 76, ``Create a unique train ID'') draws the number in
  the id at random without checking that the id is new in the bucket. On a bucket with two
  trains of the same id the round trip fails for the second train: the seat counts are 50 and
  20 at the start, 50 and 15 after the booking of five tickets on the second train, and 55
  and 15 after the cancellation of all five tickets, where the claim requires 50 and 20.
\<close>

theorem C5_release_reaches_other_train:
  "map id_train (the (trains_db s_twins ''Mumbai::Delhi'')) = [''MUDE123'', ''MUDE123''] \<and>
   map seats (the (trains_db s_twins ''Mumbai::Delhi'')) = [50, 20] \<and>
   fst (search_and_book_trains strptime_demo s_twins book_second)
     = BookingConfirmed (booking_demo\<lparr>train_details := twins ! 1\<rparr>) \<and>
   num_tickets (booking_demo\<lparr>train_details := twins ! 1\<rparr>) = 5 \<and>
   map seats (the (trains_db (run strptime_demo s_twins [Book book_second]) ''Mumbai::Delhi''))
     = [50, 15] \<and>
   map seats (the (trains_db
       (run strptime_demo s_twins [Book book_second, Cancel cancel_all_demo]) ''Mumbai::Delhi''))
     = [55, 15] \<and>
   bookings (run strptime_demo s_twins [Book book_second, Cancel cancel_all_demo]) = []"
proof -
  have "fst (search_and_book_trains strptime_demo s_twins book_second)
     = BookingConfirmed (booking_demo\<lparr>train_details := twins ! 1\<rparr>)"
    by (simp add: book_defs demo_defs s_twins_def book_second_def twins_def)
  moreover have "map id_train (the (trains_db s_twins ''Mumbai::Delhi'')) = [''MUDE123'', ''MUDE123'']"
    "map seats (the (trains_db s_twins ''Mumbai::Delhi'')) = [50, 20]"
    "num_tickets (booking_demo\<lparr>train_details := twins ! 1\<rparr>) = 5"
    by (simp_all add: s_twins_def twins_def train_demo_def booking_demo_def)
  moreover have "map seats (the (trains_db (run strptime_demo s_twins [Book book_second]) ''Mumbai::Delhi''))
     = [50, 15]"
    unfolding twins_book_run by (simp add: twins_def train_demo_def)
  moreover have "map seats (the (trains_db
       (run strptime_demo s_twins [Book book_second, Cancel cancel_all_demo]) ''Mumbai::Delhi''))
     = [55, 15]"
    "bookings (run strptime_demo s_twins [Book book_second, Cancel cancel_all_demo]) = []"
    unfolding run_def twins_run by (simp_all add: final_def twins_def train_demo_def)
  ultimately show ?thesis by blast
qed

section \<open>Rejected requests\<close>

text \<open>
  Claim C6. A request that has reached the ticket check (two different stations, a date, a
  train of the route chosen by its number, four counts) on a train whose seat count is not
  negative: when the counts add up to 0 the pass ends with \<open>EmptyBooking\<close>; when they add
  up to more than the seats of the train it ends with \<open>InsufficientSeats\<close>. In both cases
  no state is passed through: the train database and the ledger stay as they were.
\<close>

theorem C6_rejected_requests:
  assumes stations: "truthy (in_from_stn req) = Some from_stn"
      "truthy (in_to_stn req) = Some to_stn" "from_stn \<noteq> to_stn"
    and date: "truthy (in_date_str req) = Some date_str"
    and bucket: "trains_db s (from_stn @ ''::'' @ to_stn) = Some results"
    and chosen: "in_choice req = Number k" "1 \<le> k" "k \<le> int (length results)"
    and counts: "in_adults req = Some a" "in_infants req = Some i"
      "in_children req = Some c" "in_seniors req = Some sn"
    and seats: "0 \<le> seats (results ! nat (k - 1))"
  shows "(a + i + c + sn = 0 \<longrightarrow>
            search_and_book_trains strptime s req = (EmptyBooking, []) \<and>
            final s (snd (search_and_book_trains strptime s req)) = s) \<and>
         (a + i + c + sn > seats (results ! nat (k - 1)) \<longrightarrow>
            search_and_book_trains strptime s req = (InsufficientSeats, []) \<and>
            final s (snd (search_and_book_trains strptime s req)) = s)"
proof -
  from chosen bucket have nonempty: "results \<noteq> []" by auto
  have select: "search_and_select strptime s req =
      (let n = a + i + c + sn in
       if n = 0 then Inl EmptyBooking
       else if \<not> (1 \<le> n \<and> n \<le> seats (results ! nat (k - 1))) then Inl InsufficientSeats
       else Inr \<lparr> sel_route_key = from_stn @ ''::'' @ to_stn, sel_index = nat (k - 1),
                  sel_train = results ! nat (k - 1), sel_from = from_stn, sel_to = to_stn,
                  sel_date = date_str, sel_num_tickets = n,
                  sel_pricing = calculate_discounted_price strptime
                    (price (results ! nat (k - 1))) date_str a i c sn \<rparr>)"
    using stations date bucket chosen counts nonempty
    by (simp add: search_and_select_def Let_def)
  show ?thesis
    using seats by (auto simp: search_and_book_trains_def select Let_def final_def)
qed

theorem C6_rejected_requests_witness:
  "search_and_book_trains strptime_demo s_demo book_none = (EmptyBooking, []) \<and>
   final s_demo (snd (search_and_book_trains strptime_demo s_demo book_none)) = s_demo \<and>
   search_and_book_trains strptime_demo s_demo book_many = (InsufficientSeats, []) \<and>
   final s_demo (snd (search_and_book_trains strptime_demo s_demo book_many)) = s_demo"
proof -
  have bucket: "trains_db s_demo (''Mumbai'' @ ''::'' @ ''Delhi'') = Some [train_demo]"
    by (simp add: s_demo_def)
  have seats: "0 \<le> seats ([train_demo] ! nat (1 - 1))"
    by (simp add: train_demo_def)
  have none: "truthy (in_from_stn book_none) = Some ''Mumbai''"
      "truthy (in_to_stn book_none) = Some ''Delhi''" "''Mumbai'' \<noteq> ''Delhi''"
      "truthy (in_date_str book_none) = Some ''2030-01-15''"
      "in_choice book_none = Number 1" "(1::int) \<le> 1" "1 \<le> int (length [train_demo])"
      "in_adults book_none = Some 0" "in_infants book_none = Some 0"
      "in_children book_none = Some 0" "in_seniors book_none = Some 0"
    by (simp_all add: book_none_def book_demo_def truthy_def)
  have many: "truthy (in_from_stn book_many) = Some ''Mumbai''"
      "truthy (in_to_stn book_many) = Some ''Delhi''"
      "truthy (in_date_str book_many) = Some ''2030-01-15''"
      "in_choice book_many = Number 1"
      "in_adults book_many = Some 60" "in_infants book_many = Some 1"
      "in_children book_many = Some 1" "in_seniors book_many = Some 1"
    by (simp_all add: book_many_def book_demo_def truthy_def)
  have zero: "(0::int) + 0 + 0 + 0 = 0"
    by simp
  have too_many: "(60::int) + 1 + 1 + 1 > seats ([train_demo] ! nat (1 - 1))"
    by (simp add: train_demo_def)
  from C6_rejected_requests [of book_none "''Mumbai''" "''Delhi''" "''2030-01-15''" s_demo
        "[train_demo]" 1 0 0 0 0 strptime_demo,
        OF none(1) none(2) none(3) none(4) bucket none(5) none(6) none(7)
           none(8) none(9) none(10) none(11) seats] zero
  have first: "search_and_book_trains strptime_demo s_demo book_none = (EmptyBooking, []) \<and>
        final s_demo (snd (search_and_book_trains strptime_demo s_demo book_none)) = s_demo"
    by blast
  from C6_rejected_requests [of book_many "''Mumbai''" "''Delhi''" "''2030-01-15''" s_demo
        "[train_demo]" 1 60 1 1 1 strptime_demo,
        OF many(1) many(2) none(3) many(3) bucket many(4) none(6) none(7)
           many(5) many(6) many(7) many(8) seats] too_many
  have second: "search_and_book_trains strptime_demo s_demo book_many = (InsufficientSeats, []) \<and>
        final s_demo (snd (search_and_book_trains strptime_demo s_demo book_many)) = s_demo"
    by blast
  from first second show ?thesis by blast
qed

section \<open>Full cancellation\<close>

lemma remove1_distinct_key:
  assumes "distinct (map f xs)" and "x \<in> set xs" and "y \<in> set (remove1 x xs)"
  shows "f y \<noteq> f x"
proof -
  from assms(1) have d: "distinct xs" and inj: "inj_on f (set xs)"
    by (simp_all add: distinct_map)
  from d assms(3) have "y \<in> set xs" "y \<noteq> x" by auto
  with inj assms(2) show ?thesis by (auto dest: inj_onD)
qed

lemma full_cancel_ledger:
  assumes committed: "cancel_booking s req = (Processed r, steps)"
    and everything: "sum_list (map snd (cancellations (cancelled r))) = num_tickets (target r)"
  shows "status r = FullyCancelled \<and>
         target r \<in> set (bookings s) \<and> username (target r) = by_user req \<and>
         bookings (final s steps) = remove1 (target r) (bookings s)"
proof -
  from cancel_booking_Processed [OF committed] obtain sel where
    sel: "cancel_select s req = Inr sel" and commit: "cancel_commit s sel = (Processed r, steps)"
    by blast
  from cancel_commit_report [OF commit] have r:
    "target r = booking_to_modify sel" "cancelled r = chosen sel"
    "status r = (if num_tickets (booking_to_modify sel)
                      - total_cancelled_seats (chosen sel) = 0
                 then FullyCancelled else PartiallyCancelled)"
    by auto
  from cancel_select_Inr [OF sel] have
    pos: "position sel < length (bookings s)" "bookings s ! position sel = target r"
      "username (target r) = by_user req" and
    asked: "ask_cancellations (pricing (target r)) (cancel_answers req) categories
       \<lparr> cancellations = [], total_cancelled_seats = 0, total_refund_gross = 0 \<rparr>
       = Some (cancelled r)"
    using r by simp_all
  from ask_cancellations_categories [OF asked] everything
  have total: "total_cancelled_seats (chosen sel) = num_tickets (booking_to_modify sel)"
    using r by auto
  from pos have mem: "target r \<in> set (bookings s)" by (metis nth_mem)
  from r total have full: "status r = FullyCancelled" by simp
  have ledger: "bookings (final s steps) = remove1 (target r) (bookings s)"
    using cancel_final_bookings [OF commit] full by simp
  from full mem pos ledger show ?thesis by simp
qed

text \<open>
  Claim C7. In a ledger without two identical records, a committed cancellation whose
  per-category counts add up to the ticket total of the booking is a full cancellation: the
  booking, which was in its owner's list, is removed from the ledger and is in nobody's list
  afterwards. \<open>view_my_bookings\<close> changes nothing, so this holds for every query made on
  the resulting state.
\<close>

theorem C7_full_cancel_removes:
  assumes unique: "distinct (bookings s)"
    and committed: "cancel_booking s req = (Processed r, steps)"
    and everything: "sum_list (map snd (cancellations (cancelled r))) = num_tickets (target r)"
  shows "status r = FullyCancelled \<and>
         target r \<in> set (view_my_bookings s (by_user req)) \<and>
         bookings (final s steps) = remove1 (target r) (bookings s) \<and>
         target r \<notin> set (bookings (final s steps)) \<and>
         (\<forall>user. target r \<notin> set (view_my_bookings (final s steps) user))"
  using full_cancel_ledger [OF committed everything] unique
  by (auto simp: set_view_my_bookings)

theorem C7_full_cancel_removes_witness:
  "distinct (bookings s_booked) \<and>
   view_my_bookings s_booked ''asha'' = [booking_demo] \<and>
   (\<exists>r steps. cancel_booking s_booked cancel_all_demo = (Processed r, steps) \<and>
      target r = booking_demo \<and> status r = FullyCancelled \<and>
      bookings (final s_booked steps) = [] \<and>
      view_my_bookings (final s_booked steps) ''asha'' = [])"
proof -
  have unique: "distinct (bookings s_booked)"
    by (simp add: s_booked_def)
  have before: "view_my_bookings s_booked ''asha'' = [booking_demo]"
    by (simp add: view_my_bookings_def s_booked_def booking_demo_def)
  obtain r steps where
    committed: "cancel_booking s_booked cancel_all_demo = (Processed r, steps)" and
    target: "target r = booking_demo" and
    everything: "sum_list (map snd (cancellations (cancelled r))) = num_tickets (target r)"
    by (simp add: cancel_defs demo_defs)
  from C7_full_cancel_removes [OF unique committed everything] target
  have "status r = FullyCancelled" "bookings (final s_booked steps) = []"
    by (simp_all add: s_booked_def)
  then have "view_my_bookings (final s_booked steps) ''asha'' = []"
    by (simp add: view_my_bookings_def)
  with unique before committed target \<open>status r = FullyCancelled\<close>
    \<open>bookings (final s_booked steps) = []\<close>
  show ?thesis by blast
qed

text \<open>
  In a ledger with two identical records a full cancellation removes one of them.
\<close>

lemma duplicate_record_survives:
  "\<exists>r steps. cancel_booking (s_booked\<lparr>bookings := [booking_demo, booking_demo]\<rparr>)
       cancel_all_demo = (Processed r, steps) \<and>
     status r = FullyCancelled \<and>
     bookings (final (s_booked\<lparr>bookings := [booking_demo, booking_demo]\<rparr>) steps)
       = [booking_demo]"
  by (simp add: cancel_defs demo_defs final_def)

text \<open>
  With booking ids that are unique in the ledger, no booking with the id of the cancelled one
  is left, and none comes back while later bookings get other ids.
\<close>

lemma cancelled_id_gone:
  assumes unique: "distinct (map booking_id (bookings s))"
    and committed: "cancel_booking s req = (Processed r, steps)"
    and everything: "sum_list (map snd (cancellations (cancelled r))) = num_tickets (target r)"
  shows "\<forall>b \<in> set (bookings (final s steps)). booking_id b \<noteq> booking_id (target r)"
proof (intro ballI notI)
  fix b
  assume b: "b \<in> set (bookings (final s steps))" "booking_id b = booking_id (target r)"
  from full_cancel_ledger [OF committed everything] have
    mem: "target r \<in> set (bookings s)" and
    ledger: "bookings (final s steps) = remove1 (target r) (bookings s)"
    by simp_all
  from b(1) ledger have "b \<in> set (remove1 (target r) (bookings s))" by simp
  from remove1_distinct_key [OF unique mem this] b(2) show False by simp
qed

lemma id_absent_step:
  assumes absent: "\<forall>b \<in> set (bookings s). booking_id b \<noteq> bid"
    and fresh: "\<forall>req. op = Book req \<longrightarrow> in_booking_id req \<noteq> bid"
    and step: "s' \<in> set (op_steps strptime s op)"
  shows "\<forall>b \<in> set (bookings s'). booking_id b \<noteq> bid"
proof (cases op)
  case (Book req)
  with step have "s' \<in> set (snd (search_and_book_trains strptime s req))" by simp
  from book_steps [OF this] obtain sel where
    "bookings s' = bookings s @ [booking_record req sel]"
    by blast
  with absent fresh Book show ?thesis
    by (auto simp: booking_record_def)
next
  case (Cancel req)
  with step have "s' \<in> set (snd (cancel_booking s req))" by simp
  from cancel_steps [OF this] obtain sel where
    sel: "cancel_select s req = Inr sel" and s': "s' \<in> set (snd (cancel_commit s sel))"
    by blast
  let ?b = "booking_to_modify sel"
  from cancel_select_Inr [OF sel] have "?b \<in> set (bookings s)" by (metis nth_mem)
  with absent have b: "booking_id ?b \<noteq> bid" by auto
  let ?b' = "?b\<lparr> pricing := fold p_decrease (cancellations (chosen sel)) (pricing ?b),
                  num_tickets := num_tickets ?b - total_cancelled_seats (chosen sel),
                  total_price := total_price ?b
                    - (total_refund_gross (chosen sel)
                       - total_refund_gross (chosen sel) * (1 / 10)) \<rparr>"
  from cancel_commit_steps [OF s'] have
    "bookings s' = remove1 ?b (bookings s) \<or> bookings s' = (bookings s)[position sel := ?b']"
    by blast
  then show ?thesis
  proof
    assume "bookings s' = remove1 ?b (bookings s)"
    with absent show ?thesis by (auto dest: notin_set_remove1)
  next
    assume "bookings s' = (bookings s)[position sel := ?b']"
    then have "set (bookings s') \<subseteq> insert ?b' (set (bookings s))"
      by (simp add: set_update_subset_insert)
    moreover have "booking_id ?b' = booking_id ?b" by simp
    ultimately show ?thesis using absent b by auto
  qed
qed

lemma cancelled_id_stays_gone:
  assumes unique: "distinct (map booking_id (bookings s))"
    and committed: "cancel_booking s req = (Processed r, steps)"
    and everything: "sum_list (map snd (cancellations (cancelled r))) = num_tickets (target r)"
    and fresh: "\<forall>req'. Book req' \<in> set ops \<longrightarrow> in_booking_id req' \<noteq> booking_id (target r)"
  shows "\<forall>b \<in> set (view_my_bookings (run strptime (final s steps) ops) user).
           booking_id b \<noteq> booking_id (target r)"
proof -
  have "\<forall>b \<in> set (bookings (run strptime s' ops)). booking_id b \<noteq> booking_id (target r)"
    if "\<forall>b \<in> set (bookings s'). booking_id b \<noteq> booking_id (target r)" for s'
    using that fresh
  proof (induction ops arbitrary: s')
    case Nil
    then show ?case by (simp add: run_def final_def)
  next
    case (Cons op ops)
    let ?mid = "final s' (op_steps strptime s' op)"
    have "\<forall>b \<in> set (bookings ?mid). booking_id b \<noteq> booking_id (target r)"
      using final_cases [of s' "op_steps strptime s' op"] Cons.prems
        id_absent_step [where bid = "booking_id (target r)" and s = s' and op = op
          and strptime = strptime]
      by (metis list.set_intros(1))
    from Cons.IH [OF this] Cons.prems(2)
    have "\<forall>b \<in> set (bookings (run strptime ?mid ops)).
            booking_id b \<noteq> booking_id (target r)"
      by simp
    moreover have "run strptime s' (op # ops) = run strptime ?mid ops"
      by (cases "run_states strptime ?mid ops = []") (simp_all add: run_def final_def)
    ultimately show ?case by simp
  qed
  from this [OF cancelled_id_gone [OF unique committed everything]] show ?thesis
    by (auto simp: set_view_my_bookings)
qed

section \<open>Seats that cannot be restored\<close>

text \<open>
  A booking whose route key is not in the database any more: the exception is caught and
  reported, the ledger side commits, the train database is not changed.
\<close>

lemma cancel_missing_route_warns:
  assumes committed: "cancel_booking s req = (Processed r, steps)"
    and missing: "trains_db s (from_route (route (target r)) @ ''::''
                     @ to_route (route (target r))) = None"
  shows "restore_error r = Some KeyError \<and> length steps = 1 \<and>
         trains_db (final s steps) = trains_db s \<and>
         bookings (final s steps) \<noteq> bookings s"
proof -
  from cancel_booking_Processed [OF committed] obtain sel where
    sel: "cancel_select s req = Inr sel" and commit: "cancel_commit s sel = (Processed r, steps)"
    by blast
  from missing have "restore_seats (trains_db s)
         (from_route (route (target r)) @ ''::'' @ to_route (route (target r)))
         (id_train (train_details (target r))) (total_cancelled_seats (cancelled r))
       = Inl KeyError"
    by (simp add: restore_seats_def)
  with cancel_commit_steps_report [OF commit] cancel_ledger_changes [OF sel commit]
  show ?thesis
    by (auto simp: final_def)
qed

text \<open>
  A booking whose train id is not in the bucket of its route any more: nothing is reported,
  the ledger side commits, the train database is not changed.
\<close>

lemma cancel_missing_train_silent:
  assumes committed: "cancel_booking s req = (Processed r, steps)"
    and bucket: "trains_db s (from_route (route (target r)) @ ''::''
                     @ to_route (route (target r))) = Some trains"
    and missing: "release_target (id_train (train_details (target r))) trains = None"
  shows "restore_error r = None \<and> trains_db (final s steps) = trains_db s \<and>
         bookings (final s steps) \<noteq> bookings s"
proof -
  from cancel_booking_Processed [OF committed] obtain sel where
    sel: "cancel_select s req = Inr sel" and commit: "cancel_commit s sel = (Processed r, steps)"
    by blast
  from bucket missing have "restore_seats (trains_db s)
         (from_route (route (target r)) @ ''::'' @ to_route (route (target r)))
         (id_train (train_details (target r))) (total_cancelled_seats (cancelled r))
       = Inr (trains_db s)"
    by (simp add: restore_seats_def restore_first_no_target map_upd_triv)
  with cancel_commit_steps_report [OF commit] cancel_ledger_changes [OF sel commit]
  show ?thesis
    by (auto simp: final_def)
qed

text \<open>
  Claim C8 says that a warning is surfaced whenever the route key or the train id of the
  booking is no longer in the inventory. For a missing route key this is what happens
  (\<open>cancel_missing_route_warns\<close>). For a train id that is missing from an existing bucket
  the loop of lines 566 to 569 ends without a match and without an exception: the ledger side
  commits and the inventory stays unrestored, but no warning is given
  (\<open>cancel_missing_train_silent\<close>). The evaluation below is such a cancellation: the
  booking is on train \<open>MUDE123\<close>, the bucket of its route only has \<open>MUDE777\<close>.
\<close>

theorem C8_missing_train_id_no_warning:
  "\<exists>r steps. cancel_booking s_regenerated cancel_demo = (Processed r, steps) \<and>
     trains_db s_regenerated (from_route (route (target r)) @ ''::'' @ to_route (route (target r)))
       = Some [train_demo\<lparr>id_train := ''MUDE777'', seats := 45\<rparr>] \<and>
     id_train (train_details (target r)) = ''MUDE123'' \<and>
     restore_error r = None \<and>
     bookings (final s_regenerated steps) = [booking_partial] \<and>
     trains_db (final s_regenerated steps) = trains_db s_regenerated"
proof -
  obtain r steps where
    committed: "cancel_booking s_regenerated cancel_demo = (Processed r, steps)" and
    target: "target r = booking_demo" and
    ledger: "bookings (final s_regenerated steps) = [booking_partial]"
    by (simp add: cancel_defs demo_defs s_regenerated_def booking_partial_def final_def)
  have bucket: "trains_db s_regenerated
                  (from_route (route (target r)) @ ''::'' @ to_route (route (target r)))
                = Some [train_demo\<lparr>id_train := ''MUDE777'', seats := 45\<rparr>]"
    by (simp add: target s_regenerated_def booking_demo_def)
  have missing: "release_target (id_train (train_details (target r)))
                   [train_demo\<lparr>id_train := ''MUDE777'', seats := 45\<rparr>] = None"
    by (simp add: target booking_demo_def train_demo_def)
  have "id_train (train_details (target r)) = ''MUDE123''"
    by (simp add: target booking_demo_def train_demo_def)
  with cancel_missing_train_silent [OF committed bucket missing] committed bucket ledger
  show ?thesis by blast
qed

section \<open>The order of ledger and inventory\<close>

text \<open>
  Claim C9 says that a successful create takes the seats before it appends the record. In the
  code the append of line 396 comes first and the seats are taken at line 400: after the first
  step of the confirmed booking below the record is in the ledger and the train still has all
  its seats.
\<close>

theorem C9_inventory_first_counterexample:
  "fst (search_and_book_trains strptime_demo s_demo book_demo) = BookingConfirmed booking_demo \<and>
   hd (snd (search_and_book_trains strptime_demo s_demo book_demo))
     = s_demo\<lparr>bookings := [booking_demo]\<rparr> \<and>
   \<not> inventory_first s_demo (snd (search_and_book_trains strptime_demo s_demo book_demo))"
  by (simp add: demo_book inventory_first_def)

lemma reserve_seats_changes:
  assumes "db route_key = Some results" "idx < length results" "n \<noteq> 0"
  shows "reserve_seats db route_key idx n \<noteq> db"
proof
  assume same: "reserve_seats db route_key idx n = db"
  let ?t = "results ! idx"
  from assms have "reserve_seats db route_key idx n route_key
      = Some (results[idx := ?t\<lparr>seats := seats ?t - n\<rparr>])"
    by (simp add: reserve_seats_def)
  with same assms(1) have "results[idx := ?t\<lparr>seats := seats ?t - n\<rparr>] = results"
    by simp
  then have "results[idx := ?t\<lparr>seats := seats ?t - n\<rparr>] ! idx = ?t"
    by simp
  with assms(2) have "seats (?t\<lparr>seats := seats ?t - n\<rparr>) = seats ?t"
    by simp
  with assms(3) show False by simp
qed

text \<open>
  The seats of a committed cancellation: the counts are not negative, so their total is at
  least the total at the start of the loop.
\<close>

lemma ask_cancellations_seats:
  assumes "ask_cancellations p answers keys t = Some t'"
  shows "total_cancelled_seats t \<le> total_cancelled_seats t'"
proof -
  from ask_cancellations_Some [OF assms] obtain cs where
    cs: "\<forall>(k, c) \<in> set cs. 0 \<le> c \<and> (c \<noteq> 0 \<longrightarrow> c \<le> p_get p k)"
        "total_cancelled_seats t' = total_cancelled_seats t + sum_list (map snd cs)"
    by blast
  from cs(1) have "\<forall>c \<in> set (map snd cs). 0 \<le> c" by auto
  then have "0 \<le> sum_list (map snd cs)" by (intro sum_list_nonneg) blast
  with cs(2) show ?thesis by simp
qed

text \<open>
  Claim C9, amended. Both operations work on the ledger first and on the inventory second.

  A successful create has exactly two steps. The first appends the booking record to the
  ledger and leaves the train database as it is. The second keeps that ledger and takes the
  ticket total, which is at least 1, from the seats of the selected train: the train at the
  chosen position of the bucket of the booking's route.

  A committed cancellation first changes the ledger (a full cancellation removes the record,
  a partial one updates its counts, ticket total and total price) and leaves the train
  database as it is. Then it looks up the bucket of the booking's route. When the route key
  is missing the lookup raises \<^verbatim>\<open>KeyError\<close>, which is caught and reported, and the
  ledger step is the only step. Otherwise there is a second step, which keeps the new ledger
  and replaces the bucket by the result of the loop of lines 566 to 569 (\<open>restore_first\<close>):
  the cancelled seat total, which is at least 1, is added to the first train of the bucket
  with the booking's train id.
\<close>

theorem C9_ledger_before_inventory:
  "(search_and_book_trains strptime s req = (BookingConfirmed b, steps) \<longrightarrow>
      ledger_first s steps \<and>
      (\<exists>results k.
         in_choice req = Number k \<and> 1 \<le> k \<and> nat (k - 1) < length results \<and>
         trains_db s (from_route (route b) @ ''::'' @ to_route (route b)) = Some results \<and>
         train_details b = results ! nat (k - 1) \<and>
         1 \<le> num_tickets b \<and>
         steps =
           [s\<lparr>bookings := bookings s @ [b]\<rparr>,
            s\<lparr>bookings := bookings s @ [b],
              trains_db := (trains_db s)
                (from_route (route b) @ ''::'' @ to_route (route b) \<mapsto>
                   results[nat (k - 1) := (results ! nat (k - 1))
                     \<lparr>seats := seats (results ! nat (k - 1)) - num_tickets b\<rparr>])\<rparr>])) \<and>
   (cancel_booking s creq = (Processed r, csteps) \<longrightarrow>
      ledger_first s csteps \<and>
      1 \<le> total_cancelled_seats (cancelled r) \<and>
      (\<exists>ledger.
         ledger =
           (if status r = FullyCancelled
            then remove1 (target r) (bookings s)
            else (bookings s)[target_position r :=
              (target r)\<lparr>
                 pricing := fold p_decrease (cancellations (cancelled r)) (pricing (target r)),
                 num_tickets := num_tickets (target r) - total_cancelled_seats (cancelled r),
                 total_price := total_price (target r) - net_refund r \<rparr>]) \<and>
         ledger \<noteq> bookings s \<and>
         (case trains_db s (from_route (route (target r)) @ ''::'' @ to_route (route (target r))) of
            None \<Rightarrow> restore_error r = Some KeyError \<and> csteps = [s\<lparr>bookings := ledger\<rparr>]
          | Some trains \<Rightarrow>
              restore_error r = None \<and>
              csteps =
                [s\<lparr>bookings := ledger\<rparr>,
                 s\<lparr>bookings := ledger,
                   trains_db := (trains_db s)
                     (from_route (route (target r)) @ ''::'' @ to_route (route (target r)) \<mapsto>
                        restore_first (id_train (train_details (target r)))
                          (total_cancelled_seats (cancelled r)) trains)\<rparr>])))"
proof (intro conjI impI)
  assume confirmed: "search_and_book_trains strptime s req = (BookingConfirmed b, steps)"
  from search_and_book_trains_Confirmed [OF this] obtain sel where
    sel: "search_and_select strptime s req = Inr sel" and
    create: "confirm_and_create_booking s req sel = (BookingConfirmed b, steps)"
    by blast
  let ?s1 = "s\<lparr>bookings := bookings s @ [booking_record req sel]\<rparr>"
  let ?s2 = "?s1\<lparr>trains_db := reserve_seats (trains_db s) (sel_route_key sel) (sel_index sel)
                                (sel_num_tickets sel)\<rparr>"
  from create have shape: "b = booking_record req sel" "steps = [?s1, ?s2]"
    by (auto simp: confirm_and_create_booking_def Let_def split: if_splits)
  then have b: "from_route (route b) @ ''::'' @ to_route (route b)
                  = sel_from sel @ ''::'' @ sel_to sel"
    "train_details b = sel_train sel" "num_tickets b = sel_num_tickets sel"
    by (simp_all add: booking_record_def)
  from search_and_select_Inr [OF sel] obtain results k where
    found: "trains_db s (sel_route_key sel) = Some results" "sel_index sel < length results"
      "in_choice req = Number k" "sel_index sel = nat (k - 1)"
      "sel_train sel = results ! sel_index sel"
      "sel_route_key sel = sel_from sel @ ''::'' @ sel_to sel"
      "1 \<le> sel_num_tickets sel"
    by auto
  from sel found(3) have k: "1 \<le> k"
    by (auto simp: search_and_select_def Let_def split: option.splits if_splits)
  show "ledger_first s steps"
    by (simp add: ledger_first_def shape)
  have "in_choice req = Number k \<and> 1 \<le> k \<and> nat (k - 1) < length results \<and>
         trains_db s (from_route (route b) @ ''::'' @ to_route (route b)) = Some results \<and>
         train_details b = results ! nat (k - 1) \<and>
         1 \<le> num_tickets b \<and>
         steps =
           [s\<lparr>bookings := bookings s @ [b]\<rparr>,
            s\<lparr>bookings := bookings s @ [b],
              trains_db := (trains_db s)
                (from_route (route b) @ ''::'' @ to_route (route b) \<mapsto>
                   results[nat (k - 1) := (results ! nat (k - 1))
                     \<lparr>seats := seats (results ! nat (k - 1)) - num_tickets b\<rparr>])\<rparr>]"
    using found k b shape by (simp add: reserve_seats_def)
  then show "\<exists>results k.
         in_choice req = Number k \<and> 1 \<le> k \<and> nat (k - 1) < length results \<and>
         trains_db s (from_route (route b) @ ''::'' @ to_route (route b)) = Some results \<and>
         train_details b = results ! nat (k - 1) \<and>
         1 \<le> num_tickets b \<and>
         steps =
           [s\<lparr>bookings := bookings s @ [b]\<rparr>,
            s\<lparr>bookings := bookings s @ [b],
              trains_db := (trains_db s)
                (from_route (route b) @ ''::'' @ to_route (route b) \<mapsto>
                   results[nat (k - 1) := (results ! nat (k - 1))
                     \<lparr>seats := seats (results ! nat (k - 1)) - num_tickets b\<rparr>])\<rparr>]"
    by blast
next
  assume committed: "cancel_booking s creq = (Processed r, csteps)"
  from cancel_booking_Processed [OF committed] obtain sel where
    sel: "cancel_select s creq = Inr sel" and
    commit: "cancel_commit s sel = (Processed r, csteps)"
    by blast
  let ?rk = "from_route (route (target r)) @ ''::'' @ to_route (route (target r))"
  let ?ledger = "if status r = FullyCancelled
            then remove1 (target r) (bookings s)
            else (bookings s)[target_position r :=
              (target r)\<lparr>
                 pricing := fold p_decrease (cancellations (cancelled r)) (pricing (target r)),
                 num_tickets := num_tickets (target r) - total_cancelled_seats (cancelled r),
                 total_price := total_price (target r) - net_refund r \<rparr>]"
  from cancel_commit_steps_report [OF commit]
  obtain s1 where s1: "trains_db s1 = trains_db s" "bookings s1 = ?ledger" and
    rest: "case restore_seats (trains_db s) ?rk
                   (id_train (train_details (target r)))
                   (total_cancelled_seats (cancelled r)) of
              Inl e \<Rightarrow> csteps = [s1] \<and> restore_error r = Some e
            | Inr db \<Rightarrow> csteps = [s1, s1\<lparr>trains_db := db\<rparr>] \<and> restore_error r = None"
    by blast
  from s1 have s1_eq: "s1 = s\<lparr>bookings := ?ledger\<rparr>"
    by (cases s1, cases s) simp
  note changed = cancel_ledger_changes [OF sel commit]
  from s1 rest changed show "ledger_first s csteps"
    by (auto simp: ledger_first_def split: sum.splits)
  from cancel_commit_report [OF commit] have r: "cancelled r = chosen sel"
    "target r = booking_to_modify sel" by auto
  from cancel_select_Inr [OF sel] have
    "total_cancelled_seats (chosen sel) \<noteq> 0"
    "ask_cancellations (pricing (booking_to_modify sel)) (cancel_answers creq) categories
           \<lparr> cancellations = [], total_cancelled_seats = 0, total_refund_gross = 0 \<rparr>
           = Some (chosen sel)"
    by simp_all
  with ask_cancellations_seats [OF this(2)] r
  show "1 \<le> total_cancelled_seats (cancelled r)" by simp
  have "case trains_db s ?rk of
            None \<Rightarrow> restore_error r = Some KeyError \<and> csteps = [s\<lparr>bookings := ?ledger\<rparr>]
          | Some trains \<Rightarrow>
              restore_error r = None \<and>
              csteps =
                [s\<lparr>bookings := ?ledger\<rparr>,
                 s\<lparr>bookings := ?ledger,
                   trains_db := (trains_db s)
                     (?rk \<mapsto>
                        restore_first (id_train (train_details (target r)))
                          (total_cancelled_seats (cancelled r)) trains)\<rparr>]"
  proof (cases "trains_db s ?rk")
    case None
    with rest show ?thesis unfolding s1_eq by (simp add: restore_seats_def)
  next
    case (Some trains)
    with rest show ?thesis unfolding s1_eq by (simp add: restore_seats_def)
  qed
  with changed show "\<exists>ledger.
         ledger = ?ledger \<and>
         ledger \<noteq> bookings s \<and>
         (case trains_db s ?rk of
            None \<Rightarrow> restore_error r = Some KeyError \<and> csteps = [s\<lparr>bookings := ledger\<rparr>]
          | Some trains \<Rightarrow>
              restore_error r = None \<and>
              csteps =
                [s\<lparr>bookings := ledger\<rparr>,
                 s\<lparr>bookings := ledger,
                   trains_db := (trains_db s)
                     (?rk \<mapsto>
                        restore_first (id_train (train_details (target r)))
                          (total_cancelled_seats (cancelled r)) trains)\<rparr>])"
    by blast
qed

theorem C9_ledger_before_inventory_witness:
  "search_and_book_trains strptime_demo s_demo book_demo
     = (BookingConfirmed booking_demo, [s_demo\<lparr>bookings := [booking_demo]\<rparr>, s_booked]) \<and>
   ledger_first s_demo [s_demo\<lparr>bookings := [booking_demo]\<rparr>, s_booked] \<and>
   snd (cancel_booking s_booked cancel_demo)
     = [s_booked\<lparr>bookings := [booking_partial]\<rparr>, s_partial] \<and>
   ledger_first s_booked [s_booked\<lparr>bookings := [booking_partial]\<rparr>, s_partial]"
proof -
  obtain r where committed: "cancel_booking s_booked cancel_demo
      = (Processed r, [s_booked\<lparr>bookings := [booking_partial]\<rparr>, s_partial])"
    using demo_cancel_steps cancel_select_not_Processed
    by (cases "cancel_booking s_booked cancel_demo")
       (auto simp: cancel_booking_def cancel_commit_def Let_def split: sum.splits)
  from C9_ledger_before_inventory [where strptime = strptime_demo and s = s_demo
      and req = book_demo and b = booking_demo
      and steps = "[s_demo\<lparr>bookings := [booking_demo]\<rparr>, s_booked]"]
    demo_book
  have create: "ledger_first s_demo [s_demo\<lparr>bookings := [booking_demo]\<rparr>, s_booked]"
    by blast
  from C9_ledger_before_inventory [where s = s_booked and creq = cancel_demo and r = r
      and csteps = "[s_booked\<lparr>bookings := [booking_partial]\<rparr>, s_partial]"]
    committed
  have cancel: "ledger_first s_booked [s_booked\<lparr>bookings := [booking_partial]\<rparr>, s_partial]"
    by blast
  from create cancel demo_book demo_cancel_steps
  show ?thesis by blast
qed

section \<open>What a partial cancellation leaves untouched\<close>




section \<open>Rounding to a double\<close>

lemma round_even_near: "\<bar>of_int (round_even q) - q\<bar> \<le> 1 / 2"
proof -
  have "of_int \<lfloor>q\<rfloor> \<le> q" "q < of_int \<lfloor>q\<rfloor> + 1" by linarith+
  then show ?thesis
    by (auto simp: round_even_def Let_def abs_le_iff)
qed

lemma round_even_of_int: "round_even (of_int n) = n"
  by (simp add: round_even_def)

lemma bitlen_powi:
  assumes "0 < a"
  shows "(2::rat) powi (bitlen a - 1) \<le> of_int a" and "of_int a < (2::rat) powi (bitlen a)"
proof -
  from bitlen_bounds [OF assms] have b: "2 ^ nat (bitlen a - 1) \<le> a" "a < 2 ^ nat (bitlen a)"
    by simp_all
  from assms have pos: "1 \<le> bitlen a" by (simp add: bitlen_alt_def)
  have "(2::rat) powi (bitlen a - 1) = of_int (2 ^ nat (bitlen a - 1))"
    using pos by (simp add: power_int_def)
  also have "\<dots> \<le> of_int a" using b(1) by (simp only: of_int_le_iff)
  finally show "(2::rat) powi (bitlen a - 1) \<le> of_int a" .
  have "(of_int a :: rat) < of_int (2 ^ nat (bitlen a))" using b(2) by (simp only: of_int_less_iff)
  also have "\<dots> = 2 powi (bitlen a)" using pos by (simp add: power_int_def)
  finally show "of_int a < (2::rat) powi (bitlen a)" .
qed

lemma ilog2_bounds:
  assumes "0 < x"
  shows "2 powi (ilog2 x) \<le> x" and "x < 2 powi (ilog2 x + 1)"
proof -
  obtain a b where q: "quotient_of x = (a, b)" by (cases "quotient_of x")
  then have b: "0 < b" and x: "x = of_int a / of_int b"
    using quotient_of_denom_pos quotient_of_div by blast+
  with assms have a: "0 < a" by (simp add: zero_less_divide_iff)
  let ?k = "bitlen a - bitlen b"
  have ub: "x < 2 powi (?k + 1)"
  proof -
    have "x < 2 powi (bitlen a) / of_int b"
      unfolding x using bitlen_powi(2) [OF a] b by (simp add: divide_strict_right_mono)
    also have "\<dots> \<le> 2 powi (bitlen a) / 2 powi (bitlen b - 1)"
      using bitlen_powi(1) [OF b] by (intro divide_left_mono) (auto intro: mult_pos_pos simp: b)
    also have "\<dots> = 2 powi (bitlen a - (bitlen b - 1))"
      by (rule power_int_diff [symmetric]) simp
    also have "bitlen a - (bitlen b - 1) = ?k + 1" by simp
    finally show ?thesis .
  qed
  have lb: "2 powi (?k - 1) < x"
  proof -
    have "?k - 1 = (bitlen a - 1) - bitlen b" by simp
    then have "(2::rat) powi (?k - 1) = 2 powi ((bitlen a - 1) - bitlen b)" by (rule arg_cong)
    also have "\<dots> = 2 powi (bitlen a - 1) / 2 powi (bitlen b)"
      by (rule power_int_diff) simp
    also have "\<dots> \<le> of_int a / 2 powi (bitlen b)"
      using bitlen_powi(1) [OF a] by (simp add: divide_right_mono)
    also have "\<dots> < of_int a / of_int b"
      using bitlen_powi(2) [OF b] a b by (simp add: divide_strict_left_mono)
    finally show ?thesis by (simp add: x)
  qed
  show "2 powi (ilog2 x) \<le> x"
    using lb by (auto simp: ilog2_def q Let_def)
  show "x < 2 powi (ilog2 x + 1)"
    using ub by (auto simp: ilog2_def q Let_def not_le)
qed

lemma powi_mono: "a \<le> b \<Longrightarrow> (2::rat) powi a \<le> 2 powi b"
  by (rule power_int_increasing) simp_all

lemma ilog2_unique:
  assumes "2 powi e \<le> x" and "x < 2 powi (e + 1)"
  shows "ilog2 x = e"
proof -
  have "(0::rat) < 2 powi e" by simp
  with assms have x: "0 < x" by linarith
  note b = ilog2_bounds [OF x]
  have "\<not> ilog2 x < e"
  proof
    assume "ilog2 x < e"
    then have "(2::rat) powi (ilog2 x + 1) \<le> 2 powi e" by (intro powi_mono) simp
    with b(2) assms(1) show False by linarith
  qed
  moreover have "\<not> e < ilog2 x"
  proof
    assume "e < ilog2 x"
    then have "(2::rat) powi (e + 1) \<le> 2 powi (ilog2 x)" by (intro powi_mono) simp
    with b(1) assms(2) show False by linarith
  qed
  ultimately show ?thesis by simp
qed

lemma round_even_bound:
  assumes "\<bar>q\<bar> \<le> of_int N"
  shows "\<bar>round_even q\<bar> \<le> N"
proof -
  from round_even_near [of q] assms
  have "\<bar>(of_int (round_even q) :: rat)\<bar> \<le> of_int N + 1 / 2" by linarith
  then have "(of_int \<bar>round_even q\<bar> :: rat) < of_int (N + 1)" by simp
  then have "\<bar>round_even q\<bar> < N + 1" by (simp only: of_int_less_iff)
  then show ?thesis by simp
qed

lemma powi_less: "a < b \<Longrightarrow> (2::rat) powi a < 2 powi b"
  by (rule power_int_strict_increasing) simp_all

lemma round_double_normal:
  assumes lo: "2 powi e \<le> \<bar>x\<bar>" and hi: "\<bar>x\<bar> < 2 powi (e + 1)"
    and e: "- 1022 \<le> e" "e \<le> 1022"
  shows "round_double x = Finite (of_int (round_even (x / 2 powi (e - 52))) * 2 powi (e - 52))"
proof -
  define ulp :: rat where "ulp = 2 powi (e - 52)"
  define y where "y = of_int (round_even (x / ulp)) * ulp"
  have ulp: "0 < ulp" by (simp add: ulp_def)
  have "(0::rat) < 2 powi e" by simp
  with lo have x: "x \<noteq> 0" by linarith
  have il: "ilog2 \<bar>x\<bar> = e" using lo hi by (rule ilog2_unique)
  have "\<bar>x / ulp\<bar> = \<bar>x\<bar> / ulp" using ulp by simp
  also have "\<dots> \<le> 2 powi (e + 1) / ulp" using hi ulp by (simp add: divide_right_mono)
  also have "\<dots> = 2 powi ((e + 1) - (e - 52))" unfolding ulp_def
    by (rule power_int_diff [symmetric]) simp
  also have "(e + 1) - (e - 52) = 53" by simp
  also have "(2::rat) powi 53 = of_int (2 ^ 53)" by simp
  finally have "\<bar>round_even (x / ulp)\<bar> \<le> 2 ^ 53" by (rule round_even_bound)
  then have "(of_int \<bar>round_even (x / ulp)\<bar> :: rat) \<le> of_int (2 ^ 53)"
    by (simp only: of_int_le_iff)
  then have "\<bar>y\<bar> \<le> 2 powi 53 * ulp"
    unfolding y_def abs_mult using ulp by (simp add: mult_right_mono)
  also have "\<dots> = 2 powi (53 + (e - 52))" unfolding ulp_def
    by (rule power_int_add [symmetric]) simp
  also have "\<dots> < 2 powi 1024" using e by (intro powi_less) simp
  finally have "\<not> 2 powi 1024 \<le> \<bar>y\<bar>" by simp
  then show ?thesis
    using x e il unfolding round_double_def Let_def y_def ulp_def by simp
qed

lemma round_double_error:
  assumes lo: "2 powi e \<le> \<bar>x\<bar>" and hi: "\<bar>x\<bar> < 2 powi (e + 1)"
    and e: "- 1022 \<le> e" "e \<le> 1022"
  shows "\<exists>y. round_double x = Finite y \<and> \<bar>y - x\<bar> \<le> \<bar>x\<bar> * 2 powi (- 53)"
proof -
  define ulp :: rat where "ulp = 2 powi (e - 52)"
  define y where "y = of_int (round_even (x / ulp)) * ulp"
  have ulp: "0 < ulp" by (simp add: ulp_def)
  have r: "round_double x = Finite y"
    unfolding y_def ulp_def using assms by (rule round_double_normal)
  have "y - x = (of_int (round_even (x / ulp)) - x / ulp) * ulp"
    using ulp by (simp add: y_def algebra_simps)
  then have "\<bar>y - x\<bar> = \<bar>of_int (round_even (x / ulp)) - x / ulp\<bar> * ulp"
    using ulp by (simp add: abs_mult)
  also have "\<dots> \<le> 1 / 2 * ulp"
    using round_even_near [of "x / ulp"] ulp by (intro mult_right_mono) simp_all
  also have "1 / 2 * ulp = 2 powi (- 1) * 2 powi (e - 52)" by (simp add: ulp_def)
  also have "\<dots> = 2 powi (- 1 + (e - 52))" by (rule power_int_add [symmetric]) simp
  also have "- 1 + (e - 52) = e + (- 53)" by simp
  also have "(2::rat) powi (e + (- 53)) = 2 powi e * 2 powi (- 53)" by (rule power_int_add) simp
  also have "\<dots> \<le> \<bar>x\<bar> * 2 powi (- 53)" using lo by (intro mult_right_mono) simp_all
  finally show ?thesis using r by blast
qed

lemma round_even_nearest:
  assumes "\<bar>q - of_int n\<bar> < 1 / 2"
  shows "round_even q = n"
proof (cases "of_int n \<le> q")
  case True
  with assms have "\<lfloor>q\<rfloor> = n" by (intro floor_unique) linarith+
  with assms True show ?thesis by (simp add: round_even_def Let_def)
next
  case False
  have c: "(of_int (n - 1) :: rat) = of_int n - 1" by simp
  from assms False have "of_int n - 1 \<le> q" "q < of_int n - 1 + 1" by linarith+
  then have f: "\<lfloor>q\<rfloor> = n - 1" unfolding c [symmetric] by (rule floor_unique)
  from assms False have "\<not> q - (of_int n - 1) < 1 / 2" "1 / 2 < q - (of_int n - 1)"
    by linarith+
  then have "\<not> q - of_int (n - 1) < 1 / 2" "1 / 2 < q - of_int (n - 1)"
    unfolding c .
  then show ?thesis unfolding round_even_def Let_def f by simp
qed

lemma round_even_tie:
  assumes "q = of_int n + 1 / 2"
  shows "round_even q = (if even n then n else n + 1)"
proof -
  from assms have "\<lfloor>q\<rfloor> = n" by (intro floor_unique) simp_all
  with assms show ?thesis by (simp add: round_even_def Let_def)
qed

lemma round_double_nearest:
  assumes "2 powi e \<le> \<bar>x\<bar>" and "\<bar>x\<bar> < 2 powi (e + 1)" and "- 1022 \<le> e" and "e \<le> 1022"
    and "\<bar>x / 2 powi (e - 52) - of_int n\<bar> < 1 / 2"
  shows "round_double x = Finite (of_int n * 2 powi (e - 52))"
  using round_double_normal [OF assms(1-4)] round_even_nearest [OF assms(5)] by simp

lemma round_double_tie:
  assumes "2 powi e \<le> \<bar>x\<bar>" and "\<bar>x\<bar> < 2 powi (e + 1)" and "- 1022 \<le> e" and "e \<le> 1022"
    and "x / 2 powi (e - 52) = of_int n + 1 / 2" and "even n"
  shows "round_double x = Finite (of_int n * 2 powi (e - 52))"
  using round_double_normal [OF assms(1-4)] round_even_tie [OF assms(5)] assms(6) by simp

section \<open>Error bounds\<close>

lemma near_zero: "near k 0 y \<longleftrightarrow> y = 0"
  by (simp add: near_def)

lemma near_refl: "0 \<le> X \<Longrightarrow> near k X X"
  by (simp add: near_def)

lemma near_mono:
  assumes "near j X y" and "j \<le> k"
  shows "near k X y"
proof -
  from assms(1) have X: "0 \<le> X" and d: "\<bar>y - X\<bar> \<le> of_nat j * X / 2 ^ 52"
    by (simp_all add: near_def)
  from assms(2) have "(of_nat j :: rat) \<le> of_nat k" by simp
  with X have "of_nat j * X / 2 ^ 52 \<le> of_nat k * X / 2 ^ 52"
    by (intro divide_right_mono mult_right_mono) simp_all
  with d X show ?thesis by (simp add: near_def)
qed

lemma small_factor:
  assumes "k \<le> 1000"
  shows "(of_nat k :: rat) / 2 ^ 52 \<le> 1 / 2 ^ 42"
proof -
  from assms have "(of_nat k :: rat) \<le> of_nat 1000" by (simp only: of_nat_le_iff)
  then have "(of_nat k :: rat) \<le> 2 ^ 10" by simp
  then have "(of_nat k :: rat) / 2 ^ 52 \<le> 2 ^ 10 / 2 ^ 52" by (rule divide_right_mono) simp
  then show ?thesis by simp
qed

lemma near_bounds:
  assumes "near k X y" and "k \<le> 1000"
  shows "X / 2 \<le> y" and "y \<le> 2 * X" and "\<bar>y\<bar> \<le> X + of_nat k * X / 2 ^ 52"
proof -
  from assms(1) have X: "0 \<le> X" and d: "\<bar>y - X\<bar> \<le> of_nat k * X / 2 ^ 52"
    by (simp_all add: near_def)
  from small_factor [OF assms(2)] X
  have "of_nat k / 2 ^ 52 * X \<le> 1 / 2 ^ 42 * X" by (rule mult_right_mono)
  also have "\<dots> \<le> 1 / 2 * X" using X by (intro mult_right_mono) simp_all
  finally have "of_nat k * X / 2 ^ 52 \<le> X / 2" by simp
  with d X show "X / 2 \<le> y" "y \<le> 2 * X" by linarith+
  from d show "\<bar>y\<bar> \<le> X + of_nat k * X / 2 ^ 52" using X by linarith
qed

lemma near_mult:
  assumes a: "near j X a" and b: "near k Y b" and j: "j \<le> 1000" and k: "k \<le> 1000"
  shows "near (j + k + 1) (X * Y) (a * b)"
proof -
  define e :: rat where "e = 1 / 2 ^ 52"
  have e: "0 \<le> e" by (simp add: e_def)
  from a have X: "0 \<le> X" and da: "\<bar>a - X\<bar> \<le> of_nat j * e * X"
    by (simp_all add: near_def e_def)
  from b have Y: "0 \<le> Y" and db: "\<bar>b - Y\<bar> \<le> of_nat k * e * Y"
    by (simp_all add: near_def e_def)
  have J: "0 \<le> of_nat j * e * X" using e X by simp
  have K: "0 \<le> of_nat k * e * Y" using e Y by simp
  from near_bounds(3) [OF a j] have aa: "\<bar>a\<bar> \<le> X + of_nat j * e * X" by (simp add: e_def)
  have "(of_nat j :: rat) * of_nat k \<le> of_nat 1000 * of_nat 1000"
    using j k by (intro mult_mono) simp_all
  then have "(of_nat j :: rat) * of_nat k \<le> 2 ^ 52" by simp
  then have "(of_nat j :: rat) * of_nat k * e \<le> 2 ^ 52 * e" using e by (rule mult_right_mono)
  then have jke: "(of_nat j :: rat) * of_nat k * e \<le> 1" by (simp add: e_def)
  have "a * b - X * Y = a * (b - Y) + (a - X) * Y" by (simp add: algebra_simps)
  then have "\<bar>a * b - X * Y\<bar> \<le> \<bar>a * (b - Y)\<bar> + \<bar>(a - X) * Y\<bar>"
    using abs_triangle_ineq [of "a * (b - Y)" "(a - X) * Y"] by simp
  also have "\<dots> = \<bar>a\<bar> * \<bar>b - Y\<bar> + \<bar>a - X\<bar> * Y" using Y by (simp add: abs_mult)
  also have "\<dots> \<le> (X + of_nat j * e * X) * (of_nat k * e * Y) + (of_nat j * e * X) * Y"
    using aa db da X Y J K by (intro add_mono mult_mono) simp_all
  also have "\<dots> = (of_nat j + of_nat k + of_nat j * of_nat k * e) * (e * (X * Y))"
    by (simp add: algebra_simps)
  also have "\<dots> \<le> (of_nat j + of_nat k + 1) * (e * (X * Y))"
    using jke e X Y by (intro mult_right_mono) simp_all
  also have "\<dots> = of_nat (j + k + 1) * (X * Y) / 2 ^ 52"
    by (simp add: e_def)
  finally have "\<bar>a * b - X * Y\<bar> \<le> of_nat (j + k + 1) * (X * Y) / 2 ^ 52" .
  with X Y show ?thesis by (simp add: near_def)
qed

lemma near_add:
  assumes a: "near j X a" and b: "near k Y b"
  shows "near (max j k) (X + Y) (a + b)"
proof -
  from near_mono [OF a, of "max j k"] near_mono [OF b, of "max j k"]
  have "near (max j k) X a" "near (max j k) Y b" by simp_all
  then have X: "0 \<le> X" and da: "\<bar>a - X\<bar> \<le> of_nat (max j k) * X / 2 ^ 52"
    and Y: "0 \<le> Y" and db: "\<bar>b - Y\<bar> \<le> of_nat (max j k) * Y / 2 ^ 52"
    by (simp_all add: near_def)
  have "\<bar>a + b - (X + Y)\<bar> \<le> \<bar>a - X\<bar> + \<bar>b - Y\<bar>" by linarith
  also have "\<dots> \<le> of_nat (max j k) * X / 2 ^ 52 + of_nat (max j k) * Y / 2 ^ 52"
    using da db by (rule add_mono)
  also have "\<dots> = of_nat (max j k) * (X + Y) / 2 ^ 52"
    by (simp add: algebra_simps add_divide_distrib)
  finally show ?thesis using X Y by (simp add: near_def)
qed

lemma near_sub:
  assumes a: "near j X a" and b: "near k Y b" and le: "Y \<le> X"
    and m: "of_nat j * X + of_nat k * Y \<le> of_nat m * (X - Y)"
  shows "near m (X - Y) (a - b)"
proof -
  from a b have da: "\<bar>a - X\<bar> \<le> of_nat j * X / 2 ^ 52"
    and db: "\<bar>b - Y\<bar> \<le> of_nat k * Y / 2 ^ 52"
    by (simp_all add: near_def)
  have "\<bar>a - b - (X - Y)\<bar> \<le> \<bar>a - X\<bar> + \<bar>b - Y\<bar>" by linarith
  also have "\<dots> \<le> of_nat j * X / 2 ^ 52 + of_nat k * Y / 2 ^ 52"
    using da db by (rule add_mono)
  also have "\<dots> = (of_nat j * X + of_nat k * Y) / 2 ^ 52"
    by (simp add: add_divide_distrib)
  also have "\<dots> \<le> of_nat m * (X - Y) / 2 ^ 52"
    using m by (rule divide_right_mono) simp
  finally show ?thesis using le by (simp add: near_def)
qed

lemma ranged_nonneg: "ranged l h X \<Longrightarrow> 0 \<le> X"
proof -
  assume "ranged l h X"
  moreover have "(0::rat) \<le> 2 powi l" by simp
  ultimately show ?thesis unfolding ranged_def by linarith
qed

lemma ranged_zero: "ranged l h 0"
  by (simp add: ranged_def)

lemma ranged_weaken:
  assumes "ranged l h X" and "l' \<le> l" and "h \<le> h'"
  shows "ranged l' h' X"
  using assms powi_mono [of l' l] powi_mono [of h h'] unfolding ranged_def by force

lemma ranged_mult:
  assumes "ranged l1 h1 X" and "ranged l2 h2 Y"
  shows "ranged (l1 + l2) (h1 + h2) (X * Y)"
proof (cases "X = 0 \<or> Y = 0")
  case True
  then show ?thesis by (auto simp: ranged_def)
next
  case False
  with assms have X: "2 powi l1 \<le> X" "X \<le> 2 powi h1" and Y: "2 powi l2 \<le> Y" "Y \<le> 2 powi h2"
    by (simp_all add: ranged_def)
  have p: "(0::rat) \<le> 2 powi l1" "(0::rat) \<le> 2 powi l2" by simp_all
  with X Y have nn: "0 \<le> X" "0 \<le> Y" by linarith+
  have "(2::rat) powi (l1 + l2) = 2 powi l1 * 2 powi l2" by (rule power_int_add) simp
  also have "\<dots> \<le> X * Y" using X(1) Y(1) nn(1) p(2) by (rule mult_mono)
  finally have lo: "2 powi (l1 + l2) \<le> X * Y" .
  have "(0::rat) \<le> 2 powi h1" by simp
  with X(2) Y(2) have "X * Y \<le> 2 powi h1 * 2 powi h2" using nn(2) by (rule mult_mono)
  also have "\<dots> = 2 powi (h1 + h2)" by (rule power_int_add [symmetric]) simp
  finally show ?thesis using lo by (simp add: ranged_def)
qed

lemma ranged_add:
  assumes X: "ranged l h X" and Y: "ranged l h Y"
  shows "ranged l (h + 1) (X + Y)"
proof -
  note nn = ranged_nonneg [OF X] ranged_nonneg [OF Y]
  have two: "(2::rat) powi (h + 1) = 2 powi h * 2"
    using power_int_add [of "2::rat" h 1] by simp
  have pos: "(0::rat) \<le> 2 powi h" by simp
  show ?thesis
  proof (cases "X = 0 \<and> Y = 0")
    case True
    then show ?thesis by (simp add: ranged_def)
  next
    case False
    from X Y nn pos have hi: "X + Y \<le> 2 powi h * 2" unfolding ranged_def by linarith
    from False X Y nn have "2 powi l \<le> X + Y" unfolding ranged_def by linarith
    with hi two show ?thesis by (simp add: ranged_def)
  qed
qed

lemma ranged_of_int:
  assumes "0 \<le> n" and "of_int n \<le> (2::rat) powi h"
  shows "ranged 0 h (of_int n)"
proof (cases "n = 0")
  case True
  then show ?thesis by (simp add: ranged_def)
next
  case False
  with assms(1) have "1 \<le> n" by simp
  then have "(1::rat) \<le> of_int n" by simp
  with assms(2) show ?thesis by (simp add: ranged_def)
qed

text \<open>Rounding adds one unit to the error bound and stays finite on ranged values.\<close>

lemma round_near:
  assumes z: "near k X z" and k: "k \<le> 1000" and X: "ranged (- 1020) 1020 X"
  shows "\<exists>y. round_double z = Finite y \<and> near (Suc k) X y"
proof (cases "X = 0")
  case True
  with z have "z = 0" by (simp add: near_zero)
  with True show ?thesis by (simp add: round_double_def near_zero)
next
  case False
  with X have lo: "2 powi (- 1020) \<le> X" and hi: "X \<le> 2 powi 1020"
    by (simp_all add: ranged_def)
  have "(0::rat) < 2 powi (- 1020)" by simp
  with lo have Xpos: "0 < X" by linarith
  note b = near_bounds [OF z k]
  from b(1) Xpos have zpos: "0 < z" by linarith
  then have az: "\<bar>z\<bar> = z" by simp
  have "(2::rat) powi (- 1021) = 2 powi (- 1020) / 2"
    using power_int_diff [of "2::rat" "- 1020" 1] by simp
  with lo b(1) have zlo: "2 powi (- 1021) \<le> z" by linarith
  have "(2::rat) powi 1021 = 2 * 2 powi 1020"
    using power_int_add [of "2::rat" 1020 1] by simp
  with hi b(2) have zhi: "z \<le> 2 powi 1021" by linarith
  define e where "e = ilog2 z"
  from ilog2_bounds [OF zpos] have eb: "2 powi e \<le> z" "z < 2 powi (e + 1)"
    by (simp_all add: e_def)
  have e_lo: "- 1022 \<le> e"
  proof (rule ccontr)
    assume "\<not> - 1022 \<le> e"
    then have "(2::rat) powi (e + 1) \<le> 2 powi (- 1021)" by (intro powi_mono) simp
    with eb(2) zlo show False by linarith
  qed
  have e_hi: "e \<le> 1022"
  proof (rule ccontr)
    assume "\<not> e \<le> 1022"
    then have "(2::rat) powi 1021 < 2 powi e" by (intro powi_less) simp
    with eb(1) zhi show False by linarith
  qed
  from round_double_error [of e z] eb e_lo e_hi az
  obtain y where y: "round_double z = Finite y" "\<bar>y - z\<bar> \<le> z * 2 powi (- 53)"
    by auto
  have p53: "(2::rat) powi (- 53) = 1 / 2 ^ 53" by (simp add: power_int_minus field_simps)
  from z have dz: "\<bar>z - X\<bar> \<le> of_nat k * X / 2 ^ 52" by (simp add: near_def)
  have "z * 2 powi (- 53) \<le> (2 * X) * 2 powi (- 53)"
    using b(2) by (intro mult_right_mono) simp_all
  also have "\<dots> = X / 2 ^ 52" by (simp add: p53)
  finally have "\<bar>y - z\<bar> \<le> X / 2 ^ 52" using y(2) by linarith
  with dz have "\<bar>y - X\<bar> \<le> X / 2 ^ 52 + of_nat k * X / 2 ^ 52" by linarith
  also have "\<dots> = of_nat (Suc k) * X / 2 ^ 52"
    by (simp add: algebra_simps add_divide_distrib)
  finally have "near (Suc k) X y" using Xpos by (simp add: near_def)
  with y(1) show ?thesis by blast
qed

section \<open>Python operations on approximated values\<close>

lemma approx_mono: "approx j X v \<Longrightarrow> j \<le> k \<Longrightarrow> approx k X v"
  by (cases "(j, X, v)" rule: approx.cases) (auto intro: near_mono)

lemma approx_nonneg: "approx k X v \<Longrightarrow> 0 \<le> X"
  by (cases "(k, X, v)" rule: approx.cases) (auto simp: near_def)

lemma approx_float:
  assumes "approx k X (PyFloat d)"
  shows "\<exists>y. d = Finite y \<and> near k X y"
  using assms by (cases d) simp_all

lemma to_float_approx:
  assumes v: "approx k X v" and k: "k \<le> 999" and X: "ranged (- 1020) 1020 X"
  shows "\<exists>y. to_float v = Some (Finite y) \<and> near (Suc k) X y"
proof (cases v)
  case (PyInt n)
  with v have n: "X = of_int n" "0 \<le> X" by simp_all
  then have "near 0 X (of_int n)" by (simp add: near_def)
  from round_near [OF this _ X] obtain y where
    y: "round_double (of_int n) = Finite y" "near (Suc 0) X y" by auto
  from y(2) have "near (Suc k) X y" by (rule near_mono) simp
  with y(1) PyInt show ?thesis by (simp add: float_of_int_def)
next
  case (PyFloat d)
  with v obtain y where "d = Finite y" "near k X y" using approx_float by blast
  with PyFloat show ?thesis by (auto intro: near_mono)
qed

lemma py_arith_float:
  assumes "to_float a = Some x" and "to_float b = Some y"
    and "\<not> (\<exists>m n. a = PyInt m \<and> b = PyInt n)"
  shows "py_arith int_op float_op a b = Some (PyFloat (float_op x y))"
  using assms by (cases a; cases b) (simp_all add: py_arith_def)

lemma py_arith_is_float:
  assumes "py_arith int_op float_op a b = Some v" and "(\<exists>d. a = PyFloat d) \<or> (\<exists>d. b = PyFloat d)"
  shows "\<exists>d. v = PyFloat d"
  using assms by (cases a; cases b) (auto simp: py_arith_def split: bind_splits)

lemma py_mul_approx:
  assumes a: "approx j X a" and b: "approx k Y b" and j: "j \<le> 400" and k: "k \<le> 400"
    and X: "ranged (- 1020) 1020 X" and Y: "ranged (- 1020) 1020 Y"
    and XY: "ranged (- 1020) 1020 (X * Y)"
  shows "\<exists>v. py_mul a b = Some v \<and> approx (j + k + 4) (X * Y) v"
proof (cases "\<exists>m n. a = PyInt m \<and> b = PyInt n")
  case True
  then obtain m n where mn: "a = PyInt m" "b = PyInt n" by blast
  with a b have "X * Y = of_int (m * n)" "0 \<le> m * n" by simp_all
  with mn show ?thesis by (simp add: py_mul_def py_arith_def)
next
  case False
  from to_float_approx [OF a _ X] j obtain x where
    x: "to_float a = Some (Finite x)" "near (Suc j) X x" by auto
  from to_float_approx [OF b _ Y] k obtain y where
    y: "to_float b = Some (Finite y)" "near (Suc k) Y y" by auto
  from near_mult [OF x(2) y(2)] j k have "near (Suc j + Suc k + 1) (X * Y) (x * y)" by simp
  from round_near [OF this _ XY] j k obtain z where
    z: "round_double (x * y) = Finite z" "near (Suc (Suc j + Suc k + 1)) (X * Y) z" by auto
  from z(2) have "near (j + k + 4) (X * Y) z" by (rule near_mono) simp
  with py_arith_float [OF x(1) y(1) False, of "(*)" fmul] z(1) show ?thesis
    by (simp add: py_mul_def)
qed

lemma py_add_approx:
  assumes a: "approx j X a" and b: "approx k Y b" and j: "j \<le> 400" and k: "k \<le> 400"
    and X: "ranged (- 1020) 1020 X" and Y: "ranged (- 1020) 1020 Y"
    and XY: "ranged (- 1020) 1020 (X + Y)"
  shows "\<exists>v. py_add a b = Some v \<and> approx (max j k + 2) (X + Y) v"
proof (cases "\<exists>m n. a = PyInt m \<and> b = PyInt n")
  case True
  then obtain m n where mn: "a = PyInt m" "b = PyInt n" by blast
  with a b have "X + Y = of_int (m + n)" "0 \<le> m + n" by simp_all
  with mn show ?thesis by (simp add: py_add_def py_arith_def)
next
  case False
  from to_float_approx [OF a _ X] j obtain x where
    x: "to_float a = Some (Finite x)" "near (Suc j) X x" by auto
  from to_float_approx [OF b _ Y] k obtain y where
    y: "to_float b = Some (Finite y)" "near (Suc k) Y y" by auto
  from near_add [OF x(2) y(2)] have "near (max (Suc j) (Suc k)) (X + Y) (x + y)" .
  from round_near [OF this _ XY] j k obtain z where
    z: "round_double (x + y) = Finite z" "near (Suc (max (Suc j) (Suc k))) (X + Y) z" by auto
  from z(2) have "near (max j k + 2) (X + Y) z" by (rule near_mono) simp
  with py_arith_float [OF x(1) y(1) False, of "(+)" fadd] z(1) show ?thesis
    by (simp add: py_add_def)
qed

lemma py_sub_approx:
  assumes a: "approx j X a" and b: "approx k Y b" and j: "j \<le> 400" and k: "k \<le> 400"
    and X: "ranged (- 1020) 1020 X" and Y: "ranged (- 1020) 1020 Y"
    and XY: "ranged (- 1020) 1020 (X - Y)" and le: "Y \<le> X"
    and m: "of_nat (Suc j) * X + of_nat (Suc k) * Y \<le> of_nat m * (X - Y)" "m \<le> 1000"
  shows "\<exists>v. py_sub a b = Some v \<and> approx (Suc m) (X - Y) v"
proof (cases "\<exists>m n. a = PyInt m \<and> b = PyInt n")
  case True
  then obtain m' n' where mn: "a = PyInt m'" "b = PyInt n'" by blast
  with a b le have "X - Y = of_int (m' - n')" "0 \<le> m' - n'" by simp_all
  with mn show ?thesis by (simp add: py_sub_def py_arith_def)
next
  case False
  from to_float_approx [OF a _ X] j obtain x where
    x: "to_float a = Some (Finite x)" "near (Suc j) X x" by auto
  from to_float_approx [OF b _ Y] k obtain y where
    y: "to_float b = Some (Finite y)" "near (Suc k) Y y" by auto
  from near_sub [OF x(2) y(2) le m(1)] have "near m (X - Y) (x - y)" .
  from round_near [OF this m(2) XY] obtain z where
    z: "round_double (x - y) = Finite z" "near (Suc m) (X - Y) z" by auto
  with py_arith_float [OF x(1) y(1) False, of "(-)" fsub] show ?thesis
    by (simp add: py_sub_def)
qed

lemma py_mul_is_float:
  "py_mul a b = Some v \<Longrightarrow> (\<exists>d. a = PyFloat d) \<or> (\<exists>d. b = PyFloat d) \<Longrightarrow> \<exists>d. v = PyFloat d"
  unfolding py_mul_def by (rule py_arith_is_float)

lemma py_add_is_float:
  "py_add a b = Some v \<Longrightarrow> (\<exists>d. a = PyFloat d) \<or> (\<exists>d. b = PyFloat d) \<Longrightarrow> \<exists>d. v = PyFloat d"
  unfolding py_add_def by (rule py_arith_is_float)

lemma py_sub_is_float:
  "py_sub a b = Some v \<Longrightarrow> (\<exists>d. a = PyFloat d) \<or> (\<exists>d. b = PyFloat d) \<Longrightarrow> \<exists>d. v = PyFloat d"
  unfolding py_sub_def by (rule py_arith_is_float)

section \<open>The constants of the program\<close>

lemma round_double_0: "round_double 0 = Finite 0"
  by (simp add: round_double_def)

lemma round_double_1: "round_double 1 = Finite 1"
  by (simp add: round_double_nearest [where e = 0 and n = "2 ^ 52"])

lemma round_double_half: "round_double (1 / 2) = Finite (1 / 2)"
  by (simp add: round_double_nearest [where e = "- 1" and n = "2 ^ 52"])

lemma round_double_3_10:
  "round_double (3 / 10) = Finite (5404319552844595 / 18014398509481984)"
  by (simp add: round_double_nearest [where e = "- 2" and n = 5404319552844595])

lemma round_double_1_10:
  "round_double (1 / 10) = Finite (3602879701896397 / 36028797018963968)"
  by (simp add: round_double_nearest [where e = "- 4" and n = 7205759403792794])

lemma round_double_7_10:
  "round_double (12610078956637389 / 18014398509481984)
     = Finite (3152519739159347 / 4503599627370496)"
  by (simp add: round_double_tie [where e = "- 1" and n = 6305039478318694])

lemma literals:
  "literal 0 = PyFloat (Finite 0)"
  "literal 1 = PyFloat (Finite 1)"
  "literal (1 / 2) = PyFloat (Finite (1 / 2))"
  "literal (3 / 10) = PyFloat (Finite (5404319552844595 / 18014398509481984))"
  "literal (1 / 10) = PyFloat (Finite (3602879701896397 / 36028797018963968))"
  by (simp_all add: literal_def round_double_0 round_double_1 round_double_half
      round_double_3_10 round_double_1_10)

lemma rates:
  "DISCOUNT_RATES_ieee CHILD = PyFloat (Finite (1 / 2))"
  "DISCOUNT_RATES_ieee INFANT = PyFloat (Finite 1)"
  "DISCOUNT_RATES_ieee SENIOR_CITIZEN = PyFloat (Finite (5404319552844595 / 18014398509481984))"
  "DISCOUNT_RATES_ieee OFF_PEAK_SEASON = PyFloat (Finite (3602879701896397 / 36028797018963968))"
  by (simp_all add: literals)

lemma float_of_int_1: "float_of_int 1 = Some (Finite 1)"
  by (simp add: float_of_int_def round_double_1)

lemma one_minus_rate:
  "py_sub (PyInt 1) (DISCOUNT_RATES_ieee INFANT) = Some (PyFloat (Finite 0))"
  "py_sub (PyInt 1) (DISCOUNT_RATES_ieee CHILD) = Some (PyFloat (Finite (1 / 2)))"
  "py_sub (PyInt 1) (DISCOUNT_RATES_ieee SENIOR_CITIZEN)
     = Some (PyFloat (Finite (3152519739159347 / 4503599627370496)))"
  by (simp_all add: literals py_sub_def py_arith_def float_of_int_1 round_double_0
      round_double_half round_double_7_10)

lemma literal_one_minus_rate:
  "py_sub (literal 1) (literal (1 / 2)) = Some (PyFloat (Finite (1 / 2)))"
  "py_sub (literal 1) (literal (3 / 10))
     = Some (PyFloat (Finite (3152519739159347 / 4503599627370496)))"
  by (simp_all add: literals py_sub_def py_arith_def round_double_half round_double_7_10)

lemma approx_constants:
  "approx 0 0 (PyFloat (Finite 0))"
  "approx 0 1 (PyFloat (Finite 1))"
  "approx 0 (1 / 2) (PyFloat (Finite (1 / 2)))"
  "approx 1 (3 / 10) (PyFloat (Finite (5404319552844595 / 18014398509481984)))"
  "approx 1 (1 / 10) (PyFloat (Finite (3602879701896397 / 36028797018963968)))"
  "approx 1 (7 / 10) (PyFloat (Finite (3152519739159347 / 4503599627370496)))"
  by (simp_all add: near_def)

lemma ranged_constants:
  "ranged (- 4) 0 1"
  "ranged (- 4) 0 (1 / 2)"
  "ranged (- 4) 0 (3 / 10)"
  "ranged (- 4) 0 (1 / 10)"
  "ranged (- 4) 0 (7 / 10)"
  "ranged (- 4) 0 (9 / 10)"
  by (simp_all add: ranged_def)

section \<open>Evaluation in floating point\<close>

text \<open>
  The roundings that occur in the concrete computations below, each checked against
  \<open>round_double_nearest\<close> or \<open>round_double_tie\<close>.
\<close>

lemma rounding_1: "float_of_int 1 = Some (Finite 1)"
  by (simp add: float_of_int_def round_double_nearest [where e = 0 and n = 4503599627370496])

lemma rounding_2: "fsub (Finite 1) (Finite 1) = Finite 0"
  by (simp add: round_double_0)

lemma rounding_3: "float_of_int 0 = Some (Finite 0)"
  by (simp add: float_of_int_def round_double_0)

lemma rounding_4: "fmul (Finite 0) (Finite 0) = Finite 0"
  by (simp add: round_double_0)

lemma rounding_5: "fmul (Finite 0) (Finite 1) = Finite 0"
  by (simp add: round_double_0)

lemma rounding_6: "fsub (Finite 1) (Finite (1 / 2)) = Finite (1 / 2)"
  by (simp add: round_double_nearest [where e = "- 1" and n = 4503599627370496])

lemma rounding_7: "fmul (Finite 0) (Finite (1 / 2)) = Finite 0"
  by (simp add: round_double_0)

lemma rounding_8: "fsub (Finite 1) (Finite (5404319552844595 / 18014398509481984)) = Finite (3152519739159347 / 4503599627370496)"
  by (simp add: round_double_tie [where e = "- 1" and n = 6305039478318694])

lemma rounding_9: "float_of_int 330 = Some (Finite 330)"
  by (simp add: float_of_int_def round_double_nearest [where e = 8 and n = 5805421394657280])

lemma rounding_10: "fmul (Finite 330) (Finite (3152519739159347 / 4503599627370496)) = Finite (8127589952520191 / 35184372088832)"
  by (simp add: round_double_nearest [where e = 7 and n = 8127589952520191])

lemma rounding_11: "fmul (Finite 330) (Finite (5404319552844595 / 18014398509481984)) = Finite 99"
  by (simp add: round_double_nearest [where e = 6 and n = 6966505673588736])

lemma rounding_12: "fadd (Finite 0) (Finite 0) = Finite 0"
  by (simp add: round_double_0)

lemma rounding_13: "fadd (Finite 0) (Finite (8127589952520191 / 35184372088832)) = Finite (8127589952520191 / 35184372088832)"
  by (simp add: round_double_nearest [where e = 7 and n = 8127589952520191])

lemma rounding_14: "fadd (Finite 0) (Finite 99) = Finite 99"
  by (simp add: round_double_nearest [where e = 6 and n = 6966505673588736])

lemma rounding_15: "fmul (Finite (8127589952520191 / 35184372088832)) (Finite (3602879701896397 / 36028797018963968)) = Finite (6502071962016153 / 281474976710656)"
  by (simp add: round_double_nearest [where e = 4 and n = 6502071962016153])

lemma rounding_16: "fsub (Finite (8127589952520191 / 35184372088832)) (Finite (6502071962016153 / 281474976710656)) = Finite (1828707739317043 / 8796093022208)"
  by (simp add: round_double_nearest [where e = 7 and n = 7314830957268172])

lemma rounding_17: "fadd (Finite 99) (Finite (6502071962016153 / 281474976710656)) = Finite (4296011832046387 / 35184372088832)"
  by (simp add: round_double_nearest [where e = 6 and n = 8592023664092774])

lemma rounding_18: "float_of_int 1000 = Some (Finite 1000)"
  by (simp add: float_of_int_def round_double_nearest [where e = 9 and n = 8796093022208000])

lemma rounding_19: "fmul (Finite 1000) (Finite 0) = Finite 0"
  by (simp add: round_double_0)

lemma rounding_20: "fmul (Finite 1000) (Finite 1) = Finite 1000"
  by (simp add: round_double_nearest [where e = 9 and n = 8796093022208000])

lemma rounding_21: "fmul (Finite 1000) (Finite (1 / 2)) = Finite 500"
  by (simp add: round_double_nearest [where e = 8 and n = 8796093022208000])

lemma rounding_22: "fmul (Finite 1000) (Finite (3152519739159347 / 4503599627370496)) = Finite 700"
  by (simp add: round_double_nearest [where e = 9 and n = 6157265115545600])

lemma rounding_23: "fmul (Finite 1000) (Finite (5404319552844595 / 18014398509481984)) = Finite 300"
  by (simp add: round_double_nearest [where e = 8 and n = 5277655813324800])

lemma rounding_24: "float_of_int 2000 = Some (Finite 2000)"
  by (simp add: float_of_int_def round_double_nearest [where e = 10 and n = 8796093022208000])

lemma rounding_25: "fadd (Finite 2000) (Finite 0) = Finite 2000"
  by (simp add: round_double_nearest [where e = 10 and n = 8796093022208000])

lemma rounding_26: "fadd (Finite 2000) (Finite 500) = Finite 2500"
  by (simp add: round_double_nearest [where e = 11 and n = 5497558138880000])

lemma rounding_27: "fadd (Finite 2500) (Finite 700) = Finite 3200"
  by (simp add: round_double_nearest [where e = 11 and n = 7036874417766400])

lemma rounding_28: "fadd (Finite 1000) (Finite 500) = Finite 1500"
  by (simp add: round_double_nearest [where e = 10 and n = 6597069766656000])

lemma rounding_29: "fadd (Finite 1500) (Finite 300) = Finite 1800"
  by (simp add: round_double_nearest [where e = 10 and n = 7916483719987200])

lemma rounding_30: "fmul (Finite 3200) (Finite (3602879701896397 / 36028797018963968)) = Finite 320"
  by (simp add: round_double_nearest [where e = 8 and n = 5629499534213120])

lemma rounding_31: "fsub (Finite 3200) (Finite 320) = Finite 2880"
  by (simp add: round_double_nearest [where e = 11 and n = 6333186975989760])

lemma rounding_32: "fadd (Finite 1800) (Finite 320) = Finite 2120"
  by (simp add: round_double_nearest [where e = 11 and n = 4661929301770240])

lemma rounding_33: "fmul (Finite 1) (Finite (8127589952520191 / 35184372088832)) = Finite (8127589952520191 / 35184372088832)"
  by (simp add: round_double_nearest [where e = 7 and n = 8127589952520191])

lemma rounding_34: "fmul (Finite 1) (Finite 1000) = Finite 1000"
  by (simp add: round_double_nearest [where e = 9 and n = 8796093022208000])

lemma rounding_35: "fadd (Finite 0) (Finite 1000) = Finite 1000"
  by (simp add: round_double_nearest [where e = 9 and n = 8796093022208000])

lemma rounding_36: "fadd (Finite 1000) (Finite 0) = Finite 1000"
  by (simp add: round_double_nearest [where e = 9 and n = 8796093022208000])

lemma rounding_37: "fmul (Finite 0) (Finite 500) = Finite 0"
  by (simp add: round_double_0)

lemma rounding_38: "fmul (Finite 0) (Finite 700) = Finite 0"
  by (simp add: round_double_0)

lemma rounding_39: "fmul (Finite 1000) (Finite (3602879701896397 / 36028797018963968)) = Finite 100"
  by (simp add: round_double_nearest [where e = 6 and n = 7036874417766400])

lemma rounding_40: "fsub (Finite 1000) (Finite 100) = Finite 900"
  by (simp add: round_double_nearest [where e = 9 and n = 7916483719987200])

lemmas roundings =
  rounding_1 rounding_2 rounding_3 rounding_4 rounding_5 rounding_6
  rounding_7 rounding_8 rounding_9 rounding_10 rounding_11 rounding_12
  rounding_13 rounding_14 rounding_15 rounding_16 rounding_17 rounding_18
  rounding_19 rounding_20 rounding_21 rounding_22 rounding_23 rounding_24
  rounding_25 rounding_26 rounding_27 rounding_28 rounding_29 rounding_30
  rounding_31 rounding_32 rounding_33 rounding_34 rounding_35 rounding_36
  rounding_37 rounding_38 rounding_39 rounding_40

lemmas ieee_defs = py_mul_def py_add_def py_sub_def py_arith_def literals

lemma fare_senior_330:
  "calculate_discounted_price_ieee strptime_demo (PyInt 330) ''2030-01-15'' 0 0 0 1
     = Some pricing_senior_330"
  by (simp add: calculate_discounted_price_ieee_def ieee_defs strptime_demo_def roundings
      pricing_senior_330_def del: fadd.simps fsub.simps fmul.simps)

lemma fare_demo_ieee:
  "calculate_discounted_price_ieee strptime_demo (PyInt 1000) ''2030-01-15'' 2 1 1 1
     = Some pricing_demo_ieee"
  by (simp add: calculate_discounted_price_ieee_def ieee_defs strptime_demo_def roundings
      pricing_demo_ieee_def del: fadd.simps fsub.simps fmul.simps)

lemma refund_senior_330:
  "ask_cancellations_ieee pricing_senior_330 all_tickets categories tally_start =
     Finished
       \<lparr> cancellations_ieee = [(Adult, 0), (Infant, 0), (Child, 0), (Senior, 1)],
         total_cancelled_seats_ieee = 1,
         total_refund_gross_ieee = PyFloat (Finite (8127589952520191 / 35184372088832)) \<rparr>"
  "cancellation_fee_ieee (PyFloat (Finite (8127589952520191 / 35184372088832))) = Some (PyFloat (Finite (6502071962016153 / 281474976710656)))"
  "net_refund_ieee (PyFloat (Finite (8127589952520191 / 35184372088832))) = Some (PyFloat (Finite (1828707739317043 / 8796093022208)))"
  by (simp_all add: categories_def tally_start_def pricing_senior_330_def all_tickets_def
      cancellation_fee_ieee_def net_refund_ieee_def ieee_defs roundings
      del: fadd.simps fsub.simps fmul.simps)

lemma refund_demo_ieee:
  "ask_cancellations_ieee pricing_demo_ieee one_adult categories tally_start =
     Finished
       \<lparr> cancellations_ieee = [(Adult, 1), (Infant, 0), (Child, 0), (Senior, 0)],
         total_cancelled_seats_ieee = 1,
         total_refund_gross_ieee = PyFloat (Finite 1000) \<rparr>"
  "cancellation_fee_ieee (PyFloat (Finite 1000)) = Some (PyFloat (Finite 100))"
  "net_refund_ieee (PyFloat (Finite 1000)) = Some (PyFloat (Finite 900))"
  by (simp_all add: categories_def tally_start_def pricing_demo_ieee_def one_adult_def
      cancellation_fee_ieee_def net_refund_ieee_def ieee_defs roundings
      del: fadd.simps fsub.simps fmul.simps)

text \<open>
  An int from \<open>2 ^ 1024\<close> on has no double: Python raises \<^verbatim>\<open>OverflowError\<close> when it
  converts one. The calculator does so for a count of that size, at the first addition of an
  int and a float.
\<close>

lemma round_even_numeral: "round_even (numeral n) = numeral n"
  using round_even_of_int [of "numeral n"] by simp

lemma round_double_overflow: "round_double (2 ^ 1024) = PInf"
proof -
  have "ilog2 (2 powi 1024) = 1024"
    by (rule ilog2_unique) (simp_all del: power_int_numeral add: powi_less)
  note il = this [simplified]
  show ?thesis
    by (simp add: round_double_def Let_def il round_even_numeral)
qed

lemma float_of_int_overflow: "float_of_int (2 ^ 1024) = None"
  using round_double_overflow by (simp add: float_of_int_def)

lemma fare_overflow:
  "calculate_discounted_price_ieee strptime (PyInt 1) ds (2 ^ 1024) 0 0 0 = None"
  using float_of_int_overflow
  by (simp add: calculate_discounted_price_ieee_def ieee_defs)

section \<open>The fare in floating point\<close>

lemma ranged_ok:
  "ranged l h X \<Longrightarrow> - 1020 \<le> l \<Longrightarrow> h \<le> 1020 \<Longrightarrow> ranged (- 1020) 1020 X"
  by (rule ranged_weaken)

lemma ranged_count:
  assumes "0 \<le> n" and "n \<le> 2 ^ 500"
  shows "ranged 0 500 (of_int n)"
proof -
  from assms(2) have "(of_int n :: rat) \<le> of_int (2 ^ 500)" by (simp only: of_int_le_iff)
  also have "(of_int (2 ^ 500) :: rat) = 2 powi 500" by simp
  finally show ?thesis using assms(1) by (intro ranged_of_int)
qed

lemma approx_count: "0 \<le> n \<Longrightarrow> approx 0 (of_int n) (PyInt n)"
  by simp

text \<open>
  The price of one category: \<^verbatim>\<open>base_price * count * rate\<close>, where the rate is known up
  to \<open>k\<close> units.
\<close>

lemma category_price:
  assumes base: "approx 0 p base_price" and p: "ranged (- 500) 500 p"
    and n: "0 \<le> n" "n \<le> 2 ^ 500"
    and r: "approx k R rate" "k \<le> 1" "ranged (- 4) 0 R"
  shows "\<exists>x v. py_mul base_price (PyInt n) = Some x \<and> py_mul x rate = Some v \<and>
           approx (k + 8) (p * of_int n * R) v \<and> ranged (- 504) 1000 (p * of_int n * R)"
proof -
  note rn = ranged_count [OF n]
  from ranged_mult [OF p rn] have pn: "ranged (- 500) 1000 (p * of_int n)" by simp
  from ranged_mult [OF pn r(3)] have pnr: "ranged (- 504) 1000 (p * of_int n * R)" by simp
  from py_mul_approx [OF base approx_count [OF n(1)] _ _ ranged_ok [OF p] ranged_ok [OF rn]
      ranged_ok [OF pn]]
  obtain x where x: "py_mul base_price (PyInt n) = Some x" "approx 4 (p * of_int n) x"
    by auto
  from py_mul_approx [OF x(2) r(1) _ _ ranged_ok [OF pn] ranged_ok [OF r(3)] ranged_ok [OF pnr]]
    r(2)
  obtain v where v: "py_mul x rate = Some v" "approx (4 + k + 4) (p * of_int n * R) v"
    by auto
  from v(2) have "approx (k + 8) (p * of_int n * R) v" by (rule approx_mono) simp
  with x(1) v(1) pnr show ?thesis by blast
qed

lemma approx_is_float:
  assumes "approx k X v" and "\<exists>d. v = PyFloat d"
  shows "\<exists>y. v = PyFloat (Finite y) \<and> near k X y"
  using assms approx_float by blast

lemma near_bound:
  assumes "near k X y" and "of_nat k \<le> (2::rat) ^ m" and "m \<le> 52"
  shows "\<bar>y - X\<bar> \<le> X / 2 ^ (52 - m)"
proof -
  from assms(1) have X: "0 \<le> X" and d: "\<bar>y - X\<bar> \<le> of_nat k * X / 2 ^ 52"
    by (simp_all add: near_def)
  have "of_nat k * X / 2 ^ 52 \<le> 2 ^ m * X / 2 ^ 52"
    using assms(2) X by (intro divide_right_mono mult_right_mono) simp_all
  also have "\<dots> = X / 2 ^ (52 - m)"
    using assms(3) by (simp add: power_diff)
  finally show ?thesis using d by linarith
qed

lemma category_prices:
  assumes base: "approx 0 p base_price" and p: "ranged (- 500) 500 p"
    and n: "0 \<le> n" "n \<le> 2 ^ 500"
    and r1: "approx k1 R1 rate1" "k1 \<le> 1" "ranged (- 4) 0 R1"
    and r2: "approx k2 R2 rate2" "k2 \<le> 1" "ranged (- 4) 0 R2"
  shows "\<exists>x v w. py_mul base_price (PyInt n) = Some x \<and>
           py_mul x rate1 = Some v \<and> py_mul x rate2 = Some w \<and>
           approx (k1 + 8) (p * of_int n * R1) v \<and> ranged (- 504) 1000 (p * of_int n * R1) \<and>
           approx (k2 + 8) (p * of_int n * R2) w \<and> ranged (- 504) 1000 (p * of_int n * R2)"
proof -
  from category_price [OF base p n r1] obtain x v where
    v: "py_mul base_price (PyInt n) = Some x" "py_mul x rate1 = Some v"
       "approx (k1 + 8) (p * of_int n * R1) v" "ranged (- 504) 1000 (p * of_int n * R1)"
    by blast
  from category_price [OF base p n r2] obtain x' w where
    w: "py_mul base_price (PyInt n) = Some x'" "py_mul x' rate2 = Some w"
       "approx (k2 + 8) (p * of_int n * R2) w" "ranged (- 504) 1000 (p * of_int n * R2)"
    by blast
  from v(1) w(1) have "x' = x" by simp
  with v w show ?thesis by blast
qed

text \<open>
  Claim C1 gives the fare as the exact value of its formula. In the code the fare is a double:
  for one senior at the base price 330 in January the formula gives the subtotal
  \<open>330 * 0.7 = 231\<close> and the final price \<open>231 - 23.1 = 207.9\<close>, while the calculator
  returns the subtotal \<open>231 - 2 ^ - 45\<close> (\<^verbatim>\<open>230.99999999999997\<close>) and the final price
  \<^verbatim>\<open>207.89999999999998\<close>.
\<close>

theorem C1_exact_formula_counterexample:
  "calculate_discounted_price_ieee strptime_demo (PyInt 330) ''2030-01-15'' 0 0 0 1
     = Some pricing_senior_330 \<and>
   subtotal_ieee pricing_senior_330 = PyFloat (Finite (8127589952520191 / 35184372088832)) \<and>
   (8127589952520191 / 35184372088832 :: rat)
     \<noteq> 330 * of_int 0 + 0 * of_int 0 + 330 * (1 / 2) * of_int 0 + 330 * (7 / 10) * of_int 1 \<and>
   final_price_ieee pricing_senior_330 = PyFloat (Finite (1828707739317043 / 8796093022208)) \<and>
   (1828707739317043 / 8796093022208 :: rat) \<noteq> 231 - 231 * (1 / 10)"
  by (simp add: fare_senior_330) (simp add: pricing_senior_330_def)

text \<open>
  Claim C1, amended. The calculator works in binary floating point, and the formula of the
  claim holds up to rounding. For a base price \<open>p\<close> that is an int or a finite float, \<open>0\<close> or
  between \<open>2 ^ - 500\<close> and \<open>2 ^ 500\<close>, and counts between \<open>0\<close> and \<open>2 ^ 500\<close>, the calculator
  returns (it does not raise), and with
  \<open>S = p*adult + 0*infant + p*0.5*child + p*0.7*senior\<close>: the subtotal is a float within
  \<open>S * 2 ^ - 48\<close> of \<open>S\<close>; when the travel date parses and its month is January or February,
  the season savings are within \<open>(S * 0.10) * 2 ^ - 47\<close> of \<open>S * 0.10\<close> and the final price is
  within \<open>(S - S * 0.10) * 2 ^ - 47\<close> of \<open>S - S * 0.10\<close>; otherwise the season savings are
  \<open>0.0\<close> and the final price is within \<open>S * 2 ^ - 47\<close> of \<open>S\<close>.
\<close>

theorem C1_fare_within_rounding:
  assumes base: "base_price = PyInt n \<and> p = of_int n \<or> base_price = PyFloat (Finite p)"
    and p: "ranged (- 500) 500 p"
    and a: "0 \<le> a" "a \<le> 2 ^ 500" and i: "0 \<le> i" "i \<le> 2 ^ 500"
    and c: "0 \<le> c" "c \<le> 2 ^ 500" and s: "0 \<le> s" "s \<le> 2 ^ 500"
  shows "\<exists>pr sub sea fin.
           calculate_discounted_price_ieee strptime base_price ds a i c s = Some pr \<and>
           subtotal_ieee pr = PyFloat (Finite sub) \<and>
           season_savings_ieee (breakdown_ieee pr) = PyFloat (Finite sea) \<and>
           final_price_ieee pr = PyFloat (Finite fin) \<and>
           (let S = p * of_int a + 0 * of_int i + p * (1 / 2) * of_int c
                      + p * (7 / 10) * of_int s
            in \<bar>sub - S\<bar> \<le> S / 2 ^ 48 \<and>
               (if (case strptime ds of None \<Rightarrow> False | Some d \<Rightarrow> month d \<in> {1, 2})
                then \<bar>sea - S * (1 / 10)\<bar> \<le> S * (1 / 10) / 2 ^ 47 \<and>
                     \<bar>fin - (S - S * (1 / 10))\<bar> \<le> (S - S * (1 / 10)) / 2 ^ 47
                else sea = 0 \<and> \<bar>fin - S\<bar> \<le> S / 2 ^ 47))"
proof -
  from p have p0: "0 \<le> p" by (rule ranged_nonneg)
  from base p0 have b: "approx 0 p base_price" by (auto simp: near_def)
  define A where "A = p * of_int a"
  define I0 where "I0 = p * of_int i * 0"
  define I1 where "I1 = p * of_int i * 1"
  define C where "C = p * of_int c * (1 / 2)"
  define N7 where "N7 = p * of_int s * (7 / 10)"
  define N3 where "N3 = p * of_int s * (3 / 10)"
  define S where "S = A + I0 + C + N7"
  note ra = ranged_count [OF a]
  from ranged_mult [OF p ra] have rA': "ranged (- 500) 1000 (p * of_int a)" by simp
  then have rA: "ranged (- 504) 1000 A" unfolding A_def by (rule ranged_weaken) simp_all
  from py_mul_approx [OF b approx_count [OF a(1)] _ _ ranged_ok [OF p] ranged_ok [OF ra]
      ranged_ok [OF rA']]
  obtain pa where pa: "py_mul base_price (PyInt a) = Some pa" "approx 4 A pa"
    by (auto simp: A_def)
  from category_prices [OF b p i approx_constants(1) _ ranged_zero approx_constants(2) _
      ranged_constants(1)]
  obtain xi pi si where
    xi: "py_mul base_price (PyInt i) = Some xi" and
    pi: "py_mul xi (PyFloat (Finite 0)) = Some pi" "approx 8 I0 pi" "ranged (- 504) 1000 I0" and
    si: "py_mul xi (PyFloat (Finite 1)) = Some si" "approx 8 I1 si" "ranged (- 504) 1000 I1"
    unfolding I0_def I1_def by auto
  from category_prices [OF b p c approx_constants(3) _ ranged_constants(2) approx_constants(3) _
      ranged_constants(2)]
  obtain xc pc where
    xc: "py_mul base_price (PyInt c) = Some xc" and
    pc: "py_mul xc (PyFloat (Finite (1 / 2))) = Some pc" "approx 8 C pc" "ranged (- 504) 1000 C"
    unfolding C_def by auto
  from category_prices [OF b p s approx_constants(6) _ ranged_constants(5) approx_constants(4) _
      ranged_constants(3)]
  obtain xs ps ss where
    xs: "py_mul base_price (PyInt s) = Some xs" and
    ps: "py_mul xs (PyFloat (Finite (3152519739159347 / 4503599627370496))) = Some ps"
        "approx 9 N7 ps" "ranged (- 504) 1000 N7" and
    ss: "py_mul xs (PyFloat (Finite (5404319552844595 / 18014398509481984))) = Some ss"
        "approx 9 N3 ss" "ranged (- 504) 1000 N3"
    unfolding N7_def N3_def by auto
  from ranged_add [OF rA pi(3)] have r1: "ranged (- 504) 1001 (A + I0)" by simp
  from py_add_approx [OF pa(2) pi(2) _ _ ranged_ok [OF rA] ranged_ok [OF pi(3)] ranged_ok [OF r1]]
  obtain x1 where x1: "py_add pa pi = Some x1" "approx 10 (A + I0) x1" by auto
  from pc(3) have rC: "ranged (- 504) 1001 C" by (rule ranged_weaken) simp_all
  from ranged_add [OF r1 rC] have r2: "ranged (- 504) 1002 (A + I0 + C)" by simp
  from py_add_approx [OF x1(2) pc(2) _ _ ranged_ok [OF r1] ranged_ok [OF pc(3)] ranged_ok [OF r2]]
  obtain x2 where x2: "py_add x1 pc = Some x2" "approx 12 (A + I0 + C) x2" by auto
  from ps(3) have rN: "ranged (- 504) 1002 N7" by (rule ranged_weaken) simp_all
  from ranged_add [OF r2 rN] have rS': "ranged (- 504) 1003 (A + I0 + C + N7)" by simp
  then have rS: "ranged (- 504) 1003 S" by (simp add: S_def)
  from py_add_approx [OF x2(2) ps(2) _ _ ranged_ok [OF r2] ranged_ok [OF ps(3)]
      ranged_ok [OF rS']]
  obtain sub where sub: "py_add x2 ps = Some sub" "approx 14 S sub" by (auto simp: S_def)
  from py_mul_is_float [OF pi(1)] have "\<exists>d. pi = PyFloat d" by simp
  with py_add_is_float [OF x1(1)] have "\<exists>d. x1 = PyFloat d" by simp
  with py_add_is_float [OF x2(1)] have "\<exists>d. x2 = PyFloat d" by simp
  with py_add_is_float [OF sub(1)] have sub_float: "\<exists>d. sub = PyFloat d" by simp
  from approx_is_float [OF sub(2) sub_float] obtain ysub where
    ysub: "sub = PyFloat (Finite ysub)" "near 14 S ysub" by blast
  from rS have S0: "0 \<le> S" by (rule ranged_nonneg)
  from ranged_add [OF si(3) pc(3)] have r3: "ranged (- 504) 1001 (I1 + C)" by simp
  from py_add_approx [OF si(2) pc(2) _ _ ranged_ok [OF si(3)] ranged_ok [OF pc(3)]
      ranged_ok [OF r3]]
  obtain y1 where y1: "py_add si pc = Some y1" "approx 10 (I1 + C) y1" by auto
  from ss(3) have rN3: "ranged (- 504) 1001 N3" by (rule ranged_weaken) simp_all
  from ranged_add [OF r3 rN3] have r4: "ranged (- 504) 1002 (I1 + C + N3)" by simp
  from py_add_approx [OF y1(2) ss(2) _ _ ranged_ok [OF r3] ranged_ok [OF ss(3)] ranged_ok [OF r4]]
  obtain tcd where tcd: "py_add y1 ss = Some tcd" "approx 12 (I1 + C + N3) tcd" by auto
  let ?off = "case strptime ds of None \<Rightarrow> False | Some d \<Rightarrow> month d \<in> {1, 2}"
  let ?season = "case strptime ds of
           None \<Rightarrow> Some (literal 0)
         | Some parsed_date \<Rightarrow>
             if month parsed_date \<in> {1, 2}
             then py_mul sub (PyFloat (Finite (3602879701896397 / 36028797018963968)))
             else Some (literal 0)"
  have "\<exists>sea fin td ysea yfin.
          ?season = Some sea \<and> py_sub sub sea = Some fin \<and> py_add tcd sea = Some td \<and>
          sea = PyFloat (Finite ysea) \<and> fin = PyFloat (Finite yfin) \<and>
          (if ?off then near 19 (S * (1 / 10)) ysea \<and> near 20 (S - S * (1 / 10)) yfin
           else ysea = 0 \<and> near 16 S yfin)"
  proof (cases ?off)
    case True
    then have season: "?season = py_mul sub (PyFloat (Finite (3602879701896397 / 36028797018963968)))"
      by (cases "strptime ds") (simp_all add: literals)
    from ranged_mult [OF rS ranged_constants(4)]
    have rsea: "ranged (- 508) 1003 (S * (1 / 10))" by simp
    from py_mul_approx [OF sub(2) approx_constants(5) _ _ ranged_ok [OF rS]
        ranged_ok [OF ranged_constants(4)] ranged_ok [OF rsea]]
    obtain sea where sea: "py_mul sub (PyFloat (Finite (3602879701896397 / 36028797018963968)))
        = Some sea" "approx 19 (S * (1 / 10)) sea"
      by auto
    from py_mul_is_float [OF sea(1)] have "\<exists>d. sea = PyFloat d" by simp
    from approx_is_float [OF sea(2) this] obtain ysea where
      ysea: "sea = PyFloat (Finite ysea)" "near 19 (S * (1 / 10)) ysea" by blast
    have eq: "S - S * (1 / 10) = S * (9 / 10)" by simp
    from ranged_mult [OF rS ranged_constants(6)]
    have rfin: "ranged (- 508) 1003 (S - S * (1 / 10))" unfolding eq by simp
    have le: "S * (1 / 10) \<le> S" using S0 by simp
    have m: "of_nat (Suc 14) * S + of_nat (Suc 19) * (S * (1 / 10))
               \<le> of_nat 19 * (S - S * (1 / 10))"
      using S0 by simp
    from py_sub_approx [OF sub(2) sea(2) _ _ ranged_ok [OF rS] ranged_ok [OF rsea]
        ranged_ok [OF rfin] le m]
    obtain fin where fin: "py_sub sub sea = Some fin" "approx 20 (S - S * (1 / 10)) fin"
      by auto
    from py_sub_is_float [OF fin(1)] sub_float have "\<exists>d. fin = PyFloat d" by simp
    from approx_is_float [OF fin(2) this] obtain yfin where
      yfin: "fin = PyFloat (Finite yfin)" "near 20 (S - S * (1 / 10)) yfin" by blast
    from r4 have r4': "ranged (- 508) 1003 (I1 + C + N3)" by (rule ranged_weaken) simp_all
    from ranged_add [OF r4' rsea]
    have rtd: "ranged (- 508) 1004 (I1 + C + N3 + S * (1 / 10))" by simp
    from py_add_approx [OF tcd(2) sea(2) _ _ ranged_ok [OF r4] ranged_ok [OF rsea]
        ranged_ok [OF rtd]]
    obtain td where td: "py_add tcd sea = Some td" by auto
    from True season sea(1) fin(1) td ysea yfin show ?thesis by simp
  next
    case False
    then have season: "?season = Some (PyFloat (Finite 0))"
      by (cases "strptime ds") (simp_all add: literals)
    have m: "of_nat (Suc 14) * S + of_nat (Suc 0) * 0 \<le> of_nat 15 * (S - 0)" by simp
    from ranged_ok [OF rS] have rS0: "ranged (- 1020) 1020 (S - 0)" by simp
    from py_sub_approx [OF sub(2) approx_constants(1) _ _ ranged_ok [OF rS]
        ranged_ok [OF ranged_zero] rS0 S0 m]
    obtain fin where fin: "py_sub sub (PyFloat (Finite 0)) = Some fin" "approx 16 S fin"
      by auto
    from py_sub_is_float [OF fin(1)] have "\<exists>d. fin = PyFloat d" by simp
    from approx_is_float [OF fin(2) this] obtain yfin where
      yfin: "fin = PyFloat (Finite yfin)" "near 16 S yfin" by blast
    from ranged_ok [OF r4] have r40: "ranged (- 1020) 1020 (I1 + C + N3 + 0)" by simp
    from py_add_approx [OF tcd(2) approx_constants(1) _ _ ranged_ok [OF r4]
        ranged_ok [OF ranged_zero] r40]
    obtain td where td: "py_add tcd (PyFloat (Finite 0)) = Some td"
      by auto
    from False season fin(1) td yfin show ?thesis by simp
  qed
  then obtain sea fin td ysea yfin where
    season: "?season = Some sea" and fin: "py_sub sub sea = Some fin" and
    td: "py_add tcd sea = Some td" and
    ysea: "sea = PyFloat (Finite ysea)" and yfin: "fin = PyFloat (Finite yfin)" and
    bounds: "if ?off then near 19 (S * (1 / 10)) ysea \<and> near 20 (S - S * (1 / 10)) yfin
             else ysea = 0 \<and> near 16 S yfin"
    by blast
  note rate_eqs = one_minus_rate [unfolded rates]
  have result: "calculate_discounted_price_ieee strptime base_price ds a i c s =
      Some \<lparr> final_price_ieee = fin,
             base_price_per_ticket_ieee = base_price,
             adults_tickets_ieee = a,
             infant_tickets_ieee = i,
             children_tickets_ieee = c,
             seniors_tickets_ieee = s,
             subtotal_ieee = sub,
             total_discount_ieee = td,
             breakdown_ieee = \<lparr> infant_savings_ieee = si,
                                 child_savings_ieee = pc,
                                 senior_savings_ieee = ss,
                                 season_savings_ieee = sea \<rparr> \<rparr>"
    unfolding calculate_discounted_price_ieee_def Let_def
    by (simp only: pa(1) xi pi(1) si(1) xc pc(1) xs ps(1) ss(1) x1(1) x2(1) sub(1)
        y1(1) tcd(1) season fin td rate_eqs rates Option.bind.simps)
  have Seq: "p * of_int a + 0 * of_int i + p * (1 / 2) * of_int c + p * (7 / 10) * of_int s = S"
    by (simp add: S_def A_def I0_def C_def N7_def)
  have b48: "\<bar>ysub - S\<bar> \<le> S / 2 ^ 48"
    using near_bound [OF ysub(2), of 4] by simp
  have rest: "if ?off
        then \<bar>ysea - S * (1 / 10)\<bar> \<le> S * (1 / 10) / 2 ^ 47 \<and>
             \<bar>yfin - (S - S * (1 / 10))\<bar> \<le> (S - S * (1 / 10)) / 2 ^ 47
        else ysea = 0 \<and> \<bar>yfin - S\<bar> \<le> S / 2 ^ 47"
  proof (cases ?off)
    case True
    with bounds have n: "near 19 (S * (1 / 10)) ysea" "near 20 (S - S * (1 / 10)) yfin"
      by simp_all
    from near_bound [OF n(1), of 5] near_bound [OF n(2), of 5] True show ?thesis by simp
  next
    case False
    with bounds have n: "ysea = 0" "near 16 S yfin" by simp_all
    from near_bound [OF n(2), of 5] n(1) False show ?thesis by simp
  qed
  show ?thesis
    unfolding Seq Let_def
    using result ysub(1) ysea yfin b48 rest by simp
qed

theorem C1_fare_within_rounding_witness:
  "ranged (- 500) 500 1000 \<and>
   calculate_discounted_price_ieee strptime_demo (PyInt 1000) ''2030-01-15'' 2 1 1 1
     = Some pricing_demo_ieee \<and>
   subtotal_ieee pricing_demo_ieee = PyFloat (Finite 3200) \<and>
   season_savings_ieee (breakdown_ieee pricing_demo_ieee) = PyFloat (Finite 320) \<and>
   final_price_ieee pricing_demo_ieee = PyFloat (Finite 2880) \<and>
   (\<exists>pr sub sea fin.
      calculate_discounted_price_ieee strptime_demo (PyInt 1000) ''2030-01-15'' 2 1 1 1
        = Some pr \<and>
      subtotal_ieee pr = PyFloat (Finite sub) \<and>
      season_savings_ieee (breakdown_ieee pr) = PyFloat (Finite sea) \<and>
      final_price_ieee pr = PyFloat (Finite fin) \<and>
      \<bar>sub - 3200\<bar> \<le> 3200 / 2 ^ 48 \<and> \<bar>sea - 320\<bar> \<le> 320 / 2 ^ 47 \<and>
      \<bar>fin - 2880\<bar> \<le> 2880 / 2 ^ 47)"
proof -
  have "ranged 0 10 1000" by (simp add: ranged_def)
  then have r: "ranged (- 500) 500 1000" by (rule ranged_weaken) simp_all
  have c: "(2::int) \<le> 2 ^ 500" "(1::int) \<le> 2 ^ 500" by simp_all
  have january: "(case strptime_demo ''2030-01-15'' of None \<Rightarrow> False
                  | Some d \<Rightarrow> month d \<in> {1, 2})"
    by (simp add: strptime_demo_def)
  from C1_fare_within_rounding [where base_price = "PyInt 1000" and n = 1000 and p = 1000
      and a = 2 and i = 1 and c = 1 and s = 1 and strptime = strptime_demo
      and ds = "''2030-01-15''", OF _ r _ c(1) _ c(2) _ c(2) _ c(2)]
  obtain pr sub sea fin where
    pr: "calculate_discounted_price_ieee strptime_demo (PyInt 1000) ''2030-01-15'' 2 1 1 1
           = Some pr"
        "subtotal_ieee pr = PyFloat (Finite sub)"
        "season_savings_ieee (breakdown_ieee pr) = PyFloat (Finite sea)"
        "final_price_ieee pr = PyFloat (Finite fin)" and
    b: "let S = 1000 * of_int 2 + 0 * of_int 1 + 1000 * (1 / 2) * of_int 1
                  + 1000 * (7 / 10) * of_int 1
        in \<bar>sub - S\<bar> \<le> S / 2 ^ 48 \<and>
           (if (case strptime_demo ''2030-01-15'' of None \<Rightarrow> False
                | Some d \<Rightarrow> month d \<in> {1, 2})
            then \<bar>sea - S * (1 / 10)\<bar> \<le> S * (1 / 10) / 2 ^ 47 \<and>
                 \<bar>fin - (S - S * (1 / 10))\<bar> \<le> (S - S * (1 / 10)) / 2 ^ 47
            else sea = 0 \<and> \<bar>fin - S\<bar> \<le> S / 2 ^ 47)"
    by auto
  from b january have "\<bar>sub - 3200\<bar> \<le> 3200 / 2 ^ 48 \<and> \<bar>sea - 320\<bar> \<le> 320 / 2 ^ 47 \<and>
      \<bar>fin - 2880\<bar> \<le> 2880 / 2 ^ 47"
    by (simp add: Let_def)
  with pr have "\<exists>pr sub sea fin.
      calculate_discounted_price_ieee strptime_demo (PyInt 1000) ''2030-01-15'' 2 1 1 1
        = Some pr \<and>
      subtotal_ieee pr = PyFloat (Finite sub) \<and>
      season_savings_ieee (breakdown_ieee pr) = PyFloat (Finite sea) \<and>
      final_price_ieee pr = PyFloat (Finite fin) \<and>
      \<bar>sub - 3200\<bar> \<le> 3200 / 2 ^ 48 \<and> \<bar>sea - 320\<bar> \<le> 320 / 2 ^ 47 \<and>
      \<bar>fin - 2880\<bar> \<le> 2880 / 2 ^ 47"
    by blast
  moreover have "subtotal_ieee pricing_demo_ieee = PyFloat (Finite 3200)"
    "season_savings_ieee (breakdown_ieee pricing_demo_ieee) = PyFloat (Finite 320)"
    "final_price_ieee pricing_demo_ieee = PyFloat (Finite 2880)"
    by (simp_all add: pricing_demo_ieee_def)
  ultimately show ?thesis using r fare_demo_ieee by blast
qed

section \<open>The refund in floating point\<close>

text \<open>
  The price of one ticket of a category, against its exact value \<open>ticket_paid_price\<close>.
\<close>

lemma ticket_price_approx:
  assumes b: "approx 0 B base_price" and B: "ranged (- 500) 500 B"
  shows "\<exists>tp. ticket_paid_price_ieee key base_price = Some tp \<and> (\<exists>d. tp = PyFloat d) \<and>
           approx 5 (ticket_paid_price key B) tp \<and> ranged (- 504) 500 (ticket_paid_price key B)"
proof -
  have *: "\<exists>tp. py_mul base_price rate = Some tp \<and> (\<exists>d. tp = PyFloat d) \<and>
              approx 5 (B * R) tp \<and> ranged (- 504) 500 (B * R)"
    if r: "approx k R rate" "k \<le> 1" "ranged (- 4) 0 R" "\<exists>d. rate = PyFloat d" for k R rate
  proof -
    from ranged_mult [OF B r(3)] have BR: "ranged (- 504) 500 (B * R)" by simp
    from py_mul_approx [OF b r(1) _ _ ranged_ok [OF B] ranged_ok [OF r(3)] ranged_ok [OF BR]] r(2)
    obtain tp where tp: "py_mul base_price rate = Some tp" "approx (0 + k + 4) (B * R) tp"
      by auto
    from tp(2) r(2) have "approx 5 (B * R) tp" by (intro approx_mono [OF tp(2)]) simp
    with tp(1) py_mul_is_float [OF tp(1)] r(4) BR show ?thesis by blast
  qed
  show ?thesis
  proof (cases key)
    case Adult
    from * [OF approx_constants(2) _ ranged_constants(1)] Adult show ?thesis
      by (simp add: literals)
  next
    case Infant
    then show ?thesis by (simp add: literals near_def ranged_zero)
  next
    case Child
    from * [OF approx_constants(3) _ ranged_constants(2)] Child show ?thesis
      by (simp add: literal_one_minus_rate)
  next
    case Senior
    from * [OF approx_constants(6) _ ranged_constants(5)] Senior show ?thesis
      by (simp add: literal_one_minus_rate)
  qed
qed

text \<open>
  The loop over the categories: unless it is still at a prompt, it finishes, and every
  category adds at most two units to the error of the gross refund.
\<close>

lemma ask_cancellations_ieee_approx:
  assumes b: "approx 0 B (base_price_per_ticket_ieee p)" and B: "ranged (- 500) 500 B"
    and counts: "\<forall>key. p_get_ieee p key \<le> 2 ^ 500"
  shows "approx k G (total_refund_gross_ieee t) \<Longrightarrow>
         (\<exists>d. total_refund_gross_ieee t = PyFloat d) \<Longrightarrow>
         ranged (- 504) h G \<Longrightarrow> 9 \<le> k \<Longrightarrow> k + 2 * length keys \<le> 400 \<Longrightarrow>
         1000 \<le> h \<Longrightarrow> h + int (length keys) \<le> 1020 \<Longrightarrow>
         ask_cancellations_ieee p answers keys t \<noteq> StillAsking \<Longrightarrow>
         \<exists>t' cs. ask_cancellations_ieee p answers keys t = Finished t' \<and>
           cancellations_ieee t' = cancellations_ieee t @ cs \<and> map fst cs = keys \<and>
           (\<forall>(key, cnt) \<in> set cs. 0 \<le> cnt) \<and>
           total_cancelled_seats_ieee t' = total_cancelled_seats_ieee t + sum_list (map snd cs) \<and>
           (\<exists>d. total_refund_gross_ieee t' = PyFloat d) \<and>
           approx (k + 2 * length keys)
             (G + (\<Sum>(key, cnt) \<leftarrow> cs. of_int cnt * ticket_paid_price key B))
             (total_refund_gross_ieee t') \<and>
           ranged (- 504) (h + int (length keys))
             (G + (\<Sum>(key, cnt) \<leftarrow> cs. of_int cnt * ticket_paid_price key B))"
proof (induction keys arbitrary: t k h G)
  case Nil
  then show ?case by simp
next
  case (Cons key keys)
  let ?rem = "p_get_ieee p key"
  show ?case
  proof (cases "?rem > 0")
    case False
    let ?t1 = "t\<lparr>cancellations_ieee := cancellations_ieee t @ [(key, 0)]\<rparr>"
    from False have step: "ask_cancellations_ieee p answers (key # keys) t
        = ask_cancellations_ieee p answers keys ?t1"
      by simp
    have 1: "approx (k + 2) G (total_refund_gross_ieee ?t1)"
      using Cons.prems(1) by (simp add: approx_mono)
    have 2: "ranged (- 504) (h + 1) G"
      using Cons.prems(3) by (rule ranged_weaken) simp_all
    from Cons.IH [of "k + 2" G ?t1 "h + 1", OF 1 _ 2] Cons.prems step
    obtain t' cs where
      r: "ask_cancellations_ieee p answers keys ?t1 = Finished t'"
         "cancellations_ieee t' = cancellations_ieee ?t1 @ cs" "map fst cs = keys"
         "\<forall>(key, cnt) \<in> set cs. 0 \<le> cnt"
         "total_cancelled_seats_ieee t' = total_cancelled_seats_ieee ?t1 + sum_list (map snd cs)"
         "\<exists>d. total_refund_gross_ieee t' = PyFloat d"
         "approx (k + 2 + 2 * length keys)
             (G + (\<Sum>(key, cnt) \<leftarrow> cs. of_int cnt * ticket_paid_price key B))
             (total_refund_gross_ieee t')"
         "ranged (- 504) (h + 1 + int (length keys))
             (G + (\<Sum>(key, cnt) \<leftarrow> cs. of_int cnt * ticket_paid_price key B))"
      by auto
    have concl: "ask_cancellations_ieee p answers (key # keys) t = Finished t' \<and>
           cancellations_ieee t' = cancellations_ieee t @ ((key, 0) # cs) \<and>
           map fst ((key, 0) # cs) = key # keys \<and>
           (\<forall>(key, cnt) \<in> set ((key, 0) # cs). 0 \<le> cnt) \<and>
           total_cancelled_seats_ieee t'
             = total_cancelled_seats_ieee t + sum_list (map snd ((key, 0) # cs)) \<and>
           (\<exists>d. total_refund_gross_ieee t' = PyFloat d) \<and>
           approx (k + 2 * length (key # keys))
             (G + (\<Sum>(key, cnt) \<leftarrow> (key, 0) # cs. of_int cnt * ticket_paid_price key B))
             (total_refund_gross_ieee t') \<and>
           ranged (- 504) (h + int (length (key # keys)))
             (G + (\<Sum>(key, cnt) \<leftarrow> (key, 0) # cs. of_int cnt * ticket_paid_price key B))"
    proof (intro conjI)
      show "ask_cancellations_ieee p answers (key # keys) t = Finished t'"
        by (simp only: step r(1))
      have sum0: "(\<Sum>(key, cnt) \<leftarrow> (key, 0) # cs. of_int cnt * ticket_paid_price key B)
          = (\<Sum>(key, cnt) \<leftarrow> cs. of_int cnt * ticket_paid_price key B)" by simp
      have idx: "h + int (length (key # keys)) = h + 1 + int (length keys)"
        "k + 2 * length (key # keys) = k + 2 + 2 * length keys" by simp_all
      show "approx (k + 2 * length (key # keys))
             (G + (\<Sum>(key, cnt) \<leftarrow> (key, 0) # cs. of_int cnt * ticket_paid_price key B))
             (total_refund_gross_ieee t')"
        unfolding sum0 idx by (rule r(7))
      show "ranged (- 504) (h + int (length (key # keys)))
             (G + (\<Sum>(key, cnt) \<leftarrow> (key, 0) # cs. of_int cnt * ticket_paid_price key B))"
        unfolding sum0 idx by (rule r(8))
    qed (use r in simp_all)
    show ?thesis
      by (rule exI [of _ t'], rule exI [of _ "(key, 0) # cs"]) (fact concl)
  next
    case True
    let ?found = "find (\<lambda>cancel_count. 0 \<le> cancel_count \<and> cancel_count \<le> ?rem) (answers key)"
    from True Cons.prems(8) obtain cnt where found: "?found = Some cnt"
      by (cases ?found) simp_all
    then have cnt: "0 \<le> cnt" "cnt \<le> ?rem" by (auto simp: find_Some_iff)
    with counts have cnt500: "cnt \<le> 2 ^ 500" using order_trans by blast
    let ?T = "ticket_paid_price key B"
    from ticket_price_approx [OF b B, of key] obtain tp where
      tp: "ticket_paid_price_ieee key (base_price_per_ticket_ieee p) = Some tp"
          "\<exists>d. tp = PyFloat d" "approx 5 ?T tp" "ranged (- 504) 500 ?T"
      by blast
    note rc = ranged_count [OF cnt(1) cnt500]
    from ranged_mult [OF rc tp(4)] have rx: "ranged (- 504) 1000 (of_int cnt * ?T)" by simp
    from py_mul_approx [OF approx_count [OF cnt(1)] tp(3) _ _ ranged_ok [OF rc]
        ranged_ok [OF tp(4)] ranged_ok [OF rx]]
    obtain x where x: "py_mul (PyInt cnt) tp = Some x" "approx 9 (of_int cnt * ?T) x"
      by auto
    from rx Cons.prems(6) have rx': "ranged (- 504) h (of_int cnt * ?T)"
      by (intro ranged_weaken [OF rx]) simp_all
    from ranged_add [OF Cons.prems(3) rx']
    have rg: "ranged (- 504) (h + 1) (G + of_int cnt * ?T)" .
    from Cons.prems(7) have h: "h + 1 \<le> 1020" "h \<le> 1020" by simp_all
    from Cons.prems(5) have k: "k \<le> 400" by simp
    from py_add_approx [OF Cons.prems(1) x(2) k _ ranged_ok [OF Cons.prems(3)]
        ranged_ok [OF rx] ranged_ok [OF rg]] h
    obtain g where g: "py_add (total_refund_gross_ieee t) x = Some g"
        "approx (max k 9 + 2) (G + of_int cnt * ?T) g"
      by auto
    from py_add_is_float [OF g(1)] Cons.prems(2) have gf: "\<exists>d. g = PyFloat d" by simp
    let ?t1 = "\<lparr> cancellations_ieee = cancellations_ieee t @ [(key, cnt)],
                 total_cancelled_seats_ieee = total_cancelled_seats_ieee t + cnt,
                 total_refund_gross_ieee = g \<rparr>"
    from True found tp(1) x(1) g(1) have step: "ask_cancellations_ieee p answers (key # keys) t
        = ask_cancellations_ieee p answers keys ?t1"
      by simp
    from g(2) Cons.prems(4) have 1: "approx (k + 2) (G + of_int cnt * ?T)
        (total_refund_gross_ieee ?t1)"
      by (simp add: max_def)
    from Cons.IH [of "k + 2" "G + of_int cnt * ?T" ?t1 "h + 1", OF 1 _ rg] gf Cons.prems step
    obtain t' cs where
      r: "ask_cancellations_ieee p answers keys ?t1 = Finished t'"
         "cancellations_ieee t' = cancellations_ieee ?t1 @ cs" "map fst cs = keys"
         "\<forall>(key, cnt) \<in> set cs. 0 \<le> cnt"
         "total_cancelled_seats_ieee t' = total_cancelled_seats_ieee ?t1 + sum_list (map snd cs)"
         "\<exists>d. total_refund_gross_ieee t' = PyFloat d"
         "approx (k + 2 + 2 * length keys)
             (G + of_int cnt * ?T + (\<Sum>(key, cnt) \<leftarrow> cs. of_int cnt * ticket_paid_price key B))
             (total_refund_gross_ieee t')"
         "ranged (- 504) (h + 1 + int (length keys))
             (G + of_int cnt * ?T + (\<Sum>(key, cnt) \<leftarrow> cs. of_int cnt * ticket_paid_price key B))"
      by auto
    have concl: "ask_cancellations_ieee p answers (key # keys) t = Finished t' \<and>
           cancellations_ieee t' = cancellations_ieee t @ ((key, cnt) # cs) \<and>
           map fst ((key, cnt) # cs) = key # keys \<and>
           (\<forall>(key, cnt) \<in> set ((key, cnt) # cs). 0 \<le> cnt) \<and>
           total_cancelled_seats_ieee t'
             = total_cancelled_seats_ieee t + sum_list (map snd ((key, cnt) # cs)) \<and>
           (\<exists>d. total_refund_gross_ieee t' = PyFloat d) \<and>
           approx (k + 2 * length (key # keys))
             (G + (\<Sum>(key, cnt) \<leftarrow> (key, cnt) # cs. of_int cnt * ticket_paid_price key B))
             (total_refund_gross_ieee t') \<and>
           ranged (- 504) (h + int (length (key # keys)))
             (G + (\<Sum>(key, cnt) \<leftarrow> (key, cnt) # cs. of_int cnt * ticket_paid_price key B))"
    proof (intro conjI)
      show "ask_cancellations_ieee p answers (key # keys) t = Finished t'"
        by (simp only: step r(1))
      have sum0: "G + (\<Sum>(key, cnt) \<leftarrow> (key, cnt) # cs. of_int cnt * ticket_paid_price key B)
          = G + of_int cnt * ?T + (\<Sum>(key, cnt) \<leftarrow> cs. of_int cnt * ticket_paid_price key B)"
        by simp
      have idx: "h + int (length (key # keys)) = h + 1 + int (length keys)"
        "k + 2 * length (key # keys) = k + 2 + 2 * length keys" by simp_all
      show "approx (k + 2 * length (key # keys))
             (G + (\<Sum>(key, cnt) \<leftarrow> (key, cnt) # cs. of_int cnt * ticket_paid_price key B))
             (total_refund_gross_ieee t')"
        unfolding sum0 idx by (rule r(7))
      show "ranged (- 504) (h + int (length (key # keys)))
             (G + (\<Sum>(key, cnt) \<leftarrow> (key, cnt) # cs. of_int cnt * ticket_paid_price key B))"
        unfolding sum0 idx by (rule r(8))
    qed (use r cnt(1) in simp_all)
    show ?thesis
      by (rule exI [of _ t'], rule exI [of _ "(key, cnt) # cs"]) (fact concl)
  qed
qed

text \<open>
  The numbers of a cancellation against the exact values. For a stored base price \<open>B\<close> that
  is an int or a finite float, \<open>0\<close> or between \<open>2 ^ - 500\<close> and \<open>2 ^ 500\<close>, and stored
  counts up to \<open>2 ^ 500\<close>, the loop, once every prompt has got an answer in range, finishes
  with one cancel count per category, and the gross refund, the fee and the net refund are
  floats within \<open>2 ^ - 47\<close>, relatively, of their exact values.
\<close>

lemma refund_within_rounding:
  assumes base: "base_price_per_ticket_ieee p = PyInt n \<and> B = of_int n \<or>
                 base_price_per_ticket_ieee p = PyFloat (Finite B)"
    and B: "ranged (- 500) 500 B"
    and counts: "\<forall>key. p_get_ieee p key \<le> 2 ^ 500"
    and answered: "ask_cancellations_ieee p answers categories tally_start \<noteq> StillAsking"
  shows "\<exists>t ca ci cc cs gross fee net.
           ask_cancellations_ieee p answers categories tally_start = Finished t \<and>
           cancellations_ieee t = [(Adult, ca), (Infant, ci), (Child, cc), (Senior, cs)] \<and>
           total_cancelled_seats_ieee t = ca + ci + cc + cs \<and>
           total_refund_gross_ieee t = PyFloat (Finite gross) \<and>
           cancellation_fee_ieee (total_refund_gross_ieee t) = Some (PyFloat (Finite fee)) \<and>
           net_refund_ieee (total_refund_gross_ieee t) = Some (PyFloat (Finite net)) \<and>
           (let G = of_int ca * B + of_int ci * 0 + of_int cc * ((1 / 2) * B)
                      + of_int cs * ((7 / 10) * B)
            in \<bar>gross - G\<bar> \<le> G / 2 ^ 47 \<and>
               \<bar>fee - G * (1 / 10)\<bar> \<le> G * (1 / 10) / 2 ^ 47 \<and>
               \<bar>net - G * (9 / 10)\<bar> \<le> G * (9 / 10) / 2 ^ 47)"
proof -
  from B have B0: "0 \<le> B" by (rule ranged_nonneg)
  from base B0 have b: "approx 0 B (base_price_per_ticket_ieee p)" by (auto simp: near_def)
  have start: "approx 9 0 (total_refund_gross_ieee tally_start)"
    "\<exists>d. total_refund_gross_ieee tally_start = PyFloat d"
    "cancellations_ieee tally_start = []" "total_cancelled_seats_ieee tally_start = 0"
    by (simp_all add: tally_start_def literals near_def)
  have len: "9 + 2 * length categories \<le> 400" "1000 + int (length categories) \<le> 1020"
    by (simp_all add: categories_def)
  from ask_cancellations_ieee_approx [OF b B counts start(1,2) ranged_zero _ len(1) _ len(2)
      answered]
  obtain t xs where
    t: "ask_cancellations_ieee p answers categories tally_start = Finished t" and
    xs: "cancellations_ieee t = xs" "map fst xs = categories"
        "total_cancelled_seats_ieee t = sum_list (map snd xs)" and
    gf: "\<exists>d. total_refund_gross_ieee t = PyFloat d" and
    ga: "approx (9 + 2 * length categories)
           (0 + (\<Sum>(key, cnt) \<leftarrow> xs. of_int cnt * ticket_paid_price key B))
           (total_refund_gross_ieee t)" and
    gr: "ranged (- 504) (1000 + int (length categories))
           (0 + (\<Sum>(key, cnt) \<leftarrow> xs. of_int cnt * ticket_paid_price key B))"
    using start(3,4) by auto
  from xs(2) obtain ca ci cc cs where
    shape: "xs = [(Adult, ca), (Infant, ci), (Child, cc), (Senior, cs)]"
    by (auto simp: categories_def map_eq_Cons_conv)
  define G where "G = of_int ca * B + of_int ci * 0 + of_int cc * ((1 / 2) * B)
                      + of_int cs * ((7 / 10) * B)"
  have Geq: "0 + (\<Sum>(key, cnt) \<leftarrow> xs. of_int cnt * ticket_paid_price key B) = G"
    by (simp add: shape G_def)
  from ga have ga': "approx 17 G (total_refund_gross_ieee t)"
    unfolding Geq by (simp add: categories_def)
  from gr have rG: "ranged (- 504) 1004 G"
    unfolding Geq by (simp add: categories_def)
  from rG have G0: "0 \<le> G" by (rule ranged_nonneg)
  from approx_is_float [OF ga' gf] obtain gross where
    gross: "total_refund_gross_ieee t = PyFloat (Finite gross)" "near 17 G gross" by blast
  have fee_def: "cancellation_fee_ieee (total_refund_gross_ieee t)
      = py_mul (total_refund_gross_ieee t)
          (PyFloat (Finite (3602879701896397 / 36028797018963968)))"
    by (simp add: cancellation_fee_ieee_def literals)
  from ranged_mult [OF rG ranged_constants(4)]
  have rfee: "ranged (- 508) 1004 (G * (1 / 10))" by simp
  from py_mul_approx [OF ga' approx_constants(5) _ _ ranged_ok [OF rG]
      ranged_ok [OF ranged_constants(4)] ranged_ok [OF rfee]]
  obtain vfee where vfee: "py_mul (total_refund_gross_ieee t)
        (PyFloat (Finite (3602879701896397 / 36028797018963968))) = Some vfee"
      "approx 22 (G * (1 / 10)) vfee"
    by auto
  from py_mul_is_float [OF vfee(1)] have "\<exists>d. vfee = PyFloat d" by simp
  from approx_is_float [OF vfee(2) this] obtain fee where
    fee: "vfee = PyFloat (Finite fee)" "near 22 (G * (1 / 10)) fee" by blast
  have eq: "G - G * (1 / 10) = G * (9 / 10)" by simp
  from ranged_mult [OF rG ranged_constants(6)]
  have rnet: "ranged (- 508) 1004 (G - G * (1 / 10))" unfolding eq by simp
  have le: "G * (1 / 10) \<le> G" using G0 by simp
  have m: "of_nat (Suc 17) * G + of_nat (Suc 22) * (G * (1 / 10))
             \<le> of_nat 23 * (G - G * (1 / 10))"
    using G0 by simp
  from py_sub_approx [OF ga' vfee(2) _ _ ranged_ok [OF rG] ranged_ok [OF rfee]
      ranged_ok [OF rnet] le m]
  obtain vnet where vnet: "py_sub (total_refund_gross_ieee t) vfee = Some vnet"
      "approx 24 (G - G * (1 / 10)) vnet"
    by auto
  from py_sub_is_float [OF vnet(1)] gf have "\<exists>d. vnet = PyFloat d" by simp
  from approx_is_float [OF vnet(2) this] obtain net where
    net: "vnet = PyFloat (Finite net)" "near 24 (G - G * (1 / 10)) net" by blast
  have fee_eq: "cancellation_fee_ieee (total_refund_gross_ieee t) = Some (PyFloat (Finite fee))"
    using fee_def vfee(1) fee(1) by simp
  have net_eq: "net_refund_ieee (total_refund_gross_ieee t) = Some (PyFloat (Finite net))"
    using fee_eq vnet(1) fee(1) net(1) by (simp add: net_refund_ieee_def)
  have bounds: "\<bar>gross - G\<bar> \<le> G / 2 ^ 47" "\<bar>fee - G * (1 / 10)\<bar> \<le> G * (1 / 10) / 2 ^ 47"
    "\<bar>net - G * (9 / 10)\<bar> \<le> G * (9 / 10) / 2 ^ 47"
    using near_bound [OF gross(2), of 5] near_bound [OF fee(2), of 5]
      near_bound [OF net(2), of 5]
    unfolding eq by simp_all
  have "ask_cancellations_ieee p answers categories tally_start = Finished t \<and>
           cancellations_ieee t = [(Adult, ca), (Infant, ci), (Child, cc), (Senior, cs)] \<and>
           total_cancelled_seats_ieee t = ca + ci + cc + cs \<and>
           total_refund_gross_ieee t = PyFloat (Finite gross) \<and>
           cancellation_fee_ieee (total_refund_gross_ieee t) = Some (PyFloat (Finite fee)) \<and>
           net_refund_ieee (total_refund_gross_ieee t) = Some (PyFloat (Finite net)) \<and>
           (let G = of_int ca * B + of_int ci * 0 + of_int cc * ((1 / 2) * B)
                      + of_int cs * ((7 / 10) * B)
            in \<bar>gross - G\<bar> \<le> G / 2 ^ 47 \<and>
               \<bar>fee - G * (1 / 10)\<bar> \<le> G * (1 / 10) / 2 ^ 47 \<and>
               \<bar>net - G * (9 / 10)\<bar> \<le> G * (9 / 10) / 2 ^ 47)"
    unfolding Let_def G_def [symmetric]
    using t xs(1,3) shape gross(1) fee_eq net_eq bounds by simp
  then show ?thesis by blast
qed

text \<open>
  One adult ticket of a booking with the base price 1000, as an int or as a float, and no
  ticket of another category: the amounts are exact.
\<close>

lemma refund_one_adult_1000:
  assumes base: "base_price_per_ticket_ieee p = PyInt 1000 \<or>
                 base_price_per_ticket_ieee p = PyFloat (Finite 1000)"
    and run: "ask_cancellations_ieee p answers categories tally_start = Finished t"
    and counts: "cancellations_ieee t = [(Adult, 1), (Infant, 0), (Child, 0), (Senior, 0)]"
  shows "total_refund_gross_ieee t = PyFloat (Finite 1000) \<and>
         cancellation_fee_ieee (total_refund_gross_ieee t) = Some (PyFloat (Finite 100)) \<and>
         net_refund_ieee (total_refund_gross_ieee t) = Some (PyFloat (Finite 900))"
proof -
  from base run counts have "total_refund_gross_ieee t = PyFloat (Finite 1000)"
    by (auto simp: categories_def tally_start_def Let_def ieee_defs roundings
        simp del: fadd.simps fsub.simps fmul.simps
        split: if_splits option.splits)
  with refund_demo_ieee(2,3) show ?thesis by simp
qed

text \<open>
  Claim C2 gives the refund as the exact value of its formulas. In the code the refund is a
  double: cancelling the one senior ticket of a booking with the base price 330, the formulas
  give the gross refund \<open>330 * 0.7 = 231\<close> and the net refund \<open>231 * 0.90 = 207.9\<close>, while
  the code computes the gross refund \<open>231 - 2 ^ - 45\<close> (\<^verbatim>\<open>230.99999999999997\<close>) and the net
  refund \<^verbatim>\<open>207.89999999999998\<close>, which is neither \<open>207.9\<close> nor \<open>0.90\<close> times the computed
  gross refund.
\<close>

theorem C2_exact_refund_counterexample:
  "base_price_per_ticket_ieee pricing_senior_330 = PyInt 330 \<and>
   ask_cancellations_ieee pricing_senior_330 all_tickets categories tally_start =
     Finished
       \<lparr> cancellations_ieee = [(Adult, 0), (Infant, 0), (Child, 0), (Senior, 1)],
         total_cancelled_seats_ieee = 1,
         total_refund_gross_ieee = PyFloat (Finite (8127589952520191 / 35184372088832)) \<rparr> \<and>
   (8127589952520191 / 35184372088832 :: rat)
     \<noteq> of_int 0 * 330 + of_int 0 * 0 + of_int 0 * ((1 / 2) * 330) + of_int 1 * ((7 / 10) * 330) \<and>
   net_refund_ieee (PyFloat (Finite (8127589952520191 / 35184372088832)))
     = Some (PyFloat (Finite (1828707739317043 / 8796093022208))) \<and>
   (1828707739317043 / 8796093022208 :: rat) \<noteq> 231 * (9 / 10) \<and>
   (1828707739317043 / 8796093022208 :: rat) \<noteq> 8127589952520191 / 35184372088832 * (9 / 10)"
  by (simp add: refund_senior_330) (simp add: pricing_senior_330_def)

text \<open>
  Claim C2, amended. The refund is computed in binary floating point, and the formulas of the
  claim hold up to rounding. For a stored base price \<open>B\<close> that is an int or a finite float,
  \<open>0\<close> or between \<open>2 ^ - 500\<close> and \<open>2 ^ 500\<close>, and stored counts up to \<open>2 ^ 500\<close>, the loop over
  the categories, once every prompt has got an answer in range, finishes (it does not raise)
  with one cancel count per category, and with
  \<open>G = adult * B + infant * 0 + child * (0.5 * B) + senior * (0.7 * B)\<close>, in which no season
  discount occurs: the gross refund is a float within \<open>G * 2 ^ - 47\<close> of \<open>G\<close>, the fee is
  within \<open>(G * 0.10) * 2 ^ - 47\<close> of \<open>G * 0.10\<close>, and the net refund is within
  \<open>(G * 0.90) * 2 ^ - 47\<close> of \<open>G * 0.90\<close>. In particular, cancelling one adult ticket and
  nothing else on a booking with the base price 1000 gives exactly the gross refund 1000, the
  fee 100 and the net refund 900.
\<close>

theorem C2_refund_within_rounding:
  "((base_price_per_ticket_ieee p = PyInt n \<and> B = of_int n \<or>
     base_price_per_ticket_ieee p = PyFloat (Finite B)) \<and>
    ranged (- 500) 500 B \<and>
    (\<forall>key. p_get_ieee p key \<le> 2 ^ 500) \<and>
    ask_cancellations_ieee p answers categories tally_start \<noteq> StillAsking \<longrightarrow>
    (\<exists>t ca ci cc cs gross fee net.
       ask_cancellations_ieee p answers categories tally_start = Finished t \<and>
       cancellations_ieee t = [(Adult, ca), (Infant, ci), (Child, cc), (Senior, cs)] \<and>
       total_cancelled_seats_ieee t = ca + ci + cc + cs \<and>
       total_refund_gross_ieee t = PyFloat (Finite gross) \<and>
       cancellation_fee_ieee (total_refund_gross_ieee t) = Some (PyFloat (Finite fee)) \<and>
       net_refund_ieee (total_refund_gross_ieee t) = Some (PyFloat (Finite net)) \<and>
       (let G = of_int ca * B + of_int ci * 0 + of_int cc * ((1 / 2) * B)
                  + of_int cs * ((7 / 10) * B)
        in \<bar>gross - G\<bar> \<le> G / 2 ^ 47 \<and>
           \<bar>fee - G * (1 / 10)\<bar> \<le> G * (1 / 10) / 2 ^ 47 \<and>
           \<bar>net - G * (9 / 10)\<bar> \<le> G * (9 / 10) / 2 ^ 47))) \<and>
   ((base_price_per_ticket_ieee p = PyInt 1000 \<or>
     base_price_per_ticket_ieee p = PyFloat (Finite 1000)) \<and>
    ask_cancellations_ieee p answers categories tally_start = Finished u \<and>
    cancellations_ieee u = [(Adult, 1), (Infant, 0), (Child, 0), (Senior, 0)] \<longrightarrow>
    total_refund_gross_ieee u = PyFloat (Finite 1000) \<and>
    cancellation_fee_ieee (total_refund_gross_ieee u) = Some (PyFloat (Finite 100)) \<and>
    net_refund_ieee (total_refund_gross_ieee u) = Some (PyFloat (Finite 900)))"
proof (intro conjI impI)
  assume h: "(base_price_per_ticket_ieee p = PyInt n \<and> B = of_int n \<or>
     base_price_per_ticket_ieee p = PyFloat (Finite B)) \<and>
    ranged (- 500) 500 B \<and>
    (\<forall>key. p_get_ieee p key \<le> 2 ^ 500) \<and>
    ask_cancellations_ieee p answers categories tally_start \<noteq> StillAsking"
  then have 1: "base_price_per_ticket_ieee p = PyInt n \<and> B = of_int n \<or>
     base_price_per_ticket_ieee p = PyFloat (Finite B)"
    and 2: "ranged (- 500) 500 B"
    and 3: "\<forall>key. p_get_ieee p key \<le> 2 ^ 500"
    and 4: "ask_cancellations_ieee p answers categories tally_start \<noteq> StillAsking"
    by blast+
  from 1 2 3 4 show "\<exists>t ca ci cc cs gross fee net.
       ask_cancellations_ieee p answers categories tally_start = Finished t \<and>
       cancellations_ieee t = [(Adult, ca), (Infant, ci), (Child, cc), (Senior, cs)] \<and>
       total_cancelled_seats_ieee t = ca + ci + cc + cs \<and>
       total_refund_gross_ieee t = PyFloat (Finite gross) \<and>
       cancellation_fee_ieee (total_refund_gross_ieee t) = Some (PyFloat (Finite fee)) \<and>
       net_refund_ieee (total_refund_gross_ieee t) = Some (PyFloat (Finite net)) \<and>
       (let G = of_int ca * B + of_int ci * 0 + of_int cc * ((1 / 2) * B)
                  + of_int cs * ((7 / 10) * B)
        in \<bar>gross - G\<bar> \<le> G / 2 ^ 47 \<and>
           \<bar>fee - G * (1 / 10)\<bar> \<le> G * (1 / 10) / 2 ^ 47 \<and>
           \<bar>net - G * (9 / 10)\<bar> \<le> G * (9 / 10) / 2 ^ 47)"
    by (rule refund_within_rounding)
next
  assume h: "(base_price_per_ticket_ieee p = PyInt 1000 \<or>
     base_price_per_ticket_ieee p = PyFloat (Finite 1000)) \<and>
    ask_cancellations_ieee p answers categories tally_start = Finished u \<and>
    cancellations_ieee u = [(Adult, 1), (Infant, 0), (Child, 0), (Senior, 0)]"
  then have 1: "base_price_per_ticket_ieee p = PyInt 1000 \<or>
     base_price_per_ticket_ieee p = PyFloat (Finite 1000)"
    and 2: "ask_cancellations_ieee p answers categories tally_start = Finished u"
    and 3: "cancellations_ieee u = [(Adult, 1), (Infant, 0), (Child, 0), (Senior, 0)]"
    by blast+
  from refund_one_adult_1000 [OF 1 2 3]
  show "total_refund_gross_ieee u = PyFloat (Finite 1000)"
    "cancellation_fee_ieee (total_refund_gross_ieee u) = Some (PyFloat (Finite 100))"
    "net_refund_ieee (total_refund_gross_ieee u) = Some (PyFloat (Finite 900))"
    by blast+
qed

theorem C2_refund_within_rounding_witness:
  "base_price_per_ticket_ieee pricing_demo_ieee = PyInt 1000 \<and>
   ranged (- 500) 500 1000 \<and>
   (\<forall>key. p_get_ieee pricing_demo_ieee key \<le> 2 ^ 500) \<and>
   ask_cancellations_ieee pricing_demo_ieee one_adult categories tally_start =
     Finished
       \<lparr> cancellations_ieee = [(Adult, 1), (Infant, 0), (Child, 0), (Senior, 0)],
         total_cancelled_seats_ieee = 1,
         total_refund_gross_ieee = PyFloat (Finite 1000) \<rparr> \<and>
   cancellation_fee_ieee (PyFloat (Finite 1000)) = Some (PyFloat (Finite 100)) \<and>
   net_refund_ieee (PyFloat (Finite 1000)) = Some (PyFloat (Finite 900)) \<and>
   (\<exists>t gross fee net.
      ask_cancellations_ieee pricing_demo_ieee one_adult categories tally_start = Finished t \<and>
      total_refund_gross_ieee t = PyFloat (Finite gross) \<and>
      cancellation_fee_ieee (total_refund_gross_ieee t) = Some (PyFloat (Finite fee)) \<and>
      net_refund_ieee (total_refund_gross_ieee t) = Some (PyFloat (Finite net)) \<and>
      \<bar>gross - 1000\<bar> \<le> 1000 / 2 ^ 47 \<and> \<bar>fee - 100\<bar> \<le> 100 / 2 ^ 47 \<and>
      \<bar>net - 900\<bar> \<le> 900 / 2 ^ 47)"
proof -
  let ?demo = "\<lparr> cancellations_ieee = [(Adult, 1), (Infant, 0), (Child, 0), (Senior, 0)],
         total_cancelled_seats_ieee = 1,
         total_refund_gross_ieee = PyFloat (Finite 1000) \<rparr>"
  have base: "base_price_per_ticket_ieee pricing_demo_ieee = PyInt 1000"
    by (simp add: pricing_demo_ieee_def)
  have "ranged 0 10 1000" by (simp add: ranged_def)
  then have r: "ranged (- 500) 500 1000" by (rule ranged_weaken) simp_all
  have counts: "\<forall>key. p_get_ieee pricing_demo_ieee key \<le> 2 ^ 500"
  proof
    fix key
    show "p_get_ieee pricing_demo_ieee key \<le> 2 ^ 500"
      by (cases key) (simp_all add: pricing_demo_ieee_def)
  qed
  have run: "ask_cancellations_ieee pricing_demo_ieee one_adult categories tally_start
      = Finished ?demo"
    by (rule refund_demo_ieee(1))
  then have answered:
    "ask_cancellations_ieee pricing_demo_ieee one_adult categories tally_start \<noteq> StillAsking"
    by simp
  have shape: "cancellations_ieee ?demo = [(Adult, 1), (Infant, 0), (Child, 0), (Senior, 0)]"
    by simp
  note inst = C2_refund_within_rounding [where p = pricing_demo_ieee and n = 1000 and B = 1000
      and answers = one_adult and u = ?demo]
  from inst base r counts answered
  obtain t ca ci cc cs gross fee net where
    t: "ask_cancellations_ieee pricing_demo_ieee one_adult categories tally_start = Finished t"
       "cancellations_ieee t = [(Adult, ca), (Infant, ci), (Child, cc), (Senior, cs)]"
       "total_refund_gross_ieee t = PyFloat (Finite gross)"
       "cancellation_fee_ieee (total_refund_gross_ieee t) = Some (PyFloat (Finite fee))"
       "net_refund_ieee (total_refund_gross_ieee t) = Some (PyFloat (Finite net))" and
    b: "let G = of_int ca * 1000 + of_int ci * 0 + of_int cc * ((1 / 2) * 1000)
                  + of_int cs * ((7 / 10) * 1000)
        in \<bar>gross - G\<bar> \<le> G / 2 ^ 47 \<and>
           \<bar>fee - G * (1 / 10)\<bar> \<le> G * (1 / 10) / 2 ^ 47 \<and>
           \<bar>net - G * (9 / 10)\<bar> \<le> G * (9 / 10) / 2 ^ 47"
    by auto
  from t(1,2) run have "ca = 1" "ci = 0" "cc = 0" "cs = 0" by auto
  with b have "\<bar>gross - 1000\<bar> \<le> 1000 / 2 ^ 47 \<and> \<bar>fee - 100\<bar> \<le> 100 / 2 ^ 47 \<and>
      \<bar>net - 900\<bar> \<le> 900 / 2 ^ 47"
    by (simp add: Let_def)
  with t have general: "\<exists>t gross fee net.
      ask_cancellations_ieee pricing_demo_ieee one_adult categories tally_start = Finished t \<and>
      total_refund_gross_ieee t = PyFloat (Finite gross) \<and>
      cancellation_fee_ieee (total_refund_gross_ieee t) = Some (PyFloat (Finite fee)) \<and>
      net_refund_ieee (total_refund_gross_ieee t) = Some (PyFloat (Finite net)) \<and>
      \<bar>gross - 1000\<bar> \<le> 1000 / 2 ^ 47 \<and> \<bar>fee - 100\<bar> \<le> 100 / 2 ^ 47 \<and>
      \<bar>net - 900\<bar> \<le> 900 / 2 ^ 47"
    by blast
  from inst base run shape
  have "total_refund_gross_ieee ?demo = PyFloat (Finite 1000) \<and>
    cancellation_fee_ieee (total_refund_gross_ieee ?demo) = Some (PyFloat (Finite 100)) \<and>
    net_refund_ieee (total_refund_gross_ieee ?demo) = Some (PyFloat (Finite 900))"
    by blast
  then have exact: "cancellation_fee_ieee (PyFloat (Finite 1000)) = Some (PyFloat (Finite 100))"
    "net_refund_ieee (PyFloat (Finite 1000)) = Some (PyFloat (Finite 900))"
    by simp_all
  from base r counts run exact general show ?thesis by blast
qed

end
